theory Spec2Isabelle
  imports Complex_Main
begin

section \<open>Arrays, errors and the numpy operations of \<open>P4/gmm.py\<close>\<close>

text \<open>
  The program computes with numpy arrays of floating-point numbers. The model computes
  with real numbers: a one-dimensional array is a list, a two-dimensional array a list
  of rows, a three-dimensional array a list of matrices. Rounding, overflow and
  underflow are not modelled.

  Where numpy would produce \<open>inf\<close> or \<open>nan\<close> (a division by zero, the logarithm of a
  number that is not positive, the square root of a negative number) it prints a
  RuntimeWarning and goes on computing with that value. The reals have no such value,
  so the model stops there with the outcome \<open>NonFinite\<close>: it is not a Python
  exception, it marks the point where a run leaves what real arithmetic describes.
  All other constructors of \<open>error\<close> are Python exceptions.
\<close>

type_synonym vec = "real list"
type_synonym mat = "real list list"

datatype error =
    AssertionError
  | Exception string
  | LinAlgError
  | UnboundLocalError
  | ZeroDivisionError
  | ValueError
  | IndexError
  | TypeError
  | NonFinite

definition and_then :: "error + 'a \<Rightarrow> ('a \<Rightarrow> error + 'b) \<Rightarrow> error + 'b" where
  "and_then m f = (case m of Inl err \<Rightarrow> Inl err | Inr v \<Rightarrow> f v)"

text \<open>A loop that builds a list and stops at the first exception.\<close>

fun for_each :: "('a \<Rightarrow> error + 'b) \<Rightarrow> 'a list \<Rightarrow> error + 'b list" where
  "for_each f [] = Inr []"
| "for_each f (a # as) =
     (case f a of Inl err \<Rightarrow> Inl err
      | Inr b \<Rightarrow> (case for_each f as of Inl err \<Rightarrow> Inl err | Inr bs \<Rightarrow> Inr (b # bs)))"

text \<open>\<open>xs[k]\<close> with a non-negative index: IndexError out of range.\<close>

definition item :: "'a list \<Rightarrow> nat \<Rightarrow> error + 'a" where
  "item xs k = (if k < length xs then Inr (xs ! k) else Inl IndexError)"

text \<open>\<open>xs[k]\<close> where \<open>xs\<close> may be Python's \<open>None\<close>, which is not subscriptable.\<close>

definition subscript :: "'a list option \<Rightarrow> nat \<Rightarrow> error + 'a" where
  "subscript xs k = (case xs of None \<Rightarrow> Inl TypeError | Some ys \<Rightarrow> item ys k)"

text \<open>
  An operation on two one-dimensional arrays, element by element. Arrays of different
  lengths do not broadcast: ValueError. (numpy would stretch an operand of length 1;
  the arrays of this program have such an axis only when \<open>D = 1\<close> or \<open>K = 1\<close>, and then
  both operands have it.)
\<close>

definition elementwise :: "(real \<Rightarrow> real \<Rightarrow> real) \<Rightarrow> vec \<Rightarrow> vec \<Rightarrow> error + vec" where
  "elementwise f a b = (if length a = length b then Inr (map2 f a b) else Inl ValueError)"

text \<open>A two-dimensional array combined with a one-dimensional one: row by row.\<close>

definition each_row :: "(real \<Rightarrow> real \<Rightarrow> real) \<Rightarrow> mat \<Rightarrow> vec \<Rightarrow> error + mat" where
  "each_row f m v = for_each (\<lambda>row. elementwise f row v) m"

definition ncols :: "'a list list \<Rightarrow> nat" where
  "ncols m = (case m of [] \<Rightarrow> 0 | row # _ \<Rightarrow> length row)"

definition column :: "mat \<Rightarrow> nat \<Rightarrow> vec" where
  "column m j = map (\<lambda>row. row ! j) m"

text \<open>
  \<open>m.T\<close>. A list of rows cannot tell an array of no rows and \<open>n\<close> columns from one of
  no rows and no columns: both are \<open>[]\<close>.
\<close>

definition T :: "mat \<Rightarrow> mat" where
  "T m = map (column m) [0..<ncols m]"

text \<open>\<open>m.sum(axis=1)\<close>, and \<open>m.sum(axis=0)\<close> for an array \<open>m\<close> of \<open>n\<close> columns.\<close>

definition sum_axis1 :: "mat \<Rightarrow> vec" where
  "sum_axis1 m = map sum_list m"

definition sum_axis0 :: "nat \<Rightarrow> mat \<Rightarrow> vec" where
  "sum_axis0 n m = map (\<lambda>j. sum_list (column m j)) [0..<n]"

text \<open>\<open>np.eye(D)\<close>, \<open>np.outer(u, v)\<close>, an array times a scalar.\<close>

definition eye :: "nat \<Rightarrow> mat" where
  "eye D = map (\<lambda>i. map (\<lambda>j. if i = j then 1 else 0) [0..<D]) [0..<D]"

definition outer :: "vec \<Rightarrow> vec \<Rightarrow> mat" where
  "outer u v = map (\<lambda>a. map (\<lambda>b. a * b) v) u"

definition scale :: "real \<Rightarrow> mat \<Rightarrow> mat" where
  "scale a m = map (map (\<lambda>u. a * u)) m"

definition scale_right :: "mat \<Rightarrow> real \<Rightarrow> mat" where
  "scale_right m a = map (map (\<lambda>u. u * a)) m"

text \<open>The sum of two two-dimensional arrays of the same shape.\<close>

definition add_mat :: "mat \<Rightarrow> mat \<Rightarrow> error + mat" where
  "add_mat a b =
     (if length a = length b then for_each (\<lambda>(r, s). elementwise (+) r s) (zip a b)
      else Inl ValueError)"

text \<open>
  \<open>v / d\<close> for an array \<open>v\<close> and a scalar \<open>d\<close>: numpy divides every element, so a zero
  divisor gives a non-finite value as soon as there is an element.
\<close>

definition divide_all :: "vec \<Rightarrow> real \<Rightarrow> error + vec" where
  "divide_all v d = (if d = 0 \<and> v \<noteq> [] then Inl NonFinite else Inr (map (\<lambda>u. u / d) v))"

definition divide_mat :: "mat \<Rightarrow> real \<Rightarrow> error + mat" where
  "divide_mat m d =
     (if d = 0 \<and> concat m \<noteq> [] then Inl NonFinite else Inr (map (map (\<lambda>u. u / d)) m))"

text \<open>
  \<open>np.array(ms).sum(axis=0)\<close> for a list \<open>ms\<close> of two-dimensional arrays of one shape.
  (Of an empty list numpy makes the scalar \<open>0.0\<close>; the program then divides it by zero.)
\<close>

definition sum_mats :: "mat list \<Rightarrow> mat" where
  "sum_mats ms =
     (case ms of [] \<Rightarrow> []
      | m # _ \<Rightarrow>
          map (\<lambda>a. map (\<lambda>b. sum_list (map (\<lambda>t. t ! a ! b) ms)) [0..<ncols m]) [0..<length m])"

text \<open>\<open>m[k] = v\<close> and \<open>t[k, :, :] = v\<close>: in place, the shapes must agree.\<close>

definition set_row :: "mat \<Rightarrow> nat \<Rightarrow> vec \<Rightarrow> error + mat" where
  "set_row m k v =
     (if k < length m
      then (if length v = length (m ! k) then Inr (m[k := v]) else Inl ValueError)
      else Inl IndexError)"

definition set_block :: "mat list \<Rightarrow> nat \<Rightarrow> mat \<Rightarrow> error + mat list" where
  "set_block t k v =
     (if k < length t
      then (if map length v = map length (t ! k) then Inr (t[k := v]) else Inl ValueError)
      else Inl IndexError)"

text \<open>\<open>range(n)\<close> for a Python int \<open>n\<close>.\<close>

definition py_range :: "int \<Rightarrow> int list" where
  "py_range n = map int [0..<nat n]"

text \<open>\<open>a @ b\<close> for two one-dimensional arrays, and for a one- and a two-dimensional one.\<close>

definition dot :: "vec \<Rightarrow> vec \<Rightarrow> error + real" where
  "dot a b = (if length a = length b then Inr (sum_list (map2 (*) a b)) else Inl ValueError)"

definition vecmat :: "vec \<Rightarrow> mat \<Rightarrow> error + vec" where
  "vecmat v m =
     (if length v = length m
      then Inr (map (\<lambda>j. sum_list (map2 (*) v (column m j))) [0..<ncols m])
      else Inl ValueError)"

section \<open>What the program takes from outside\<close>

text \<open>
  \<open>np.linalg\<close>, numpy's global random generator and the \<open>KMeans\<close> class of the module
  \<open>kmeans\<close> are not part of \<open>gmm.py\<close>. They are parameters of the model: a record of
  functions, of which the theorems assume only what they say. The generator's state is a
  number; every function that draws from it returns the next state.
\<close>

type_synonym rng = nat
type_synonym addr = nat

text \<open>
  A \<open>GMM\<close> object. The attributes \<open>means\<close>, \<open>variances\<close> and \<open>pi_k\<close> are \<open>None\<close> or
  refer to an array in the store.
\<close>

record GMM =
  n_cluster :: nat
  e_attr :: real
  max_iter :: int
  init :: string
  means :: "addr option"
  variances :: "addr option"
  pi_k :: "addr option"

record env =
  matrix_rank :: "mat \<Rightarrow> nat"
  linalg_inv :: "mat \<Rightarrow> mat option"
  linalg_det :: "mat \<Rightarrow> real"
  seed :: "int \<Rightarrow> rng"
  rand :: "rng \<Rightarrow> nat \<Rightarrow> nat \<Rightarrow> mat \<times> rng"
  choice :: "rng \<Rightarrow> nat \<Rightarrow> nat \<Rightarrow> vec \<Rightarrow> error + (nat list \<times> rng)"
  multivariate_normal :: "rng \<Rightarrow> vec \<Rightarrow> mat \<Rightarrow> error + (vec \<times> rng)"
  KMeans_fit :: "GMM \<Rightarrow> mat \<Rightarrow> rng \<Rightarrow> error + (mat \<times> nat list \<times> rng)"

section \<open>\<open>GMM.Gaussian_pdf\<close>\<close>

record Gaussian_pdf_obj =
  mean :: vec
  variance :: mat
  inv_attr :: mat
  c_attr :: real

text \<open>
  \<open>__init__\<close>, lines 206 to 227. \<open>np.linalg.inv\<close> raises LinAlgError on a singular
  matrix: the parameter returns \<open>None\<close> there.
\<close>

definition Gaussian_pdf :: "env \<Rightarrow> vec \<Rightarrow> mat \<Rightarrow> error + Gaussian_pdf_obj" where
  "Gaussian_pdf np mean0 variance0 =
     (let D = length variance0;
          below = (if matrix_rank np variance0 < D then 1 else 0)
      in and_then (add_mat (scale_right (scale below (eye D)) 0.001) variance0) (\<lambda>v.
         case linalg_inv np v of
           None \<Rightarrow> Inl LinAlgError
         | Some iv \<Rightarrow>
             Inr \<lparr>mean = mean0, variance = v, inv_attr = iv,
                  c_attr = ((2 * pi) ^ D) * linalg_det np v\<rparr>))"

text \<open>
  \<open>getLikelihood\<close>, lines 246 to 254. Python reads \<open>- 0.5 * boo.T @ inv @ boo\<close> from the
  left: \<open>((-0.5 * boo.T) @ inv) @ boo\<close>. The square root of \<open>c\<close> is finite and not
  zero exactly when \<open>c\<close> is positive.
\<close>

definition getLikelihood :: "Gaussian_pdf_obj \<Rightarrow> vec \<Rightarrow> error + real" where
  "getLikelihood g x =
     and_then (elementwise (-) x (mean g)) (\<lambda>boo.
     and_then (vecmat (map (\<lambda>u. - 0.5 * u) boo) (inv_attr g)) (\<lambda>t.
     and_then (dot t boo) (\<lambda>q.
       if c_attr g \<le> 0 then Inl NonFinite else Inr (exp q / sqrt (c_attr g)))))"

section \<open>The store\<close>

text \<open>
  Python variables and attributes hold references. The store maps an address to the
  array it holds, with one table for each number of dimensions; \<open>fresh\<close> is the next
  unused address and \<open>gen\<close> the state of numpy's global random generator.
\<close>

record world =
  mats :: "addr \<Rightarrow> mat"
  tens :: "addr \<Rightarrow> mat list"
  vecs :: "addr \<Rightarrow> vec"
  fresh :: addr
  gen :: rng

definition new_mat :: "mat \<Rightarrow> world \<Rightarrow> addr \<times> world" where
  "new_mat m w = (fresh w, w\<lparr>mats := (mats w)(fresh w := m), fresh := Suc (fresh w)\<rparr>)"

definition new_ten :: "mat list \<Rightarrow> world \<Rightarrow> addr \<times> world" where
  "new_ten t w = (fresh w, w\<lparr>tens := (tens w)(fresh w := t), fresh := Suc (fresh w)\<rparr>)"

definition new_vec :: "vec \<Rightarrow> world \<Rightarrow> addr \<times> world" where
  "new_vec v w = (fresh w, w\<lparr>vecs := (vecs w)(fresh w := v), fresh := Suc (fresh w)\<rparr>)"

text \<open>A store with nothing in it.\<close>

definition empty_world :: world where
  "empty_world = \<lparr>mats = (\<lambda>a. []), tens = (\<lambda>a. []), vecs = (\<lambda>a. []), fresh = 0, gen = 0\<rparr>"

section \<open>\<open>GMM.compute_log_likelihood\<close>\<close>

text \<open>
  The loop of lines 109 to 111 and of lines 190 to 192: one \<open>Gaussian_pdf\<close> for each
  component.
\<close>

definition instances ::
  "env \<Rightarrow> nat \<Rightarrow> mat option \<Rightarrow> mat list option \<Rightarrow> error + Gaussian_pdf_obj list" where
  "instances np K means1 variances1 =
     for_each (\<lambda>k.
       and_then (subscript means1 k) (\<lambda>m.
       and_then (subscript variances1 k) (\<lambda>v. Gaussian_pdf np m v))) [0..<K]"

text \<open>
  Lines 172 to 203. An argument left out is \<open>None\<close> and is replaced by the attribute
  of \<open>self\<close>, read from the store. \<open>x\<close> is two-dimensional by its type. \<open>np.log\<close> is
  finite exactly on the positive numbers.
\<close>

definition compute_log_likelihood ::
  "env \<Rightarrow> GMM \<Rightarrow> world \<Rightarrow> mat \<Rightarrow> mat option \<Rightarrow> mat list option \<Rightarrow> vec option \<Rightarrow> error + real" where
  "compute_log_likelihood np self w x means0 variances0 pi_k0 =
     (let means1 = (case means0 of None \<Rightarrow> map_option (mats w) (means self) | Some m \<Rightarrow> Some m);
          variances1 =
            (case variances0 of None \<Rightarrow> map_option (tens w) (variances self) | Some t \<Rightarrow> Some t);
          pi_k1 = (case pi_k0 of None \<Rightarrow> map_option (vecs w) (pi_k self) | Some v \<Rightarrow> Some v);
          K = n_cluster self
      in and_then (instances np K means1 variances1) (\<lambda>inst.
         and_then (for_each (\<lambda>xi. for_each (\<lambda>k.
                     and_then (subscript pi_k1 k) (\<lambda>p.
                     and_then (getLikelihood (inst ! k) xi) (\<lambda>d. Inr (p * d)))) [0..<K]) x)
           (\<lambda>normal.
              let sumnormal = sum_axis1 normal
              in if list_all (\<lambda>s. 0 < s) sumnormal then Inr (sum_list (map ln sumnormal))
                 else Inl NonFinite)))"

section \<open>\<open>GMM.fit\<close>\<close>

text \<open>
  Lines 57 and 58, and again lines 119 to 121: the covariance of component \<open>k\<close> around
  \<open>mu\<close>, divided by \<open>n\<close>, which is \<open>N_k[k]\<close>.
\<close>

definition covariance :: "mat \<Rightarrow> mat \<Rightarrow> nat \<Rightarrow> vec \<Rightarrow> real \<Rightarrow> error + mat" where
  "covariance x gamma_ik k mu n =
     and_then (each_row (-) x mu) (\<lambda>boo.
     and_then (for_each (\<lambda>i.
                 and_then (item gamma_ik i) (\<lambda>row.
                 and_then (item row k) (\<lambda>g. Inr (scale g (outer (boo ! i) (boo ! i))))))
               [0..<length x]) (\<lambda>terms.
       divide_mat (sum_mats terms) n))"

text \<open>
  Lines 50 to 60. \<open>KMeans.fit\<close> gives the centres, the cluster of every point and the
  generator's next state.
\<close>

definition init_k_means :: "env \<Rightarrow> GMM \<Rightarrow> mat \<Rightarrow> rng \<Rightarrow> error + (mat \<times> mat list \<times> vec \<times> rng)" where
  "init_k_means np self x g =
     (let N = length x; K = n_cluster self
      in and_then (KMeans_fit np self x g) (\<lambda>(mu_k, assign, g').
         and_then (for_each (\<lambda>i.
                     and_then (item assign i) (\<lambda>a.
                       if a < K then Inr (map (\<lambda>k. if k = a then 1 else 0) [0..<K])
                       else Inl IndexError)) [0..<N]) (\<lambda>gamma_ik.
         let N_k = sum_axis0 K gamma_ik
         in and_then (for_each (\<lambda>k.
                        and_then (item mu_k k) (\<lambda>mu. covariance x gamma_ik k mu (N_k ! k)))
                      [0..<K]) (\<lambda>sigma_k.
            and_then (divide_all N_k (real N)) (\<lambda>pi_k0.
              Inr (mu_k, sigma_k, pi_k0, g'))))))"

text \<open>
  Lines 75 to 82. \<open>1 / K\<close> divides two Python ints: ZeroDivisionError when \<open>K\<close> is 0.
  An empty dataset is taken to have no columns.
\<close>

definition init_random :: "env \<Rightarrow> GMM \<Rightarrow> mat \<Rightarrow> rng \<Rightarrow> error + (mat \<times> mat list \<times> vec \<times> rng)" where
  "init_random np self x g =
     (let D = ncols x; K = n_cluster self;
          (mu_k, g') = rand np g K D;
          sigma_k = replicate K (eye D)
      in if K = 0 then Inl ZeroDivisionError
         else Inr (mu_k, sigma_k, replicate K (1 / real K), g'))"

text \<open>
  The E step, lines 109 to 113. First \<open>pi_k * Normal\<close>, the density of every point
  under every component times the component's weight. With no data point \<open>Normal\<close>
  is an empty one-dimensional array, and \<open>pi_k * Normal\<close> or the \<open>.sum(axis=1)\<close>
  that follows raises a ValueError.
\<close>

definition weighted_densities ::
  "env \<Rightarrow> nat \<Rightarrow> mat \<Rightarrow> mat \<Rightarrow> mat list \<Rightarrow> vec \<Rightarrow> error + mat" where
  "weighted_densities np K x means1 variances1 pi_k1 =
     and_then (instances np K (Some means1) (Some variances1)) (\<lambda>inst.
     and_then (for_each (\<lambda>xi. for_each (\<lambda>k. getLikelihood (inst ! k) xi) [0..<K]) x) (\<lambda>Normal.
       if x = [] then Inl ValueError else each_row (*) Normal pi_k1))"

text \<open>
  Then line 113, \<open>(W.T / W.sum(axis=1).T).T\<close> for \<open>W = pi_k * Normal\<close>. A row of total
  mass zero makes the division non-finite.
\<close>

definition e_step :: "env \<Rightarrow> nat \<Rightarrow> mat \<Rightarrow> mat \<Rightarrow> mat list \<Rightarrow> vec \<Rightarrow> error + mat" where
  "e_step np K x means1 variances1 pi_k1 =
     and_then (weighted_densities np K x means1 variances1 pi_k1) (\<lambda>W.
       let s = sum_axis1 W; Wt = T W
       in if Wt \<noteq> [] \<and> list_ex (\<lambda>u. u = 0) s then Inl NonFinite
          else and_then (each_row (/) Wt s) (\<lambda>Q. Inr (T Q)))"

text \<open>Line 117, the right-hand side: the new mean of component \<open>k\<close>.\<close>

definition new_mean :: "mat \<Rightarrow> mat \<Rightarrow> vec \<Rightarrow> nat \<Rightarrow> error + vec" where
  "new_mean x gamma_ik N_k k =
     (if k < ncols gamma_ik
      then and_then (each_row (*) (T x) (column gamma_ik k)) (\<lambda>P.
           and_then (item N_k k) (\<lambda>n. divide_all (sum_axis1 P) n))
      else Inl IndexError)"

text \<open>
  The loops of lines 116 to 117 and 118 to 121. Both write into the array that the
  local variable refers to, in place.
\<close>

fun update_means :: "mat \<Rightarrow> mat \<Rightarrow> vec \<Rightarrow> addr \<Rightarrow> nat list \<Rightarrow> world \<Rightarrow> error + world" where
  "update_means x gamma_ik N_k means_l [] w = Inr w"
| "update_means x gamma_ik N_k means_l (k # ks) w =
     (case new_mean x gamma_ik N_k k of
        Inl err \<Rightarrow> Inl err
      | Inr v \<Rightarrow>
          (case set_row (mats w means_l) k v of
             Inl err \<Rightarrow> Inl err
           | Inr m \<Rightarrow> update_means x gamma_ik N_k means_l ks (w\<lparr>mats := (mats w)(means_l := m)\<rparr>)))"

fun update_variances ::
  "mat \<Rightarrow> mat \<Rightarrow> vec \<Rightarrow> addr \<Rightarrow> addr \<Rightarrow> nat list \<Rightarrow> world \<Rightarrow> error + world" where
  "update_variances x gamma_ik N_k means_l variances_l [] w = Inr w"
| "update_variances x gamma_ik N_k means_l variances_l (k # ks) w =
     (case item (mats w means_l) k of
        Inl err \<Rightarrow> Inl err
      | Inr mu \<Rightarrow>
          (case item N_k k of
             Inl err \<Rightarrow> Inl err
           | Inr n \<Rightarrow>
               (case covariance x gamma_ik k mu n of
                  Inl err \<Rightarrow> Inl err
                | Inr v \<Rightarrow>
                    (case set_block (tens w variances_l) k v of
                       Inl err \<Rightarrow> Inl err
                     | Inr t \<Rightarrow>
                         update_variances x gamma_ik N_k means_l variances_l ks
                           (w\<lparr>tens := (tens w)(variances_l := t)\<rparr>)))))"

text \<open>
  The M step, lines 115 to 122. Line 122 makes a new array \<open>N_k / N\<close>, and the local
  variable \<open>pi_k\<close> is bound to it: the result is its address.
\<close>

definition m_step :: "mat \<Rightarrow> mat \<Rightarrow> nat \<Rightarrow> addr \<Rightarrow> addr \<Rightarrow> world \<Rightarrow> error + (addr \<times> world)" where
  "m_step x gamma_ik K means_l variances_l w =
     (let N_k = sum_axis0 (ncols gamma_ik) gamma_ik
      in and_then (update_means x gamma_ik N_k means_l [0..<K] w) (\<lambda>w1.
         and_then (update_variances x gamma_ik N_k means_l variances_l [0..<K] w1) (\<lambda>w2.
         and_then (divide_all N_k (real (length x))) (\<lambda>p. Inr (new_vec p w2)))))"

text \<open>
  One pass of the loop body up to line 123. \<open>means_l\<close>, \<open>variances_l\<close> and \<open>pi_k_l\<close> are
  the local variables \<open>means\<close>, \<open>variances\<close> and \<open>pi_k\<close>. Line 123 calls
  \<open>compute_log_likelihood\<close> with \<open>self\<close> and \<open>x\<close> only. The result is \<open>l_new\<close>, the
  local \<open>pi_k\<close> and the store.
\<close>

definition em_iteration ::
  "env \<Rightarrow> GMM \<Rightarrow> mat \<Rightarrow> addr \<Rightarrow> addr \<Rightarrow> addr \<Rightarrow> world \<Rightarrow> error + (real \<times> addr \<times> world)" where
  "em_iteration np self x means_l variances_l pi_k_l w =
     and_then (e_step np (n_cluster self) x (mats w means_l) (tens w variances_l)
                 (vecs w pi_k_l)) (\<lambda>gamma_ik.
     and_then (m_step x gamma_ik (n_cluster self) means_l variances_l w) (\<lambda>(pi_k_new, w').
     and_then (compute_log_likelihood np self w' x None None None) (\<lambda>l_new.
       Inr (l_new, pi_k_new, w'))))"

text \<open>
  The loop of lines 106 to 127 over the remaining values of \<open>iter\<close>. It gives
  \<open>number_of_updates\<close> (\<open>None\<close> while the variable is not bound), the local \<open>pi_k\<close>
  and the store.
\<close>

fun em_loop ::
  "env \<Rightarrow> GMM \<Rightarrow> mat \<Rightarrow> addr \<Rightarrow> addr \<Rightarrow> int list \<Rightarrow> addr \<Rightarrow> real \<Rightarrow> world
     \<Rightarrow> error + (int option \<times> addr \<times> world)" where
  "em_loop np self x means_l variances_l [] pi_k_l l w = Inr (None, pi_k_l, w)"
| "em_loop np self x means_l variances_l (iter # rest) pi_k_l l w =
     (case em_iteration np self x means_l variances_l pi_k_l w of
        Inl err \<Rightarrow> Inl err
      | Inr (l_new, pi_k_new, w') \<Rightarrow>
          if \<bar>l - l_new\<bar> < e_attr self then Inr (Some iter, pi_k_new, w')
          else em_loop np self x means_l variances_l rest pi_k_new l_new w')"

text \<open>
  \<open>fit\<close> up to line 104. \<open>x\<close> is two-dimensional by its type. The three arrays of the
  initialisation are stored; \<open>self\<close> (lines 61 to 63 or 83 to 85) and the local
  variables (lines 102 to 104) refer to the same three arrays. The result is \<open>self\<close>,
  the local variables \<open>means\<close>, \<open>variances\<close>, \<open>pi_k\<close> and \<open>l\<close>, and the store.
\<close>

definition fit_init ::
  "env \<Rightarrow> GMM \<Rightarrow> mat \<Rightarrow> world \<Rightarrow> error + (GMM \<times> addr \<times> addr \<times> addr \<times> real \<times> world)" where
  "fit_init np self x w0 =
     (let g0 = seed np 42
      in and_then
           (if init self = ''k_means'' then init_k_means np self x g0
            else if init self = ''random'' then init_random np self x g0
            else Inl (Exception ''Invalid initialization provided''))
           (\<lambda>(mu_k, sigma_k, pi_k0, g1).
         let (a_means, w1) = new_mat mu_k (w0\<lparr>gen := g1\<rparr>);
             (a_variances, w2) = new_ten sigma_k w1;
             (a_pi_k, w3) = new_vec pi_k0 w2;
             self1 = self\<lparr>means := Some a_means, variances := Some a_variances,
                          pi_k := Some a_pi_k\<rparr>
         in and_then (compute_log_likelihood np self1 w3 x None None None) (\<lambda>l.
              Inr (self1, a_means, a_variances, a_pi_k, l, w3))))"

text \<open>
  \<open>fit\<close>, lines 38 to 131. Lines 128 to 130 store the local variables in \<open>self\<close>; line
  131 reads \<open>number_of_updates\<close>, which is bound only by line 125. An exception leaves
  the method; the state it leaves behind is not modelled.
\<close>

definition fit :: "env \<Rightarrow> GMM \<Rightarrow> mat \<Rightarrow> world \<Rightarrow> error + (int \<times> GMM \<times> world)" where
  "fit np self x w0 =
     and_then (fit_init np self x w0) (\<lambda>(self1, means_l, variances_l, pi_k_l, l, w).
     and_then (em_loop np self1 x means_l variances_l (py_range (max_iter self1)) pi_k_l l w)
       (\<lambda>(number_of_updates, pi_k_l', w').
          let self2 = self1\<lparr>means := Some means_l, variances := Some variances_l,
                           pi_k := Some pi_k_l'\<rparr>
          in case number_of_updates of
               None \<Rightarrow> Inl UnboundLocalError
             | Some n \<Rightarrow> Inr (n, self2, w')))"

section \<open>\<open>GMM.sample\<close>\<close>

text \<open>The argument \<open>N\<close> of \<open>sample\<close>: a Python int, or an object of another type.\<close>

datatype pyobject = PyInt int | PyOther

text \<open>The loop of lines 159 and 160, from the samples drawn so far.\<close>

fun draw ::
  "env \<Rightarrow> mat \<Rightarrow> mat list option \<Rightarrow> nat list \<Rightarrow> nat \<Rightarrow> nat list \<Rightarrow> rng \<Rightarrow> error + (mat \<times> rng)" where
  "draw np means1 variances1 k D [] g = Inr ([], g)"
| "draw np means1 variances1 k D (n # ns) g =
     (case item k n of
        Inl err \<Rightarrow> Inl err
      | Inr kn \<Rightarrow>
          (case item means1 kn of
             Inl err \<Rightarrow> Inl err
           | Inr m \<Rightarrow>
               (case subscript variances1 kn of
                  Inl err \<Rightarrow> Inl err
                | Inr v \<Rightarrow>
                    (case multivariate_normal np g m v of
                       Inl err \<Rightarrow> Inl err
                     | Inr (s, g') \<Rightarrow>
                         if length s = D
                         then (case draw np means1 variances1 k D ns g' of
                                 Inl err \<Rightarrow> Inl err
                               | Inr (rest, g'') \<Rightarrow> Inr (s # rest, g''))
                         else Inl ValueError))))"

text \<open>
  \<open>sample\<close>, lines 144 to 163. \<open>self.pi_k.shape\<close> of a \<open>pi_k\<close> that is \<open>None\<close> is an
  AttributeError, given here as TypeError.
\<close>

definition sample :: "env \<Rightarrow> GMM \<Rightarrow> pyobject \<Rightarrow> world \<Rightarrow> error + (mat \<times> world)" where
  "sample np self N w =
     (case N of
        PyOther \<Rightarrow> Inl AssertionError
      | PyInt n \<Rightarrow>
          if n \<le> 0 then Inl AssertionError
          else
            (let g0 = seed np 42
             in case means self of
                  None \<Rightarrow> Inl (Exception ''Train GMM before sampling'')
                | Some a_means \<Rightarrow>
                    (case pi_k self of
                       None \<Rightarrow> Inl TypeError
                     | Some a_pi_k \<Rightarrow>
                         (let K = length (vecs w a_pi_k);
                              D = ncols (mats w a_means)
                          in and_then (choice np g0 K (nat n) (vecs w a_pi_k)) (\<lambda>(k, g1).
                             and_then (draw np (mats w a_means)
                                         (map_option (tens w) (variances self)) k D
                                         [0..<nat n] g1) (\<lambda>(samples, g2).
                               Inr (samples, w\<lparr>gen := g2\<rparr>)))))))"

section \<open>Quantities the statements are about\<close>

text \<open>An array of \<open>n\<close> rows and \<open>d\<close> columns.\<close>

definition rectangular :: "nat \<Rightarrow> nat \<Rightarrow> 'a list list \<Rightarrow> bool" where
  "rectangular n d m = (length m = n \<and> list_all (\<lambda>row. length row = d) m)"

text \<open>\<open>v + a I\<close> for a \<open>D\<close> by \<open>D\<close> array \<open>v\<close>.\<close>

definition plus_identity :: "real \<Rightarrow> nat \<Rightarrow> mat \<Rightarrow> mat" where
  "plus_identity a D v =
     map (\<lambda>i. map (\<lambda>j. v ! i ! j + (if i = j then a else 0)) [0..<D]) [0..<D]"

text \<open>The covariance with \<open>0.001 I\<close> added exactly when its rank is below \<open>D\<close>.\<close>

definition regularised :: "env \<Rightarrow> nat \<Rightarrow> mat \<Rightarrow> mat" where
  "regularised np D v = (if matrix_rank np v < D then plus_identity 0.001 D v else v)"

text \<open>The quadratic form \<open>b\<^sup>T A b\<close>.\<close>

definition quadratic_form :: "vec \<Rightarrow> mat \<Rightarrow> real" where
  "quadratic_form b A =
     (\<Sum>i\<leftarrow>[0..<length b]. \<Sum>j\<leftarrow>[0..<length b]. b ! i * A ! i ! j * b ! j)"

text \<open>
  The responsibility mass \<open>N_k\<close> of component \<open>k\<close>, the mean of the data weighted by
  column \<open>k\<close> of \<open>gamma\<close>, and the weighted covariance of the data around \<open>mu\<close>.
\<close>

definition mass :: "mat \<Rightarrow> nat \<Rightarrow> real" where
  "mass gamma k = (\<Sum>i\<leftarrow>[0..<length gamma]. gamma ! i ! k)"

definition weighted_mean :: "mat \<Rightarrow> mat \<Rightarrow> nat \<Rightarrow> vec" where
  "weighted_mean x gamma k =
     map (\<lambda>d. (\<Sum>i\<leftarrow>[0..<length x]. gamma ! i ! k * x ! i ! d) / mass gamma k) [0..<ncols x]"

definition weighted_covariance :: "mat \<Rightarrow> mat \<Rightarrow> nat \<Rightarrow> vec \<Rightarrow> mat" where
  "weighted_covariance x gamma k mu =
     map (\<lambda>a. map (\<lambda>b.
       (\<Sum>i\<leftarrow>[0..<length x]. gamma ! i ! k * ((x ! i ! a - mu ! a) * (x ! i ! b - mu ! b)))
         / mass gamma k) [0..<ncols x]) [0..<ncols x]"

text \<open>
  The state of the loop of \<open>fit\<close> after \<open>i\<close> passes none of which left the loop: the
  variable \<open>l\<close>, the local \<open>pi_k\<close> and the store.
\<close>

fun em_state ::
  "env \<Rightarrow> GMM \<Rightarrow> mat \<Rightarrow> addr \<Rightarrow> addr \<Rightarrow> nat \<Rightarrow> real \<times> addr \<times> world
     \<Rightarrow> error + (real \<times> addr \<times> world)" where
  "em_state np self x means_l variances_l 0 s = Inr s"
| "em_state np self x means_l variances_l (Suc i) s =
     (case em_state np self x means_l variances_l i s of
        Inl err \<Rightarrow> Inl err
      | Inr (l, pi_k_l, w) \<Rightarrow> em_iteration np self x means_l variances_l pi_k_l w)"

text \<open>
  The test of line 124 in the pass with \<open>iter = i\<close>: the log-likelihood before the pass
  against the one after it.
\<close>

definition converged_at ::
  "env \<Rightarrow> GMM \<Rightarrow> mat \<Rightarrow> addr \<Rightarrow> addr \<Rightarrow> real \<times> addr \<times> world \<Rightarrow> nat \<Rightarrow> bool" where
  "converged_at np self x means_l variances_l s i =
     (case em_state np self x means_l variances_l i s of
        Inl err \<Rightarrow> False
      | Inr (l, pi_k_l, w) \<Rightarrow>
          (case em_state np self x means_l variances_l (Suc i) s of
             Inl err \<Rightarrow> False
           | Inr (l_new, pi_k_new, w') \<Rightarrow> \<bar>l - l_new\<bar> < e_attr self))"

section \<open>What a caller sees of the parameters\<close>

text \<open>
  The values of \<open>self.means\<close>, \<open>self.variances\<close> and \<open>self.pi_k\<close>: \<open>None\<close>, or the array
  that the attribute refers to.
\<close>

definition parameters :: "GMM \<Rightarrow> world \<Rightarrow> mat option \<times> mat list option \<times> vec option" where
  "parameters self w =
     (map_option (mats w) (means self), map_option (tens w) (variances self),
      map_option (vecs w) (pi_k self))"

text \<open>
  What a call of \<open>fit\<close> leaves to its caller: the exception, or the returned count and
  the parameters of the model.
\<close>

definition fit_outcome ::
  "env \<Rightarrow> GMM \<Rightarrow> mat \<Rightarrow> world
     \<Rightarrow> error + (int \<times> mat option \<times> mat list option \<times> vec option)" where
  "fit_outcome np self x w =
     (case fit np self x w of
        Inl err \<Rightarrow> Inl err
      | Inr (n, self', w') \<Rightarrow> Inr (n, parameters self' w'))"

text \<open>What a call of \<open>sample\<close> leaves: the exception, or the returned array.\<close>

definition sample_outcome :: "env \<Rightarrow> GMM \<Rightarrow> pyobject \<Rightarrow> world \<Rightarrow> error + mat" where
  "sample_outcome np self N w =
     (case sample np self N w of
        Inl err \<Rightarrow> Inl err
      | Inr (samples, w') \<Rightarrow> Inr samples)"

section \<open>The loop of \<open>fit\<close> on the arrays alone\<close>

text \<open>
  The loops of lines 116 to 118 and 119 to 121 as functions of the array they update,
  \<open>means\<close> and \<open>variances\<close>, with no store: the same steps as \<open>update_means\<close> and
  \<open>update_variances\<close>.
\<close>

fun means_loop :: "mat \<Rightarrow> mat \<Rightarrow> vec \<Rightarrow> nat list \<Rightarrow> mat \<Rightarrow> error + mat" where
  "means_loop x gamma_ik N_k [] M = Inr M"
| "means_loop x gamma_ik N_k (k # ks) M =
     (case new_mean x gamma_ik N_k k of
        Inl err \<Rightarrow> Inl err
      | Inr v \<Rightarrow>
          (case set_row M k v of
             Inl err \<Rightarrow> Inl err
           | Inr M' \<Rightarrow> means_loop x gamma_ik N_k ks M'))"

fun variances_loop :: "mat \<Rightarrow> mat \<Rightarrow> vec \<Rightarrow> mat \<Rightarrow> nat list \<Rightarrow> mat list \<Rightarrow> error + mat list" where
  "variances_loop x gamma_ik N_k M [] C = Inr C"
| "variances_loop x gamma_ik N_k M (k # ks) C =
     (case item M k of
        Inl err \<Rightarrow> Inl err
      | Inr mu \<Rightarrow>
          (case item N_k k of
             Inl err \<Rightarrow> Inl err
           | Inr n \<Rightarrow>
               (case covariance x gamma_ik k mu n of
                  Inl err \<Rightarrow> Inl err
                | Inr v \<Rightarrow>
                    (case set_block C k v of
                       Inl err \<Rightarrow> Inl err
                     | Inr C' \<Rightarrow> variances_loop x gamma_ik N_k M ks C'))))"

text \<open>
  One pass of the loop, lines 109 to 123, from the values of \<open>means\<close>, \<open>variances\<close> and
  the local \<open>pi_k\<close> to their new values; \<open>p0\<close> is the array that \<open>self.pi_k\<close> refers to.
  Below, \<open>em_iteration\<close> is shown to compute exactly this on the store.
\<close>

definition pass_values ::
  "env \<Rightarrow> GMM \<Rightarrow> mat \<Rightarrow> vec \<Rightarrow> mat \<times> mat list \<times> vec \<Rightarrow> error + (real \<times> mat \<times> mat list \<times> vec)" where
  "pass_values np self x p0 s =
     (case s of (M, C, p) \<Rightarrow>
        and_then (e_step np (n_cluster self) x M C p) (\<lambda>gamma_ik.
        let N_k = sum_axis0 (ncols gamma_ik) gamma_ik
        in and_then (means_loop x gamma_ik N_k [0..<n_cluster self] M) (\<lambda>M'.
           and_then (variances_loop x gamma_ik N_k M' [0..<n_cluster self] C) (\<lambda>C'.
           and_then (divide_all N_k (real (length x))) (\<lambda>p'.
           and_then (compute_log_likelihood np self empty_world x (Some M') (Some C') (Some p0))
             (\<lambda>l_new. Inr (l_new, M', C', p')))))))"

text \<open>The loop of line 106 and the whole of \<open>fit\<close>, on these values.\<close>

fun loop_values ::
  "env \<Rightarrow> GMM \<Rightarrow> mat \<Rightarrow> vec \<Rightarrow> int list \<Rightarrow> real \<Rightarrow> mat \<times> mat list \<times> vec
     \<Rightarrow> error + (int option \<times> mat \<times> mat list \<times> vec)" where
  "loop_values np self x p0 [] l s = Inr (None, s)"
| "loop_values np self x p0 (iter # rest) l s =
     (case pass_values np self x p0 s of
        Inl err \<Rightarrow> Inl err
      | Inr (l_new, s') \<Rightarrow>
          if \<bar>l - l_new\<bar> < e_attr self then Inr (Some iter, s')
          else loop_values np self x p0 rest l_new s')"

definition fit_values :: "env \<Rightarrow> GMM \<Rightarrow> mat \<Rightarrow> error + (int \<times> mat \<times> mat list \<times> vec)" where
  "fit_values np self x =
     and_then
       (if init self = ''k_means'' then init_k_means np self x (seed np 42)
        else if init self = ''random'' then init_random np self x (seed np 42)
        else Inl (Exception ''Invalid initialization provided''))
       (\<lambda>(mu_k, sigma_k, pi_k0, g1).
     and_then (compute_log_likelihood np self empty_world x (Some mu_k) (Some sigma_k)
                 (Some pi_k0)) (\<lambda>l.
     and_then (loop_values np self x pi_k0 (py_range (max_iter self)) l (mu_k, sigma_k, pi_k0))
       (\<lambda>(number_of_updates, s).
          case number_of_updates of
            None \<Rightarrow> Inl UnboundLocalError
          | Some n \<Rightarrow> Inr (n, s))))"

section \<open>An outside world to run the model on\<close>

text \<open>
  The linear algebra of one by one matrices, as it is. In place of the random generator
  and of \<open>KMeans\<close>, functions with fixed results: \<open>rand\<close> fills row \<open>k\<close> of \<open>K\<close> with
  \<open>k / K\<close>, \<open>choice\<close> and \<open>KMeans.fit\<close> go round the components, the centres are the
  first \<open>K\<close> points, \<open>multivariate_normal\<close> returns the mean.
\<close>

definition env_1x1 :: env where
  "env_1x1 =
     \<lparr>matrix_rank = (\<lambda>m. case m of [[a]] \<Rightarrow> (if a = 0 then 0 else 1) | _ \<Rightarrow> 0),
      linalg_inv = (\<lambda>m. case m of [[a]] \<Rightarrow> (if a = 0 then None else Some [[1 / a]]) | _ \<Rightarrow> None),
      linalg_det = (\<lambda>m. case m of [[a]] \<Rightarrow> a | _ \<Rightarrow> 0),
      seed = (\<lambda>s. nat s),
      rand = (\<lambda>g K D. (map (\<lambda>k. replicate D (real k / real K)) [0..<K], Suc g)),
      choice = (\<lambda>g K n p. if K = 0 then Inl ValueError
                           else Inr (map (\<lambda>i. i mod K) [0..<n], Suc g)),
      multivariate_normal = (\<lambda>g m v. Inr (m, Suc g)),
      KMeans_fit = (\<lambda>self x g.
         Inr (take (n_cluster self) x, map (\<lambda>i. i mod n_cluster self) [0..<length x], Suc g))\<rparr>"

text \<open>
  A model with one component and the default tolerance, a dataset of the one point 1,
  and the stores of its first passes: after the initialisation, after the first and
  after the second pass of the loop.
\<close>

definition gmm_default :: GMM where
  "gmm_default = \<lparr>n_cluster = 1, e_attr = 0.0001, max_iter = 100, init = ''random'',
                  means = None, variances = None, pi_k = None\<rparr>"

definition world_0 :: world where
  "world_0 = \<lparr>mats = (\<lambda>a. [])(0 := [[0]]), tens = (\<lambda>a. [])(1 := [[[1]]]),
              vecs = (\<lambda>a. [])(2 := [1]), fresh = 3, gen = 43\<rparr>"

definition world_1 :: world where
  "world_1 = \<lparr>mats = (\<lambda>a. [])(0 := [[1]]), tens = (\<lambda>a. [])(1 := [[[0]]]),
              vecs = (\<lambda>a. [])(2 := [1], 3 := [1]), fresh = 4, gen = 43\<rparr>"

definition world_2 :: world where
  "world_2 = \<lparr>mats = (\<lambda>a. [])(0 := [[1]]), tens = (\<lambda>a. [])(1 := [[[0]]]),
              vecs = (\<lambda>a. [])(2 := [1], 3 := [1], 4 := [1]), fresh = 5, gen = 43\<rparr>"

text \<open>
  A model with two components on the one-point dataset 0: the store after the
  initialisation and after the first pass of the loop, and the responsibilities
  \<open>gamma_0\<close> and \<open>gamma_1\<close> of that pass.
\<close>

definition gmm_two :: GMM where
  "gmm_two = \<lparr>n_cluster = 2, e_attr = 0.0001, max_iter = 100, init = ''random'',
              means = None, variances = None, pi_k = None\<rparr>"

definition gamma_0 :: real where
  "gamma_0 = 1 / (2 * sqrt (2 * pi)) /
               (1 / (2 * sqrt (2 * pi)) + exp (- (1 / 8)) / (2 * sqrt (2 * pi)))"

definition gamma_1 :: real where
  "gamma_1 = exp (- (1 / 8)) / (2 * sqrt (2 * pi)) /
               (1 / (2 * sqrt (2 * pi)) + exp (- (1 / 8)) / (2 * sqrt (2 * pi)))"

definition world_two_0 :: world where
  "world_two_0 = \<lparr>mats = (\<lambda>a. [])(0 := [[0], [1 / 2]]), tens = (\<lambda>a. [])(1 := [[[1]], [[1]]]),
                  vecs = (\<lambda>a. [])(2 := [1 / 2, 1 / 2]), fresh = 3, gen = 43\<rparr>"

definition world_two_1 :: world where
  "world_two_1 = \<lparr>mats = (\<lambda>a. [])(0 := [[0], [0]]), tens = (\<lambda>a. [])(1 := [[[0]], [[0]]]),
                  vecs = (\<lambda>a. [])(2 := [1 / 2, 1 / 2], 3 := [gamma_0, gamma_1]),
                  fresh = 4, gen = 43\<rparr>"

section \<open>Lists, loops and arrays\<close>

lemma for_each_Inr:
  "(\<And>a. a \<in> set xs \<Longrightarrow> f a = Inr (g a)) \<Longrightarrow> for_each f xs = Inr (map g xs)"
  by (induction xs) auto

lemma for_each_length: "for_each f xs = Inr ys \<Longrightarrow> length ys = length xs"
  by (induction xs arbitrary: ys) (auto split: sum.splits)

lemma for_each_nth:
  "for_each f xs = Inr ys \<Longrightarrow> i < length xs \<Longrightarrow> f (xs ! i) = Inr (ys ! i)"
proof (induction xs arbitrary: ys i)
  case Nil
  then show ?case by simp
next
  case (Cons a as)
  then show ?case by (cases i) (auto split: sum.splits)
qed

lemma rectangular_nth: "rectangular n d m \<Longrightarrow> i < n \<Longrightarrow> length (m ! i) = d"
  by (simp add: rectangular_def list_all_length)

lemma rectangular_self: "rectangular D D v \<Longrightarrow> map (\<lambda>i. map (\<lambda>j. v ! i ! j) [0..<D]) [0..<D] = v"
  by (auto simp: rectangular_def list_all_length intro!: nth_equalityI)

lemma add_mat_regularise:
  assumes "rectangular D D v"
  shows "add_mat (scale_right (scale b (eye D)) a) v =
           Inr (map (\<lambda>i. map (\<lambda>j. v ! i ! j + (if i = j then b * a else 0)) [0..<D]) [0..<D])"
proof -
  have len: "length v = D" and row: "\<And>i. i < D \<Longrightarrow> length (v ! i) = D"
    using assms by (simp_all add: rectangular_def list_all_length)
  let ?reg = "scale_right (scale b (eye D)) a"
  have lreg: "length ?reg = D" by (simp add: scale_right_def scale_def eye_def)
  have "for_each (\<lambda>(r, s). elementwise (+) r s) (zip ?reg v) =
          Inr (map (\<lambda>(r, s). map2 (+) r s) (zip ?reg v))"
    by (rule for_each_Inr)
       (auto simp: elementwise_def set_zip scale_right_def scale_def eye_def len row)
  moreover have "map (\<lambda>(r, s). map2 (+) r s) (zip ?reg v) =
          map (\<lambda>i. map (\<lambda>j. v ! i ! j + (if i = j then b * a else 0)) [0..<D]) [0..<D]"
    by (rule nth_equalityI)
       (auto simp: scale_right_def scale_def eye_def len row intro!: nth_equalityI)
  ultimately show ?thesis by (simp add: add_mat_def lreg len)
qed


lemma map2_conv_nth:
  "length a = length b \<Longrightarrow> map2 f a b = map (\<lambda>i. f (a ! i) (b ! i)) [0..<length a]"
  by (rule nth_equalityI) auto

lemma sum_list_upt_swap:
  "(\<Sum>j\<leftarrow>[0..<n]. \<Sum>i\<leftarrow>[0..<m]. f i j) = (\<Sum>i\<leftarrow>[0..<m]. \<Sum>j\<leftarrow>[0..<n]. (f i j :: real))"
  by (simp add: interv_sum_list_conv_sum_set_nat sum.swap [of _ "{0..<m}"])

lemma and_then_Inr [simp]: "and_then (Inr v) f = f v"
  by (simp add: and_then_def)

lemma and_then_Inl [simp]: "and_then (Inl err) f = Inl err"
  by (simp add: and_then_def)

lemma ncols_rectangular: "rectangular n d m \<Longrightarrow> 0 < n \<Longrightarrow> ncols m = d"
  by (cases m) (auto simp: rectangular_def ncols_def)

lemma ncols_square: "rectangular D D A \<Longrightarrow> ncols A = D"
  by (cases A) (auto simp: rectangular_def ncols_def)

lemma quadratic_chain:
  assumes lb: "length b = D" and A: "rectangular D D A"
  shows "and_then (vecmat (map (\<lambda>u. - 0.5 * u) b) A) (\<lambda>t. dot t b) =
           Inr (- 0.5 * quadratic_form b A)"
proof -
  have lA: "length A = D" using A by (simp add: rectangular_def)
  define t where "t = map (\<lambda>j. sum_list (map2 (*) (map (\<lambda>u. - 0.5 * u) b) (column A j))) [0..<D]"
  have lt: "length t = D" by (simp add: t_def)
  have s2: "vecmat (map (\<lambda>u. - 0.5 * u) b) A = Inr t"
    using lb lA ncols_square [OF A] by (simp add: vecmat_def t_def)
  have tj: "t ! j = (\<Sum>i\<leftarrow>[0..<D]. - 0.5 * (b ! i * A ! i ! j))" if j: "j < D" for j
  proof -
    have "map2 (*) (map (\<lambda>u. - 0.5 * u) b) (column A j) =
            map (\<lambda>i. - 0.5 * (b ! i * A ! i ! j)) [0..<D]"
      using lb lA by (intro nth_equalityI) (auto simp: column_def)
    then show ?thesis using j by (simp add: t_def)
  qed
  have "sum_list (map2 (*) t b) = (\<Sum>j\<leftarrow>[0..<D]. t ! j * b ! j)"
    using lb lt by (subst map2_conv_nth) simp_all
  also have "\<dots> = (\<Sum>j\<leftarrow>[0..<D]. \<Sum>i\<leftarrow>[0..<D]. - 0.5 * (b ! i * A ! i ! j * b ! j))"
  proof (rule arg_cong [where f = sum_list], rule map_cong)
    fix j assume "j \<in> set [0..<D]"
    then have j: "j < D" by simp
    have "t ! j * b ! j = (\<Sum>i\<leftarrow>[0..<D]. - 0.5 * (b ! i * A ! i ! j)) * b ! j"
      by (simp only: tj [OF j])
    also have "\<dots> = (\<Sum>i\<leftarrow>[0..<D]. - 0.5 * (b ! i * A ! i ! j) * b ! j)"
      by (simp only: sum_list_mult_const)
    also have "\<dots> = (\<Sum>i\<leftarrow>[0..<D]. - 0.5 * (b ! i * A ! i ! j * b ! j))"
      by (simp only: mult.assoc)
    finally show "t ! j * b ! j = (\<Sum>i\<leftarrow>[0..<D]. - 0.5 * (b ! i * A ! i ! j * b ! j))" .
  qed simp
  also have "\<dots> = (\<Sum>i\<leftarrow>[0..<D]. \<Sum>j\<leftarrow>[0..<D]. - 0.5 * (b ! i * A ! i ! j * b ! j))"
    by (rule sum_list_upt_swap)
  also have "\<dots> = - 0.5 * quadratic_form b A"
    unfolding quadratic_form_def lb by (simp only: sum_list_const_mult)
  finally have q: "sum_list (map2 (*) t b) = - 0.5 * quadratic_form b A" .
  have s3: "dot t b = Inr (- 0.5 * quadratic_form b A)"
    using lb lt q by (simp add: dot_def)
  show ?thesis
    by (simp only: s2 s3 and_then_Inr)
qed

lemma and_then_assoc:
  "and_then (and_then m f) h = and_then m (\<lambda>v. and_then (f v) h)"
  by (cases m) simp_all

lemma getLikelihood_eq:
  assumes c: "0 < c_attr g"
    and x: "length x = D" and m: "length (mean g) = D"
    and A: "rectangular D D (inv_attr g)"
  shows "getLikelihood g x =
           Inr (exp (- 0.5 * quadratic_form (map2 (-) x (mean g)) (inv_attr g)) / sqrt (c_attr g))"
proof -
  define boo where "boo = map2 (-) x (mean g)"
  have lb: "length boo = D" using x m by (simp add: boo_def)
  have s1: "elementwise (-) x (mean g) = Inr boo"
    using x m by (simp add: elementwise_def boo_def)
  have "getLikelihood g x =
          and_then (and_then (vecmat (map (\<lambda>u. - 0.5 * u) boo) (inv_attr g)) (\<lambda>t. dot t boo))
            (\<lambda>q. if c_attr g \<le> 0 then Inl NonFinite else Inr (exp q / sqrt (c_attr g)))"
    unfolding getLikelihood_def by (simp only: s1 and_then_Inr and_then_assoc)
  also have "\<dots> = Inr (exp (- 0.5 * quadratic_form boo (inv_attr g)) / sqrt (c_attr g))"
    using c by (simp only: quadratic_chain [OF lb A] and_then_Inr) simp
  finally show ?thesis by (simp only: boo_def)
qed


lemma Gaussian_pdf_eq:
  assumes sq: "rectangular D D variance0"
  shows "Gaussian_pdf np mean0 variance0 =
     (let v = regularised np D variance0
      in case linalg_inv np v of
           None \<Rightarrow> Inl LinAlgError
         | Some iv \<Rightarrow> Inr \<lparr>mean = mean0, variance = v, inv_attr = iv,
                           c_attr = (2 * pi) ^ D * linalg_det np v\<rparr>)"
proof -
  have len: "length variance0 = D" using sq by (simp add: rectangular_def)
  have reg: "add_mat (scale_right (scale b (eye D)) 0.001) variance0 =
               Inr (if b = 1 then plus_identity 0.001 D variance0 else variance0)"
    if "b = 0 \<or> b = 1" for b :: real
  proof -
    have "map (\<lambda>i. map (\<lambda>j. variance0 ! i ! j + (if i = j then 0 * (1 / 1000) else 0)) [0..<D])
            [0..<D] = map (\<lambda>i. map (\<lambda>j. variance0 ! i ! j) [0..<D]) [0..<D]"
      by simp
    then show ?thesis
      using that rectangular_self [OF sq]
      by (auto simp: add_mat_regularise [OF sq] plus_identity_def)
  qed
  have reg1: "add_mat (scale_right (scale 1 (eye D)) 0.001) variance0 =
               Inr (plus_identity 0.001 D variance0)"
    using reg [of 1] by simp
  have reg0: "add_mat (scale_right (scale 0 (eye D)) 0.001) variance0 = Inr variance0"
    using reg [of 0] by simp
  show ?thesis
  proof (cases "matrix_rank np variance0 < D")
    case True
    then show ?thesis
      unfolding Gaussian_pdf_def Let_def len regularised_def
      by (simp only: if_True reg1 and_then_Inr)
  next
    case False
    then show ?thesis
      unfolding Gaussian_pdf_def Let_def len regularised_def
      by (simp only: if_False reg0 and_then_Inr)
  qed
qed

section \<open>The loop of \<open>fit\<close>\<close>

lemma em_state_front:
  "em_state np self x am av (Suc i) (l, pk, w) =
     (case em_iteration np self x am av pk w of
        Inl err \<Rightarrow> Inl err
      | Inr s1 \<Rightarrow> em_state np self x am av i s1)"
proof (induction i)
  case 0
  then show ?case by (simp split: sum.splits)
next
  case (Suc i)
  have "em_state np self x am av (Suc (Suc i)) (l, pk, w) =
          (case em_state np self x am av (Suc i) (l, pk, w) of
             Inl err \<Rightarrow> Inl err
           | Inr (l', pk', w') \<Rightarrow> em_iteration np self x am av pk' w')"
    by simp
  also have "\<dots> = (case em_iteration np self x am av pk w of
        Inl err \<Rightarrow> Inl err
      | Inr s1 \<Rightarrow> em_state np self x am av (Suc i) s1)"
    unfolding Suc.IH by (simp split: sum.splits)
  finally show ?case .
qed

lemma converged_at_0:
  "em_iteration np self x am av pk w = Inr (l_new, pk', w') \<Longrightarrow>
     converged_at np self x am av (l, pk, w) 0 = (\<bar>l - l_new\<bar> < e_attr self)"
  by (simp add: converged_at_def)

lemma converged_at_Suc:
  "em_iteration np self x am av pk w = Inr s1 \<Longrightarrow>
     converged_at np self x am av (l, pk, w) (Suc i) = converged_at np self x am av s1 i"
  unfolding converged_at_def by (simp only: em_state_front) (simp split: sum.splits)

lemma converged_at_fails:
  "em_iteration np self x am av pk w = Inl err \<Longrightarrow>
     \<not> converged_at np self x am av (l, pk, w) i"
  unfolding converged_at_def by (cases i) (simp_all only: em_state_front, simp_all)

lemma em_loop_result:
  "em_loop np self x am av its pk l w = Inr (r, pk', w') \<Longrightarrow>
     (case r of
        None \<Rightarrow>
          (\<forall>j<length its. \<not> converged_at np self x am av (l, pk, w) j) \<and>
          (\<exists>l'. em_state np self x am av (length its) (l, pk, w) = Inr (l', pk', w'))
      | Some n \<Rightarrow>
          (\<exists>i<length its. n = its ! i \<and> converged_at np self x am av (l, pk, w) i \<and>
             (\<forall>j<i. \<not> converged_at np self x am av (l, pk, w) j) \<and>
             (\<exists>l'. em_state np self x am av (Suc i) (l, pk, w) = Inr (l', pk', w'))))"
proof (induction its arbitrary: pk l w)
  case Nil
  then show ?case by simp
next
  case (Cons iter rest)
  from Cons.prems obtain l1 pk1 w1
    where it: "em_iteration np self x am av pk w = Inr (l1, pk1, w1)"
    by (auto split: sum.splits)
  show ?case
  proof (cases "\<bar>l - l1\<bar> < e_attr self")
    case True
    with Cons.prems it have r: "r = Some iter" "pk' = pk1" "w' = w1" by simp_all
    have c0: "converged_at np self x am av (l, pk, w) 0"
      using True by (simp add: converged_at_0 [OF it])
    have "em_state np self x am av (Suc 0) (l, pk, w) = Inr (l1, pk', w')"
      using it r by simp
    then have "\<exists>l'. em_state np self x am av (Suc 0) (l, pk, w) = Inr (l', pk', w')" ..
    with c0 have "\<exists>i<length (iter # rest). iter = (iter # rest) ! i \<and>
        converged_at np self x am av (l, pk, w) i \<and>
        (\<forall>j<i. \<not> converged_at np self x am av (l, pk, w) j) \<and>
        (\<exists>l'. em_state np self x am av (Suc i) (l, pk, w) = Inr (l', pk', w'))"
      by (intro exI [of _ 0]) simp
    with r show ?thesis by simp
  next
    case False
    with Cons.prems it
    have rec: "em_loop np self x am av rest pk1 l1 w1 = Inr (r, pk', w')" by simp
    have c0: "\<not> converged_at np self x am av (l, pk, w) 0"
      using False by (simp add: converged_at_0 [OF it])
    note IH = Cons.IH [OF rec]
    show ?thesis
    proof (cases r)
      case None
      with IH have a: "\<forall>j<length rest. \<not> converged_at np self x am av (l1, pk1, w1) j"
        and b: "\<exists>l'. em_state np self x am av (length rest) (l1, pk1, w1) = Inr (l', pk', w')"
        by simp_all
      have "\<not> converged_at np self x am av (l, pk, w) j" if "j < length (iter # rest)" for j
        using that a c0 by (cases j) (simp_all add: converged_at_Suc [OF it])
      moreover have "\<exists>l'. em_state np self x am av (Suc (length rest)) (l, pk, w) =
                       Inr (l', pk', w')"
        using b by (simp only: em_state_front it) simp
      ultimately show ?thesis using None by (simp del: em_state.simps)
    next
      case (Some n)
      with IH obtain i l' where i: "i < length rest" "n = rest ! i"
        and ci: "converged_at np self x am av (l1, pk1, w1) i"
        and nj: "\<forall>j<i. \<not> converged_at np self x am av (l1, pk1, w1) j"
        and st: "em_state np self x am av (Suc i) (l1, pk1, w1) = Inr (l', pk', w')"
        by auto
      have 1: "Suc i < length (iter # rest)" "n = (iter # rest) ! Suc i" using i by simp_all
      have 2: "converged_at np self x am av (l, pk, w) (Suc i)"
        using ci by (simp add: converged_at_Suc [OF it])
      have 3: "\<not> converged_at np self x am av (l, pk, w) j" if "j < Suc i" for j
        using that nj c0 by (cases j) (simp_all add: converged_at_Suc [OF it])
      have "em_state np self x am av (Suc (Suc i)) (l, pk, w) = Inr (l', pk', w')"
        using st by (simp only: em_state_front [of _ _ _ _ _ "Suc i"] it) simp
      then have 4: "\<exists>l'. em_state np self x am av (Suc (Suc i)) (l, pk, w) = Inr (l', pk', w')" ..
      have "\<exists>k<length (iter # rest). n = (iter # rest) ! k \<and>
        converged_at np self x am av (l, pk, w) k \<and>
        (\<forall>j<k. \<not> converged_at np self x am av (l, pk, w) j) \<and>
        (\<exists>l'. em_state np self x am av (Suc k) (l, pk, w) = Inr (l', pk', w'))"
        using 1 2 3 4 by (intro exI [of _ "Suc i"]) blast
      then show ?thesis using Some by simp
    qed
  qed
qed

lemma em_loop_exhausted:
  "(\<forall>j<length its. \<not> converged_at np self x am av (l, pk, w) j) \<Longrightarrow>
   em_state np self x am av (length its) (l, pk, w) = Inr (l', pk', w') \<Longrightarrow>
   em_loop np self x am av its pk l w = Inr (None, pk', w')"
proof (induction its arbitrary: pk l w)
  case Nil
  then show ?case by simp
next
  case (Cons iter rest)
  from Cons.prems(2)
  have "em_state np self x am av (Suc (length rest)) (l, pk, w) = Inr (l', pk', w')"
    by simp
  then obtain s1
    where it: "em_iteration np self x am av pk w = Inr s1"
      and st: "em_state np self x am av (length rest) s1 = Inr (l', pk', w')"
    unfolding em_state_front by (auto split: sum.splits)
  obtain l1 pk1 w1 where s1: "s1 = (l1, pk1, w1)" by (cases s1) auto
  have c0: "\<not> \<bar>l - l1\<bar> < e_attr self"
    using Cons.prems(1) converged_at_0 [OF it [unfolded s1], of l] by auto
  have "\<forall>j<length rest. \<not> converged_at np self x am av (l1, pk1, w1) j"
    using Cons.prems(1) converged_at_Suc [OF it, of l] s1 by auto
  from Cons.IH [OF this st [unfolded s1]] it c0 show ?case by (simp add: s1)
qed

lemma em_loop_converged:
  "i < length its \<Longrightarrow> converged_at np self x am av (l, pk, w) i \<Longrightarrow>
   (\<forall>j<i. \<not> converged_at np self x am av (l, pk, w) j) \<Longrightarrow>
   \<exists>l' pk' w'. em_state np self x am av (Suc i) (l, pk, w) = Inr (l', pk', w') \<and>
     em_loop np self x am av its pk l w = Inr (Some (its ! i), pk', w')"
proof (induction its arbitrary: pk l w i)
  case Nil
  then show ?case by simp
next
  case (Cons iter rest)
  from Cons.prems(2) obtain s1 where it: "em_iteration np self x am av pk w = Inr s1"
    using converged_at_fails [of np self x am av pk w _ l i]
    by (cases "em_iteration np self x am av pk w") auto
  obtain l1 pk1 w1 where s1: "s1 = (l1, pk1, w1)" by (cases s1) auto
  show ?case
  proof (cases i)
    case 0
    with Cons.prems(2) have "\<bar>l - l1\<bar> < e_attr self"
      using converged_at_0 [OF it [unfolded s1], of l] by simp
    then show ?thesis using 0 it s1 by simp
  next
    case (Suc i')
    have c0: "\<not> \<bar>l - l1\<bar> < e_attr self"
      using Cons.prems(3) Suc converged_at_0 [OF it [unfolded s1], of l] by auto
    have a: "i' < length rest" using Cons.prems(1) Suc by simp
    have b: "converged_at np self x am av (l1, pk1, w1) i'"
      using Cons.prems(2) Suc converged_at_Suc [OF it, of l] s1 by simp
    have c: "\<forall>j<i'. \<not> converged_at np self x am av (l1, pk1, w1) j"
      using Cons.prems(3) Suc converged_at_Suc [OF it, of l] s1 by auto
    from Cons.IH [OF a b c] obtain l' pk' w'
      where st: "em_state np self x am av (Suc i') (l1, pk1, w1) = Inr (l', pk', w')"
        and lp: "em_loop np self x am av rest pk1 l1 w1 = Inr (Some (rest ! i'), pk', w')"
      by blast
    have "em_state np self x am av (Suc i) (l, pk, w) = Inr (l', pk', w')"
      using st unfolding Suc by (simp only: em_state_front [of _ _ _ _ _ "Suc i'"] it s1) simp
    moreover have "em_loop np self x am av (iter # rest) pk l w =
                     Inr (Some ((iter # rest) ! i), pk', w')"
      using lp c0 it s1 Suc by simp
    ultimately show ?thesis by blast
  qed
qed


lemma length_py_range [simp]: "length (py_range n) = nat n"
  by (simp add: py_range_def)

lemma nth_py_range [simp]: "i < nat n \<Longrightarrow> py_range n ! i = int i"
  by (simp add: py_range_def)

lemma fit_init_self:
  "fit_init np self x w0 = Inr (self1, am, av, ap, l, w) \<Longrightarrow>
     self1 = self\<lparr>means := Some am, variances := Some av, pi_k := Some ap\<rparr>"
  unfolding fit_init_def
  by (auto simp: Let_def and_then_def split: sum.splits if_splits prod.splits)

section \<open>Runs on the one-point dataset\<close>

lemmas evals = init_random_def env_1x1_def empty_world_def 
  new_mat_def new_ten_def new_vec_def compute_log_likelihood_def instances_def
  subscript_def item_def Gaussian_pdf_def getLikelihood_def elementwise_def each_row_def
  ncols_def column_def T_def sum_axis0_def sum_axis1_def eye_def outer_def scale_def
  scale_right_def add_mat_def divide_all_def divide_mat_def sum_mats_def set_row_def
  set_block_def py_range_def dot_def vecmat_def e_step_def weighted_densities_def m_step_def
  new_mean_def
  em_iteration_def covariance_def Let_def

lemma pi_not_le0 [simp]: "\<not> pi \<le> 0"
  using pi_gt_zero by (simp add: not_le)

lemma init_one:
  "fit_init env_1x1 (gmm_default\<lparr>max_iter := m\<rparr>) [[1]] empty_world =
     Inr (gmm_default\<lparr>max_iter := m, means := Some 0, variances := Some 1, pi_k := Some 2\<rparr>,
          0, 1, 2, ln (exp (- (1 / 2)) / sqrt (2 * pi)), world_0)"
  by (simp add: evals fit_init_def gmm_default_def world_0_def numeral_3_eq_3 numeral_2_eq_2)

lemma pass_one:
  "em_iteration env_1x1 (gmm_default\<lparr>max_iter := m, means := Some 0, variances := Some 1, pi_k := Some 2\<rparr>)
     [[1]] 0 1 2 world_0 = Inr (ln (1 / sqrt (pi / 500)), 3, world_1)"
  by (simp add: evals gmm_default_def world_0_def world_1_def numeral_3_eq_3 numeral_2_eq_2 eval_nat_numeral)

lemma pass_two:
  "em_iteration env_1x1 (gmm_default\<lparr>max_iter := m, means := Some 0, variances := Some 1, pi_k := Some 2\<rparr>)
     [[1]] 0 1 3 world_1 = Inr (ln (1 / sqrt (pi / 500)), 4, world_2)"
  by (simp add: evals gmm_default_def world_2_def world_1_def numeral_3_eq_3 numeral_2_eq_2 eval_nat_numeral)

lemma first_change: "\<not> \<bar>ln (exp (- (1 / 2)) / sqrt (2 * pi)) - ln (1 / sqrt (pi / 500))\<bar> < 1 / 10000"
proof -
  have a: "ln (exp (- (1 / 2)) / sqrt (2 * pi)) = - (1 / 2) - ln (sqrt (2 * pi))"
    by (simp add: ln_div)
  have b: "ln (1 / sqrt (pi / 500)) = - ln (sqrt (pi / 500))"
    by (simp add: ln_div)
  have "sqrt (pi / 500) \<le> sqrt (2 * pi)"
    using pi_gt_zero by (intro real_sqrt_le_mono) simp
  then have "ln (sqrt (pi / 500)) \<le> ln (sqrt (2 * pi))"
    using pi_gt_zero by (subst ln_le_cancel_iff) simp_all
  then show ?thesis unfolding a b by linarith
qed

section \<open>The E step\<close>

lemma rectangularI:
  "length m = n \<Longrightarrow> (\<And>i. i < n \<Longrightarrow> length (m ! i) = d) \<Longrightarrow> rectangular n d m"
  by (simp add: rectangular_def list_all_length)

lemma rectangular_length: "rectangular n d m \<Longrightarrow> length m = n"
  by (simp add: rectangular_def)

lemma ncols_rect: "rectangular n d m \<Longrightarrow> 0 < n \<Longrightarrow> ncols m = d"
  by (cases m) (auto simp: rectangular_def ncols_def)

lemma each_row_rect:
  assumes "rectangular n d m" and "length v = d"
  shows "each_row f m v = Inr (map (\<lambda>row. map2 f row v) m)"
  unfolding each_row_def
  using assms
  by (intro for_each_Inr) (auto simp: elementwise_def rectangular_def list_all_iff)

lemma column_rect:
  "rectangular n d m \<Longrightarrow> column m j = map (\<lambda>i. m ! i ! j) [0..<n]"
  unfolding column_def by (rule nth_equalityI) (auto simp: rectangular_def)

lemma T_rect:
  assumes "rectangular n d m" and "0 < n"
  shows "T m = map (\<lambda>j. map (\<lambda>i. m ! i ! j) [0..<n]) [0..<d]"
  unfolding T_def using assms by (simp add: ncols_rect column_rect)

lemma rectangular_T:
  "rectangular n d m \<Longrightarrow> 0 < n \<Longrightarrow> rectangular d n (T m)"
  by (simp add: T_rect rectangularI)

lemma sum_list_divide:
  "sum_list (map (\<lambda>u. u / c) xs) = sum_list xs / (c :: real)"
  by (induction xs) (simp_all add: add_divide_distrib)

lemma normalise_rows:
  assumes W: "rectangular n d W" and n: "0 < n" and d: "0 < d"
    and nz: "list_all (\<lambda>row. sum_list row \<noteq> 0) W"
  shows "(let s = sum_axis1 W; Wt = T W
          in if Wt \<noteq> [] \<and> list_ex (\<lambda>u. u = 0) s then Inl NonFinite
             else and_then (each_row (/) Wt s) (\<lambda>Q. Inr (T Q))) =
         Inr (map (\<lambda>row. map (\<lambda>u. u / sum_list row) row) W)"
proof -
  have lW: "length W = n" and rW: "\<And>i. i < n \<Longrightarrow> length (W ! i) = d"
    using W by (simp_all add: rectangular_def list_all_length)
  define s where "s = sum_axis1 W"
  have ls: "length s = n" by (simp add: s_def sum_axis1_def lW)
  have si: "s ! i = sum_list (W ! i)" if "i < n" for i
    using that by (simp add: s_def sum_axis1_def lW)
  have guard: "\<not> list_ex (\<lambda>u. u = 0) s"
    using nz by (auto simp: s_def sum_axis1_def list_ex_iff list_all_iff)
  define Q where "Q = map (\<lambda>row. map2 (/) row s) (T W)"
  have q: "each_row (/) (T W) s = Inr Q"
    unfolding Q_def by (rule each_row_rect [OF rectangular_T [OF W n] ls])
  have Qeq: "Q = map (\<lambda>j. map (\<lambda>i. W ! i ! j / s ! i) [0..<n]) [0..<d]"
    unfolding Q_def T_rect [OF W n]
    by (auto simp: ls intro!: nth_equalityI)
  have rQ: "rectangular d n Q" unfolding Qeq by (rule rectangularI) simp_all
  have "T Q = map (\<lambda>i. map (\<lambda>j. Q ! j ! i) [0..<d]) [0..<n]"
    by (rule T_rect [OF rQ d])
  also have "\<dots> = map (\<lambda>row. map (\<lambda>u. u / sum_list row) row) W"
    unfolding Qeq by (rule nth_equalityI) (auto simp: lW rW si intro!: nth_equalityI)
  finally have t: "T Q = map (\<lambda>row. map (\<lambda>u. u / sum_list row) row) W" .
  show ?thesis
    unfolding Let_def s_def [symmetric] using guard by (simp add: q t)
qed

lemma for_each_rect:
  assumes "for_each (\<lambda>a. for_each (f a) ks) xs = Inr m"
  shows "rectangular (length xs) (length ks) m"
proof (rule rectangularI)
  show "length m = length xs" using assms by (rule for_each_length)
next
  fix i assume "i < length xs"
  from for_each_nth [OF assms this] show "length (m ! i) = length ks"
    by (rule for_each_length)
qed

lemma and_then_eq_Inr:
  "and_then m f = Inr r \<longleftrightarrow> (\<exists>v. m = Inr v \<and> f v = Inr r)"
  by (cases m) simp_all

lemma each_row_shape:
  assumes "each_row f m v = Inr m'"
  shows "length m' = length m"
    and "i < length m \<Longrightarrow> length (m ! i) = length v \<and> m' ! i = map2 f (m ! i) v"
proof -
  show "length m' = length m" using assms unfolding each_row_def by (rule for_each_length)
  assume "i < length m"
  from for_each_nth [OF assms [unfolded each_row_def] this]
  show "length (m ! i) = length v \<and> m' ! i = map2 f (m ! i) v"
    by (auto simp: elementwise_def split: if_splits)
qed

lemma weighted_densities_shape:
  assumes "weighted_densities np K x means1 variances1 pi_k1 = Inr W"
  shows "rectangular (length x) K W \<and> x \<noteq> []"
proof -
  from assms obtain inst Normal where
    N: "for_each (\<lambda>xi. for_each (\<lambda>k. getLikelihood (inst ! k) xi) [0..<K]) x = Inr Normal"
    and x: "x \<noteq> []" and W: "each_row (*) Normal pi_k1 = Inr W"
    unfolding weighted_densities_def by (auto simp: and_then_eq_Inr split: if_splits)
  have rN: "rectangular (length x) K Normal"
    using for_each_rect [OF N] by simp
  have "rectangular (length x) K W"
  proof (rule rectangularI)
    show "length W = length x" using each_row_shape(1) [OF W] rN by (simp add: rectangular_def)
  next
    fix i assume i: "i < length x"
    then have iN: "i < length Normal" using rN by (simp add: rectangular_def)
    from each_row_shape(2) [OF W iN] rectangular_nth [OF rN i]
    show "length (W ! i) = K" by simp
  qed
  with x show ?thesis by simp
qed

section \<open>The M step\<close>

lemma sum_list_nth: "sum_list xs = (\<Sum>i\<leftarrow>[0..<length xs]. xs ! i)"
  by (simp add: map_nth)

lemma sum_column: "sum_list (column m k) = mass m k"
  unfolding column_def mass_def
  by (rule arg_cong [where f = sum_list]) (auto intro!: nth_equalityI)

lemma sum_axis0_mass: "sum_axis0 K m = map (mass m) [0..<K]"
  by (simp add: sum_axis0_def sum_column)

lemma new_mean_eq:
  assumes x: "rectangular n D x" and g: "rectangular n K gamma" and n: "0 < n" and k: "k < K"
    and v: "new_mean x gamma (sum_axis0 K gamma) k = Inr v"
  shows "v = weighted_mean x gamma k \<and> (D = 0 \<or> mass gamma k \<noteq> 0)"
proof -
  have lx: "length x = n" using x by (simp add: rectangular_def)
  have lg: "length gamma = n" using g by (simp add: rectangular_def)
  have nk: "item (sum_axis0 K gamma) k = Inr (mass gamma k)"
    using k by (simp add: item_def sum_axis0_mass)
  have col: "length (column gamma k) = n" by (simp add: column_def lg)
  define P where "P = map (\<lambda>row. map2 (*) row (column gamma k)) (T x)"
  have P: "each_row (*) (T x) (column gamma k) = Inr P"
    unfolding P_def by (rule each_row_rect [OF rectangular_T [OF x n] col])
  have s: "sum_axis1 P = map (\<lambda>d. \<Sum>i\<leftarrow>[0..<n]. gamma ! i ! k * x ! i ! d) [0..<D]"
  proof -
    have "map2 (*) (map (\<lambda>i. x ! i ! d) [0..<n]) (column gamma k) =
            map (\<lambda>i. gamma ! i ! k * x ! i ! d) [0..<n]" for d
      by (rule nth_equalityI) (auto simp: column_def lg)
    then show ?thesis
      unfolding sum_axis1_def P_def T_rect [OF x n] by simp
  qed
  from v have dv: "divide_all (sum_axis1 P) (mass gamma k) = Inr v"
    using k ncols_rect [OF g n] by (simp add: new_mean_def P nk)
  have nc: "ncols x = D" using ncols_rect [OF x n] .
  from dv have "v = map (\<lambda>u. u / mass gamma k) (sum_axis1 P)"
    by (auto simp: divide_all_def split: if_splits)
  then have "v = weighted_mean x gamma k"
    unfolding s weighted_mean_def nc lx by (simp add: comp_def)
  moreover from dv have "D = 0 \<or> mass gamma k \<noteq> 0"
    unfolding s by (auto simp: divide_all_def split: if_splits)
  ultimately show ?thesis by simp
qed

lemma update_means_result:
  "update_means x gamma N_k am ks w = Inr w' \<Longrightarrow> distinct ks \<Longrightarrow>
     tens w' = tens w \<and> vecs w' = vecs w \<and> fresh w' = fresh w \<and> gen w' = gen w \<and>
     (\<forall>a. a \<noteq> am \<longrightarrow> mats w' a = mats w a) \<and>
     length (mats w' am) = length (mats w am) \<and>
     (\<forall>k. k \<in> set ks \<longrightarrow>
        k < length (mats w am) \<and> new_mean x gamma N_k k = Inr (mats w' am ! k)) \<and>
     (\<forall>k. k \<notin> set ks \<longrightarrow> mats w' am ! k = mats w am ! k)"
proof (induction ks arbitrary: w)
  case Nil
  then show ?case by simp
next
  case (Cons k ks)
  from Cons.prems(1) obtain v m where
    v: "new_mean x gamma N_k k = Inr v" and m: "set_row (mats w am) k v = Inr m"
    and rec: "update_means x gamma N_k am ks (w\<lparr>mats := (mats w)(am := m)\<rparr>) = Inr w'"
    by (auto split: sum.splits)
  from m have kl: "k < length (mats w am)" and meq: "m = (mats w am)[k := v]"
    by (auto simp: set_row_def split: if_splits)
  from Cons.prems(2) have d: "distinct ks" and kn: "k \<notin> set ks" by simp_all
  note IH = Cons.IH [OF rec d, simplified]
  have fr: "tens w' = tens w \<and> vecs w' = vecs w \<and> fresh w' = fresh w \<and> gen w' = gen w \<and>
     (\<forall>a. a \<noteq> am \<longrightarrow> mats w' a = mats w a)"
    using IH by simp
  have 2: "length (mats w' am) = length (mats w am)" using IH meq by simp
  have 3: "k' < length (mats w am) \<and> new_mean x gamma N_k k' = Inr (mats w' am ! k')"
    if "k' \<in> set (k # ks)" for k'
  proof (cases "k' = k")
    case True
    then show ?thesis using IH kn v kl meq by simp
  next
    case False
    with that have "k' \<in> set ks" by simp
    then show ?thesis using IH meq by simp
  qed
  have 4: "mats w' am ! k' = mats w am ! k'" if "k' \<notin> set (k # ks)" for k'
    using that IH meq by simp
  from fr 2 3 4 show ?case by blast
qed

lemma update_variances_result:
  "update_variances x gamma N_k am av ks w = Inr w' \<Longrightarrow> distinct ks \<Longrightarrow>
     mats w' = mats w \<and> vecs w' = vecs w \<and> fresh w' = fresh w \<and> gen w' = gen w \<and>
     (\<forall>a. a \<noteq> av \<longrightarrow> tens w' a = tens w a) \<and>
     length (tens w' av) = length (tens w av) \<and>
     (\<forall>k. k \<in> set ks \<longrightarrow>
        k < length (tens w av) \<and> k < length (mats w am) \<and> k < length N_k \<and>
        covariance x gamma k (mats w am ! k) (N_k ! k) = Inr (tens w' av ! k)) \<and>
     (\<forall>k. k \<notin> set ks \<longrightarrow> tens w' av ! k = tens w av ! k)"
proof (induction ks arbitrary: w)
  case Nil
  then show ?case by simp
next
  case (Cons k ks)
  from Cons.prems(1) obtain mu n v t where
    mu: "item (mats w am) k = Inr mu" and n: "item N_k k = Inr n"
    and v: "covariance x gamma k mu n = Inr v" and t: "set_block (tens w av) k v = Inr t"
    and rec: "update_variances x gamma N_k am av ks (w\<lparr>tens := (tens w)(av := t)\<rparr>) = Inr w'"
    by (auto split: sum.splits)
  from mu have km: "k < length (mats w am)" and mueq: "mu = mats w am ! k"
    by (auto simp: item_def split: if_splits)
  from n have kn': "k < length N_k" and neq: "n = N_k ! k"
    by (auto simp: item_def split: if_splits)
  from t have kl: "k < length (tens w av)" and teq: "t = (tens w av)[k := v]"
    by (auto simp: set_block_def split: if_splits)
  from Cons.prems(2) have d: "distinct ks" and kn: "k \<notin> set ks" by simp_all
  note IH = Cons.IH [OF rec d, simplified]
  have fr: "mats w' = mats w \<and> vecs w' = vecs w \<and> fresh w' = fresh w \<and> gen w' = gen w \<and>
     (\<forall>a. a \<noteq> av \<longrightarrow> tens w' a = tens w a)"
    using IH by simp
  have 2: "length (tens w' av) = length (tens w av)" using IH teq by simp
  have 3: "k' < length (tens w av) \<and> k' < length (mats w am) \<and> k' < length N_k \<and>
        covariance x gamma k' (mats w am ! k') (N_k ! k') = Inr (tens w' av ! k')"
    if "k' \<in> set (k # ks)" for k'
  proof (cases "k' = k")
    case True
    then show ?thesis using IH kn v kl teq km kn' mueq neq by simp
  next
    case False
    with that have "k' \<in> set ks" by simp
    then show ?thesis using IH teq by simp
  qed
  have 4: "tens w' av ! k' = tens w av ! k'" if "k' \<notin> set (k # ks)" for k'
    using that IH teq by simp
  from fr 2 3 4 show ?case by blast
qed


lemma ncols_outer_scale: "length u = D \<Longrightarrow> ncols (scale a (outer u u)) = D"
  by (cases u) (simp_all add: ncols_def scale_def outer_def)

lemma covariance_eq:
  assumes x: "rectangular n D x" and g: "rectangular n K gamma" and n: "0 < n" and k: "k < K"
    and c: "covariance x gamma k mu m = Inr C"
  shows "length mu = D \<and>
         C = map (\<lambda>a. map (\<lambda>b.
               (\<Sum>i\<leftarrow>[0..<n]. gamma ! i ! k * ((x ! i ! a - mu ! a) * (x ! i ! b - mu ! b))) / m)
                 [0..<D]) [0..<D] \<and>
         (D = 0 \<or> m \<noteq> 0)"
proof -
  have lx: "length x = n" and rx: "\<And>i. i < n \<Longrightarrow> length (x ! i) = D"
    using x by (simp_all add: rectangular_def list_all_length)
  have lg: "length gamma = n" and rg: "\<And>i. i < n \<Longrightarrow> length (gamma ! i) = K"
    using g by (simp_all add: rectangular_def list_all_length)
  from c obtain boo terms where
    boo: "each_row (-) x mu = Inr boo"
    and terms: "for_each (\<lambda>i. and_then (item gamma i) (\<lambda>row. and_then (item row k)
                  (\<lambda>g. Inr (scale g (outer (boo ! i) (boo ! i)))))) [0..<length x] = Inr terms"
    and dv: "divide_mat (sum_mats terms) m = Inr C"
    unfolding covariance_def by (auto simp: and_then_eq_Inr)
  have lmu: "length mu = D"
    using each_row_shape(2) [OF boo, of 0] n lx rx [of 0] by simp
  have booi: "boo ! i = map2 (-) (x ! i) mu" if "i < n" for i
    using each_row_shape(2) [OF boo, of i] that lx by simp
  have lbooi: "length (boo ! i) = D" if "i < n" for i
    using booi [OF that] rx [OF that] lmu by simp
  have "for_each (\<lambda>i. and_then (item gamma i) (\<lambda>row. and_then (item row k)
                  (\<lambda>g. Inr (scale g (outer (boo ! i) (boo ! i)))))) [0..<length x] =
        Inr (map (\<lambda>i. scale (gamma ! i ! k) (outer (boo ! i) (boo ! i))) [0..<length x])"
    by (rule for_each_Inr) (simp add: item_def lx lg rg k)
  with terms have teq: "terms = map (\<lambda>i. scale (gamma ! i ! k) (outer (boo ! i) (boo ! i))) [0..<n]"
    by (simp add: lx)
  have lt: "length terms = n" by (simp add: teq)
  have ti: "terms ! i = scale (gamma ! i ! k) (outer (boo ! i) (boo ! i))" if "i < n" for i
    using that by (simp add: teq)
  obtain t0 ts where cons: "terms = t0 # ts" using lt n by (cases terms) auto
  have t0: "t0 = scale (gamma ! 0 ! k) (outer (boo ! 0) (boo ! 0))"
    using ti [OF n] cons by simp
  have l0: "length t0 = D" unfolding t0 using lbooi [OF n] by (simp add: scale_def outer_def)
  have c0: "ncols t0 = D" unfolding t0 by (rule ncols_outer_scale [OF lbooi [OF n]])
  have entry: "(\<Sum>t\<leftarrow>terms. t ! a ! b) =
                 (\<Sum>i\<leftarrow>[0..<n]. gamma ! i ! k * ((x ! i ! a - mu ! a) * (x ! i ! b - mu ! b)))"
    if a: "a < D" and b: "b < D" for a b
  proof -
    have "map (\<lambda>t. t ! a ! b) terms =
            map (\<lambda>i. gamma ! i ! k * ((x ! i ! a - mu ! a) * (x ! i ! b - mu ! b))) [0..<n]"
    proof (rule nth_equalityI)
      show "length (map (\<lambda>t. t ! a ! b) terms) =
              length (map (\<lambda>i. gamma ! i ! k * ((x ! i ! a - mu ! a) * (x ! i ! b - mu ! b)))
                        [0..<n])"
        by (simp add: lt)
    next
      fix i assume "i < length (map (\<lambda>t. t ! a ! b) terms)"
      then have i: "i < n" by (simp add: lt)
      have "terms ! i ! a ! b = gamma ! i ! k * (boo ! i ! a * boo ! i ! b)"
        using a b lbooi [OF i] by (simp add: ti [OF i] scale_def outer_def)
      also have "boo ! i ! a = x ! i ! a - mu ! a"
        using a rx [OF i] lmu by (simp add: booi [OF i])
      also have "boo ! i ! b = x ! i ! b - mu ! b"
        using b rx [OF i] lmu by (simp add: booi [OF i])
      finally show "map (\<lambda>t. t ! a ! b) terms ! i =
          map (\<lambda>i. gamma ! i ! k * ((x ! i ! a - mu ! a) * (x ! i ! b - mu ! b))) [0..<n] ! i"
        using i by (simp add: lt)
    qed
    then show ?thesis by simp
  qed
  have sm: "sum_mats terms =
              map (\<lambda>a. map (\<lambda>b.
                (\<Sum>i\<leftarrow>[0..<n]. gamma ! i ! k * ((x ! i ! a - mu ! a) * (x ! i ! b - mu ! b))))
                  [0..<D]) [0..<D]"
  proof -
    have "sum_mats terms = map (\<lambda>a. map (\<lambda>b. (\<Sum>t\<leftarrow>terms. t ! a ! b)) [0..<D]) [0..<D]"
      unfolding sum_mats_def using cons l0 c0 by simp
    also have "\<dots> = map (\<lambda>a. map (\<lambda>b.
                (\<Sum>i\<leftarrow>[0..<n]. gamma ! i ! k * ((x ! i ! a - mu ! a) * (x ! i ! b - mu ! b))))
                  [0..<D]) [0..<D]"
      by (auto simp: entry)
    finally show ?thesis .
  qed
  have ne: "concat (sum_mats terms) \<noteq> [] \<longleftrightarrow> D \<noteq> 0"
    unfolding sm by (cases D) (simp_all add: upt_rec)
  from dv have "C = map (map (\<lambda>u. u / m)) (sum_mats terms)" and "D = 0 \<or> m \<noteq> 0"
    using ne by (auto simp: divide_mat_def split: if_splits)
  then show ?thesis using lmu unfolding sm by (simp add: comp_def)
qed


lemma m_step_result:
  assumes m: "m_step x gamma K am av w = Inr (ap', w')"
    and x: "rectangular (length x) D x" and g: "rectangular (length x) K gamma"
    and n: "x \<noteq> []"
  shows "\<exists>w1. update_means x gamma (sum_axis0 (ncols gamma) gamma) am [0..<K] w = Inr w1 \<and>
              tens w1 = tens w \<and> mats w' = mats w1 \<and>
              (\<forall>k<K. mats w1 am ! k = weighted_mean x gamma k)"
    and "\<forall>k<K. tens w' av ! k = weighted_covariance x gamma k (mats w' am ! k)"
    and "ap' = fresh w \<and> vecs w' ap' = map (\<lambda>k. mass gamma k / real (length x)) [0..<K]"
proof -
  have n0: "0 < length x" using n by simp
  have nc: "ncols gamma = K" using ncols_rect [OF g n0] .
  have ncx: "ncols x = D" using ncols_rect [OF x n0] .
  define N_k where "N_k = sum_axis0 K gamma"
  from m obtain w1 w2 p where
    um: "update_means x gamma N_k am [0..<K] w = Inr w1"
    and uv: "update_variances x gamma N_k am av [0..<K] w1 = Inr w2"
    and dv: "divide_all N_k (real (length x)) = Inr p"
    and nv: "new_vec p w2 = (ap', w')"
    unfolding m_step_def Let_def nc N_k_def by (auto simp: and_then_eq_Inr)
  note M = update_means_result [OF um distinct_upt]
  note V = update_variances_result [OF uv distinct_upt]
  have w': "w' = w2\<lparr>vecs := (vecs w2)(fresh w2 := p), fresh := Suc (fresh w2)\<rparr>"
    and ap': "ap' = fresh w2"
    using nv by (auto simp: new_vec_def)
  have means: "mats w1 am ! k = weighted_mean x gamma k" if k: "k < K" for k
  proof -
    from M k have "new_mean x gamma (sum_axis0 K gamma) k = Inr (mats w1 am ! k)"
      by (simp add: N_k_def)
    from new_mean_eq [OF x g n0 k this] show ?thesis by simp
  qed
  have mm: "mats w' = mats w1" using V w' by simp
  show "\<exists>w1. update_means x gamma (sum_axis0 (ncols gamma) gamma) am [0..<K] w = Inr w1 \<and>
              tens w1 = tens w \<and> mats w' = mats w1 \<and>
              (\<forall>k<K. mats w1 am ! k = weighted_mean x gamma k)"
    using um M mm means unfolding nc N_k_def by blast
  show "\<forall>k<K. tens w' av ! k = weighted_covariance x gamma k (mats w' am ! k)"
  proof (intro allI impI)
    fix k assume k: "k < K"
    from V k have c: "covariance x gamma k (mats w1 am ! k) (N_k ! k) = Inr (tens w2 av ! k)"
      by simp
    have nk: "N_k ! k = mass gamma k" using k by (simp add: N_k_def sum_axis0_mass)
    from covariance_eq [OF x g n0 k c]
    have "tens w2 av ! k = weighted_covariance x gamma k (mats w1 am ! k)"
      unfolding weighted_covariance_def ncx nk by simp
    then show "tens w' av ! k = weighted_covariance x gamma k (mats w' am ! k)"
      using w' mm by simp
  qed
  have "p = map (\<lambda>k. mass gamma k / real (length x)) [0..<K]"
    using dv by (auto simp: divide_all_def N_k_def sum_axis0_mass split: if_splits)
  then show "ap' = fresh w \<and> vecs w' ap' = map (\<lambda>k. mass gamma k / real (length x)) [0..<K]"
    using w' ap' M V by simp
qed

lemma sum_mass:
  assumes g: "rectangular n K gamma"
  shows "(\<Sum>k\<leftarrow>[0..<K]. mass gamma k) = (\<Sum>row\<leftarrow>gamma. sum_list row)"
proof -
  have lg: "length gamma = n" and rg: "\<And>i. i < n \<Longrightarrow> length (gamma ! i) = K"
    using g by (simp_all add: rectangular_def list_all_length)
  have "(\<Sum>k\<leftarrow>[0..<K]. mass gamma k) = (\<Sum>k\<leftarrow>[0..<K]. \<Sum>i\<leftarrow>[0..<n]. gamma ! i ! k)"
    by (simp add: mass_def lg)
  also have "\<dots> = (\<Sum>i\<leftarrow>[0..<n]. \<Sum>k\<leftarrow>[0..<K]. gamma ! i ! k)"
    by (rule sum_list_upt_swap)
  also have "\<dots> = (\<Sum>i\<leftarrow>[0..<n]. sum_list (gamma ! i))"
    by (rule arg_cong [where f = sum_list], rule map_cong)
       (simp_all add: sum_list_nth [of "gamma ! _"] rg)
  also have "\<dots> = (\<Sum>row\<leftarrow>gamma. sum_list row)"
  proof -
    have "map (\<lambda>i. sum_list (gamma ! i)) [0..<n] = map sum_list gamma"
      by (rule nth_equalityI) (simp_all add: lg)
    then show ?thesis by simp
  qed
  finally show ?thesis .
qed

lemma weights_sum_to_one:
  assumes g: "rectangular n K gamma" and n: "0 < n"
    and rows: "list_all (\<lambda>row. sum_list row = 1) gamma"
  shows "sum_list (map (\<lambda>k. mass gamma k / real n) [0..<K]) = 1"
proof -
  have lg: "length gamma = n" using g by (simp add: rectangular_def)
  have "(\<Sum>row\<leftarrow>gamma. sum_list row) = (\<Sum>row\<leftarrow>gamma. 1::real)"
    by (rule arg_cong [where f = sum_list], rule map_cong) (use rows in \<open>auto simp: list_all_iff\<close>)
  also have "\<dots> = real n" by (simp add: sum_list_triv lg)
  finally have "(\<Sum>k\<leftarrow>[0..<K]. mass gamma k) = real n" by (simp add: sum_mass [OF g])
  moreover have "sum_list (map (\<lambda>k. mass gamma k / real n) [0..<K]) =
                   (\<Sum>k\<leftarrow>[0..<K]. mass gamma k) / real n"
    using sum_list_divide [of "real n" "map (mass gamma) [0..<K]"] by (simp add: comp_def)
  ultimately show ?thesis using n by simp
qed

lemma mass_nonneg:
  assumes g: "rectangular n K gamma" and k: "k < K"
    and nn: "list_all (list_all (\<lambda>u. 0 \<le> u)) gamma"
  shows "0 \<le> mass gamma k"
  unfolding mass_def
  using assms by (intro sum_list_nonneg) (auto simp: rectangular_def list_all_length)

section \<open>The mixture weights\<close>

lemma getLikelihood_pos: "getLikelihood g x = Inr d \<Longrightarrow> 0 < d"
  unfolding getLikelihood_def
  by (auto simp: and_then_eq_Inr split: if_splits)

lemma weighted_densities_nonneg:
  assumes W: "weighted_densities np K x means1 variances1 pi_k1 = Inr W"
    and nn: "list_all (\<lambda>p. 0 \<le> p) pi_k1"
  shows "list_all (list_all (\<lambda>u. 0 \<le> u)) W"
proof -
  from W obtain inst Normal where
    N: "for_each (\<lambda>xi. for_each (\<lambda>k. getLikelihood (inst ! k) xi) [0..<K]) x = Inr Normal"
    and W': "each_row (*) Normal pi_k1 = Inr W"
    unfolding weighted_densities_def by (auto simp: and_then_eq_Inr split: if_splits)
  have lN: "length Normal = length x" using N by (rule for_each_length)
  have lW: "length W = length Normal" using each_row_shape(1) [OF W'] .
  have "list_all (\<lambda>u. 0 \<le> u) (W ! i)" if i: "i < length W" for i
  proof -
    have iN: "i < length Normal" using i lW by simp
    then have ix: "i < length x" using lN by simp
    from each_row_shape(2) [OF W' iN]
    have len: "length (Normal ! i) = length pi_k1" and Wi: "W ! i = map2 (*) (Normal ! i) pi_k1"
      by simp_all
    from for_each_nth [OF N ix]
    have row: "for_each (\<lambda>k. getLikelihood (inst ! k) (x ! i)) [0..<K] = Inr (Normal ! i)" .
    have lrow: "length (Normal ! i) = K" using for_each_length [OF row] by simp
    have "0 \<le> Normal ! i ! k" if "k < K" for k
      using for_each_nth [OF row, of k] that getLikelihood_pos [of _ _ "Normal ! i ! k"]
      by (simp add: less_imp_le)
    then show ?thesis
      unfolding Wi using nn len lrow
      by (auto simp: list_all_length intro!: mult_nonneg_nonneg)
  qed
  then show ?thesis by (simp add: list_all_length)
qed

lemma T_nonempty: "rectangular n d m \<Longrightarrow> 0 < n \<Longrightarrow> 0 < d \<Longrightarrow> T m \<noteq> []"
  by (simp add: T_rect)

lemma e_step_result:
  assumes e: "e_step np K x means1 variances1 pi_k1 = Inr gamma" and K: "0 < K"
  shows "\<exists>W. weighted_densities np K x means1 variances1 pi_k1 = Inr W \<and>
             list_all (\<lambda>row. sum_list row \<noteq> 0) W \<and>
             gamma = map (\<lambda>row. map (\<lambda>u. u / sum_list row) row) W"
proof -
  from e obtain W where W: "weighted_densities np K x means1 variances1 pi_k1 = Inr W"
    and rest: "(let s = sum_axis1 W; Wt = T W
          in if Wt \<noteq> [] \<and> list_ex (\<lambda>u. u = 0) s then Inl NonFinite
             else and_then (each_row (/) Wt s) (\<lambda>Q. Inr (T Q))) = Inr gamma"
    unfolding e_step_def by (auto simp: and_then_eq_Inr)
  from weighted_densities_shape [OF W]
  have r: "rectangular (length x) K W" and x: "x \<noteq> []" by simp_all
  have n: "0 < length x" using x by simp
  have "\<not> list_ex (\<lambda>u. u = 0) (sum_axis1 W)"
    using rest T_nonempty [OF r n K] by (auto simp: Let_def split: if_splits)
  then have nz: "list_all (\<lambda>row. sum_list row \<noteq> 0) W"
    by (auto simp: sum_axis1_def list_ex_iff list_all_iff)
  from rest normalise_rows [OF r n K nz]
  have "gamma = map (\<lambda>row. map (\<lambda>u. u / sum_list row) row) W" by simp
  with W nz show ?thesis by blast
qed

lemma e_step_gamma:
  assumes e: "e_step np K x means1 variances1 pi_k1 = Inr gamma" and K: "0 < K"
    and nn: "list_all (\<lambda>p. 0 \<le> p) pi_k1"
  shows "rectangular (length x) K gamma \<and> x \<noteq> [] \<and>
         list_all (\<lambda>row. sum_list row = 1) gamma \<and>
         list_all (list_all (\<lambda>u. 0 \<le> u)) gamma"
proof -
  from e_step_result [OF e K] obtain W where
    W: "weighted_densities np K x means1 variances1 pi_k1 = Inr W"
    and nz: "list_all (\<lambda>row. sum_list row \<noteq> 0) W"
    and g: "gamma = map (\<lambda>row. map (\<lambda>u. u / sum_list row) row) W"
    by blast
  from weighted_densities_shape [OF W]
  have r: "rectangular (length x) K W" and x: "x \<noteq> []" by simp_all
  have Wnn: "list_all (list_all (\<lambda>u. 0 \<le> u)) W"
    using weighted_densities_nonneg [OF W nn] .
  have 1: "rectangular (length x) K gamma"
    using r unfolding g by (simp add: rectangular_def list_all_iff)
  have 2: "list_all (\<lambda>row. sum_list row = 1) gamma"
    using nz unfolding g by (auto simp: list_all_iff sum_list_divide)
  have 3: "list_all (list_all (\<lambda>u. 0 \<le> u)) gamma"
    unfolding g using Wnn
    by (auto simp: list_all_iff intro!: divide_nonneg_nonneg sum_list_nonneg)
  from 1 x 2 3 show ?thesis by simp
qed

lemma m_step_weights:
  assumes m: "m_step x gamma K am av w = Inr (ap', w')"
  shows "ap' = fresh w \<and> fresh w' = Suc (fresh w) \<and> gen w' = gen w \<and>
         vecs w' = (vecs w)(ap' := map (\<lambda>k. mass gamma k / real (length x)) [0..<ncols gamma])"
proof -
  define N_k where "N_k = sum_axis0 (ncols gamma) gamma"
  from m obtain w1 w2 p where
    um: "update_means x gamma N_k am [0..<K] w = Inr w1"
    and uv: "update_variances x gamma N_k am av [0..<K] w1 = Inr w2"
    and dv: "divide_all N_k (real (length x)) = Inr p"
    and nv: "new_vec p w2 = (ap', w')"
    unfolding m_step_def Let_def N_k_def by (auto simp: and_then_eq_Inr)
  note M = update_means_result [OF um distinct_upt]
  note V = update_variances_result [OF uv distinct_upt]
  have w': "w' = w2\<lparr>vecs := (vecs w2)(fresh w2 := p), fresh := Suc (fresh w2)\<rparr>"
    and ap': "ap' = fresh w2"
    using nv by (auto simp: new_vec_def)
  have "p = map (\<lambda>k. mass gamma k / real (length x)) [0..<ncols gamma]"
    using dv by (auto simp: divide_all_def N_k_def sum_axis0_mass split: if_splits)
  then show ?thesis using w' ap' M V by simp
qed

lemma compute_log_likelihood_components:
  assumes l: "compute_log_likelihood np self w x m0 v0 p0 = Inr l" and x: "x \<noteq> []"
  shows "0 < n_cluster self"
proof (rule ccontr)
  assume "\<not> 0 < n_cluster self"
  then have K: "n_cluster self = 0" by simp
  obtain x0 xs where xc: "x = x0 # xs" using x by (cases x) auto
  show False
    using l unfolding compute_log_likelihood_def Let_def K instances_def xc
    by (auto simp: and_then_eq_Inr sum_axis1_def split: if_splits sum.splits)
qed

lemma em_iteration_weights:
  assumes it: "em_iteration np self x am av ap w = Inr (l_new, ap', w')"
    and nn: "list_all (\<lambda>p. 0 \<le> p) (vecs w ap)"
  shows "list_all (\<lambda>p. 0 \<le> p) (vecs w' ap') \<and> sum_list (vecs w' ap') = 1 \<and>
         length (vecs w' ap') = n_cluster self"
proof -
  from it obtain gamma where
    e: "e_step np (n_cluster self) x (mats w am) (tens w av) (vecs w ap) = Inr gamma"
    and m: "m_step x gamma (n_cluster self) am av w = Inr (ap', w')"
    and l: "compute_log_likelihood np self w' x None None None = Inr l_new"
    unfolding em_iteration_def by (auto simp: and_then_eq_Inr)
  from e obtain W where "weighted_densities np (n_cluster self) x (mats w am) (tens w av)
                           (vecs w ap) = Inr W"
    unfolding e_step_def by (auto simp: and_then_eq_Inr)
  from weighted_densities_shape [OF this] have x: "x \<noteq> []" by simp
  have K: "0 < n_cluster self" using compute_log_likelihood_components [OF l x] .
  from e_step_gamma [OF e K nn]
  have g: "rectangular (length x) (n_cluster self) gamma"
    and rows: "list_all (\<lambda>row. sum_list row = 1) gamma"
    and gnn: "list_all (list_all (\<lambda>u. 0 \<le> u)) gamma"
    by simp_all
  have n: "0 < length x" using x by simp
  have nc: "ncols gamma = n_cluster self" using ncols_rect [OF g n] .
  from m_step_weights [OF m]
  have p: "vecs w' ap' = map (\<lambda>k. mass gamma k / real (length x)) [0..<n_cluster self]"
    by (simp add: nc)
  have "list_all (\<lambda>p. 0 \<le> p) (vecs w' ap')"
    unfolding p using mass_nonneg [OF g _ gnn] by (simp add: list_all_iff)
  moreover have "sum_list (vecs w' ap') = 1"
    unfolding p by (rule weights_sum_to_one [OF g n rows])
  ultimately show ?thesis by (simp add: p)
qed

lemma e_step_shape:
  assumes e: "e_step np K x means1 variances1 pi_k1 = Inr gamma" and K: "0 < K"
  shows "rectangular (length x) K gamma \<and> x \<noteq> [] \<and> list_all (\<lambda>row. sum_list row = 1) gamma"
proof -
  from e_step_result [OF e K] obtain W where
    W: "weighted_densities np K x means1 variances1 pi_k1 = Inr W"
    and nz: "list_all (\<lambda>row. sum_list row \<noteq> 0) W"
    and g: "gamma = map (\<lambda>row. map (\<lambda>u. u / sum_list row) row) W"
    by blast
  from weighted_densities_shape [OF W]
  have r: "rectangular (length x) K W" and x: "x \<noteq> []" by simp_all
  have 1: "rectangular (length x) K gamma"
    using r unfolding g by (simp add: rectangular_def list_all_iff)
  have 2: "list_all (\<lambda>row. sum_list row = 1) gamma"
    using nz unfolding g by (auto simp: list_all_iff sum_list_divide)
  from 1 x 2 show ?thesis by simp
qed

lemma em_iteration_parts:
  assumes it: "em_iteration np self x am av ap w = Inr (l_new, ap', w')"
  shows "\<exists>gamma. e_step np (n_cluster self) x (mats w am) (tens w av) (vecs w ap) = Inr gamma \<and>
           m_step x gamma (n_cluster self) am av w = Inr (ap', w') \<and>
           compute_log_likelihood np self w' x None None None = Inr l_new \<and>
           rectangular (length x) (n_cluster self) gamma \<and> x \<noteq> [] \<and>
           list_all (\<lambda>row. sum_list row = 1) gamma"
proof -
  from it obtain gamma where
    e: "e_step np (n_cluster self) x (mats w am) (tens w av) (vecs w ap) = Inr gamma"
    and m: "m_step x gamma (n_cluster self) am av w = Inr (ap', w')"
    and l: "compute_log_likelihood np self w' x None None None = Inr l_new"
    unfolding em_iteration_def by (auto simp: and_then_eq_Inr)
  from e obtain W where "weighted_densities np (n_cluster self) x (mats w am) (tens w av)
                           (vecs w ap) = Inr W"
    unfolding e_step_def by (auto simp: and_then_eq_Inr)
  from weighted_densities_shape [OF this] have x: "x \<noteq> []" by simp
  have K: "0 < n_cluster self" using compute_log_likelihood_components [OF l x] .
  from e_step_shape [OF e K] e m l show ?thesis by blast
qed

lemma em_state_weights:
  "em_state np self x am av i (l, ap, w) = Inr (l', ap', w') \<Longrightarrow>
   list_all (\<lambda>p. 0 \<le> p) (vecs w ap) \<Longrightarrow>
     list_all (\<lambda>p. 0 \<le> p) (vecs w' ap') \<and>
     (0 < i \<longrightarrow> sum_list (vecs w' ap') = 1 \<and> length (vecs w' ap') = n_cluster self)"
proof (induction i arbitrary: l' ap' w')
  case 0
  then show ?case by simp
next
  case (Suc i)
  from Suc.prems(1) obtain l1 ap1 w1 where
    st: "em_state np self x am av i (l, ap, w) = Inr (l1, ap1, w1)"
    and it: "em_iteration np self x am av ap1 w1 = Inr (l', ap', w')"
    by (auto split: sum.splits)
  from Suc.IH [OF st Suc.prems(2)] have "list_all (\<lambda>p. 0 \<le> p) (vecs w1 ap1)" by simp
  from em_iteration_weights [OF it this] show ?case by simp
qed

lemma init_random_weights:
  "init_random np self x g = Inr (mu_k, sigma_k, pi_k0, g') \<Longrightarrow> list_all (\<lambda>p. 0 \<le> p) pi_k0"
  unfolding init_random_def
  by (auto simp: Let_def list_all_iff split: prod.splits if_splits)

lemma init_k_means_weights:
  assumes "init_k_means np self x g = Inr (mu_k, sigma_k, pi_k0, g')"
  shows "list_all (\<lambda>p. 0 \<le> p) pi_k0"
proof -
  from assms obtain assign gamma_ik where
    g: "for_each (\<lambda>i. and_then (item assign i) (\<lambda>a.
          if a < n_cluster self then Inr (map (\<lambda>k. if k = a then 1 else 0) [0..<n_cluster self])
          else Inl IndexError)) [0..<length x] = Inr gamma_ik"
    and p: "divide_all (sum_axis0 (n_cluster self) gamma_ik) (real (length x)) = Inr pi_k0"
    unfolding init_k_means_def Let_def
    by (auto simp: and_then_eq_Inr split: prod.splits)
  have lg: "length gamma_ik = length x" using for_each_length [OF g] by simp
  have entry: "0 \<le> gamma_ik ! i ! k" if i: "i < length x" and k: "k < n_cluster self" for i k
  proof -
    from for_each_nth [OF g, of i] i
    have "gamma_ik ! i = map (\<lambda>k. if k = assign ! i then 1 else 0) [0..<n_cluster self]"
      by (auto simp: and_then_eq_Inr item_def split: if_splits)
    then show ?thesis using k by simp
  qed
  have "0 \<le> mass gamma_ik k" if "k < n_cluster self" for k
    unfolding mass_def using that entry by (intro sum_list_nonneg) (auto simp: lg)
  moreover from p have "pi_k0 = map (\<lambda>u. u / real (length x)) (sum_axis0 (n_cluster self) gamma_ik)"
    by (auto simp: divide_all_def split: if_splits)
  ultimately show ?thesis by (simp add: sum_axis0_mass list_all_iff)
qed

lemma fit_init_weights:
  assumes "fit_init np self x w0 = Inr (self1, am, av, ap, l, w)"
  shows "list_all (\<lambda>p. 0 \<le> p) (vecs w ap)"
proof -
  from assms obtain mu_k sigma_k pi_k0 g1 where
    i: "(if init self = ''k_means'' then init_k_means np self x (seed np 42)
         else if init self = ''random'' then init_random np self x (seed np 42)
         else Inl (Exception ''Invalid initialization provided'')) = Inr (mu_k, sigma_k, pi_k0, g1)"
    and w: "vecs w ap = pi_k0"
    unfolding fit_init_def Let_def
    by (auto simp: and_then_eq_Inr new_mat_def new_ten_def new_vec_def split: prod.splits)
  from i have "list_all (\<lambda>p. 0 \<le> p) pi_k0"
    using init_random_weights init_k_means_weights by (auto split: if_splits)
  with w show ?thesis by simp
qed

lemma fit_weights:
  assumes fit: "fit np self x w0 = Inr (n, self', w')"
  shows "\<exists>a. pi_k self' = Some a \<and> list_all (\<lambda>p. 0 \<le> p) (vecs w' a) \<and>
             sum_list (vecs w' a) = 1 \<and> length (vecs w' a) = n_cluster self"
proof -
  from fit obtain self1 am av ap l w pk' where
    init: "fit_init np self x w0 = Inr (self1, am, av, ap, l, w)"
    and lp: "em_loop np self1 x am av (py_range (max_iter self1)) ap l w = Inr (Some n, pk', w')"
    and self': "self' = self1\<lparr>means := Some am, variances := Some av, pi_k := Some pk'\<rparr>"
    unfolding fit_def
    by (auto simp: and_then_eq_Inr Let_def split: prod.splits option.splits)
  from em_loop_result [OF lp] obtain i l' where
    st: "em_state np self1 x am av (Suc i) (l, ap, w) = Inr (l', pk', w')"
    by auto
  have K: "n_cluster self1 = n_cluster self" using fit_init_self [OF init] by simp
  from em_state_weights [OF st fit_init_weights [OF init]] show ?thesis
    using self' K by simp
qed

section \<open>The iteration count that \<open>fit\<close> returns\<close>

text \<open>
  Claim C1 says that \<open>fit\<close>, when no pass of the loop meets the tolerance within
  \<open>max_iter\<close> passes, stops without an error and returns \<open>max_iter\<close>. The code does
  not: when the initialisation has succeeded, all \<open>max_iter\<close> passes have run and none
  has met the tolerance, line 131 reads the variable \<open>number_of_updates\<close>, which only
  line 125 binds, and \<open>fit\<close> raises UnboundLocalError.
\<close>

theorem fit_budget_exhausted:
  assumes init: "fit_init np self x w0 = Inr (self1, am, av, ap, l, w)"
    and none: "\<forall>i<nat (max_iter self). \<not> converged_at np self1 x am av (l, ap, w) i"
    and runs: "em_state np self1 x am av (nat (max_iter self)) (l, ap, w) = Inr s'"
  shows "fit np self x w0 = Inl UnboundLocalError"
proof -
  have mi: "max_iter self1 = max_iter self"
    using fit_init_self [OF init] by simp
  obtain l' pk' w' where s': "s' = (l', pk', w')" by (cases s') auto
  have "em_loop np self1 x am av (py_range (max_iter self1)) ap l w = Inr (None, pk', w')"
    using none runs by (intro em_loop_exhausted) (simp_all add: mi s')
  then show ?thesis by (simp add: fit_def init)
qed

theorem fit_budget_exhausted_witness:
  "fit_init env_1x1 (gmm_default\<lparr>max_iter := 1\<rparr>) [[1]] empty_world =
     Inr (gmm_default\<lparr>max_iter := 1, means := Some 0, variances := Some 1, pi_k := Some 2\<rparr>,
          0, 1, 2, ln (exp (- (1 / 2)) / sqrt (2 * pi)), world_0) \<and>
   fit env_1x1 (gmm_default\<lparr>max_iter := 1\<rparr>) [[1]] empty_world = Inl UnboundLocalError"
proof -
  let ?self1 = "gmm_default\<lparr>max_iter := 1, means := Some 0, variances := Some 1, pi_k := Some 2\<rparr>"
  let ?s = "(ln (exp (- (1 / 2)) / sqrt (2 * pi)), 2, world_0)"
  have e: "e_attr ?self1 = 1 / 10000" by (simp add: gmm_default_def)
  have st: "em_state env_1x1 ?self1 [[1]] 0 1 (Suc 0) ?s =
              Inr (ln (1 / sqrt (pi / 500)), 3, world_1)"
    by (simp only: em_state.simps sum.case prod.case pass_one)
  have c0: "\<not> converged_at env_1x1 ?self1 [[1]] 0 1 ?s 0"
    unfolding converged_at_0 [OF pass_one] e by (rule first_change)
  have mi: "nat (max_iter (gmm_default\<lparr>max_iter := 1\<rparr>)) = Suc 0" by simp
  have none: "\<forall>i<nat (max_iter (gmm_default\<lparr>max_iter := 1\<rparr>)).
                     \<not> converged_at env_1x1 ?self1 [[1]] 0 1 ?s i"
    unfolding mi using c0 by (simp only: less_Suc0) blast
  have runs: "em_state env_1x1 ?self1 [[1]] 0 1 (nat (max_iter (gmm_default\<lparr>max_iter := 1\<rparr>))) ?s =
                Inr (ln (1 / sqrt (pi / 500)), 3, world_1)"
    unfolding mi by (rule st)
  show ?thesis
    using fit_budget_exhausted [OF init_one none runs] init_one by blast
qed

text \<open>
  Claim C3: \<open>fit\<close> returns \<open>n\<close> exactly when \<open>n\<close> is the first value of the loop
  counter \<open>iter\<close>, counted from 0 and below \<open>max_iter\<close>, at which the test
  \<open>|l - l_new| < e\<close> of line 124 holds; so what it returns is the loop counter at
  the break, it is below \<open>max_iter\<close>, and the change of the log-likelihood in that pass
  is below the tolerance.
\<close>

theorem fit_returns_first_convergence:
  "(fit np self x w0 = Inr (n, self', w') \<longrightarrow> 0 \<le> n \<and> n < max_iter self) \<and>
   (fit_init np self x w0 = Inr (self1, am, av, ap, l, w) \<longrightarrow>
      ((\<exists>self' w'. fit np self x w0 = Inr (n, self', w')) \<longleftrightarrow>
       (0 \<le> n \<and> n < max_iter self \<and>
        converged_at np self1 x am av (l, ap, w) (nat n) \<and>
        (\<forall>j<nat n. \<not> converged_at np self1 x am av (l, ap, w) j))))"
proof -
  have ret: "0 \<le> n \<and> n < max_iter self \<and>
        converged_at np self1 x am av (l, ap, w) (nat n) \<and>
        (\<forall>j<nat n. \<not> converged_at np self1 x am av (l, ap, w) j)"
    if init: "fit_init np self x w0 = Inr (self1, am, av, ap, l, w)"
      and fit: "fit np self x w0 = Inr (n, self', w')"
    for self1 am av ap l w self' w'
  proof -
    have mi: "max_iter self1 = max_iter self"
      using fit_init_self [OF init] by simp
    from fit obtain pk' where
      lp: "em_loop np self1 x am av (py_range (max_iter self)) ap l w = Inr (Some n, pk', w')"
      by (auto simp: fit_def init mi Let_def and_then_def split: sum.splits option.splits)
    from em_loop_result [OF lp] obtain i where i: "i < nat (max_iter self)"
      and n: "n = py_range (max_iter self) ! i"
      and c: "converged_at np self1 x am av (l, ap, w) i"
      and nc: "\<forall>j<i. \<not> converged_at np self1 x am av (l, ap, w) j"
      by auto
    from i n have "n = int i" by simp
    with i c nc show ?thesis by auto
  qed
  have first: "fit np self x w0 = Inr (n, self', w') \<longrightarrow> 0 \<le> n \<and> n < max_iter self"
  proof
    assume fit: "fit np self x w0 = Inr (n, self', w')"
    then obtain s where "fit_init np self x w0 = Inr s"
      by (cases "fit_init np self x w0") (simp_all add: fit_def)
    then obtain self1 am av ap l w
      where "fit_init np self x w0 = Inr (self1, am, av, ap, l, w)"
      by (cases s) auto
    from ret [OF this fit] show "0 \<le> n \<and> n < max_iter self" by simp
  qed
  have second: "(\<exists>self' w'. fit np self x w0 = Inr (n, self', w')) \<longleftrightarrow>
       (0 \<le> n \<and> n < max_iter self \<and>
        converged_at np self1 x am av (l, ap, w) (nat n) \<and>
        (\<forall>j<nat n. \<not> converged_at np self1 x am av (l, ap, w) j))"
    if init: "fit_init np self x w0 = Inr (self1, am, av, ap, l, w)"
  proof
    assume "\<exists>self' w'. fit np self x w0 = Inr (n, self', w')"
    then show "0 \<le> n \<and> n < max_iter self \<and>
        converged_at np self1 x am av (l, ap, w) (nat n) \<and>
        (\<forall>j<nat n. \<not> converged_at np self1 x am av (l, ap, w) j)"
      using ret [OF init] by blast
  next
    assume a: "0 \<le> n \<and> n < max_iter self \<and>
        converged_at np self1 x am av (l, ap, w) (nat n) \<and>
        (\<forall>j<nat n. \<not> converged_at np self1 x am av (l, ap, w) j)"
    have mi: "max_iter self1 = max_iter self"
      using fit_init_self [OF init] by simp
    have i: "nat n < length (py_range (max_iter self1))" using a by (simp add: mi)
    from em_loop_converged [OF i] a obtain l' pk' w' where
      "em_loop np self1 x am av (py_range (max_iter self1)) ap l w =
         Inr (Some (py_range (max_iter self1) ! nat n), pk', w')"
      by blast
    moreover have "py_range (max_iter self1) ! nat n = n" using a by (simp add: mi)
    ultimately show "\<exists>self' w'. fit np self x w0 = Inr (n, self', w')"
      by (simp add: fit_def init)
  qed
  from first second show ?thesis by blast
qed

theorem fit_returns_first_convergence_witness:
  "fit_init env_1x1 gmm_default [[1]] empty_world =
     Inr (gmm_default\<lparr>means := Some 0, variances := Some 1, pi_k := Some 2\<rparr>,
          0, 1, 2, ln (exp (- (1 / 2)) / sqrt (2 * pi)), world_0) \<and>
   (\<exists>self' w'. fit env_1x1 gmm_default [[1]] empty_world = Inr (1, self', w'))"
proof -
  let ?self1 = "gmm_default\<lparr>means := Some 0, variances := Some 1, pi_k := Some 2\<rparr>"
  let ?s = "(ln (exp (- (1 / 2)) / sqrt (2 * pi)), 2, world_0)"
  have self1: "?self1 = gmm_default\<lparr>max_iter := 100, means := Some 0, variances := Some 1,
                                      pi_k := Some 2\<rparr>"
    by (simp add: gmm_default_def)
  have init: "fit_init env_1x1 gmm_default [[1]] empty_world =
                Inr (?self1, 0, 1, 2, ln (exp (- (1 / 2)) / sqrt (2 * pi)), world_0)"
    using init_one [of 100] self1 by (simp add: gmm_default_def)
  have p1: "em_iteration env_1x1 ?self1 [[1]] 0 1 2 world_0 =
              Inr (ln (1 / sqrt (pi / 500)), 3, world_1)"
    using pass_one [of 100] by (simp only: self1)
  have p2: "em_iteration env_1x1 ?self1 [[1]] 0 1 3 world_1 =
              Inr (ln (1 / sqrt (pi / 500)), 4, world_2)"
    using pass_two [of 100] by (simp only: self1)
  have e: "e_attr ?self1 = 1 / 10000" by (simp add: gmm_default_def)
  have c0: "\<not> converged_at env_1x1 ?self1 [[1]] 0 1 ?s 0"
    unfolding converged_at_0 [OF p1] e by (rule first_change)
  have "converged_at env_1x1 ?self1 [[1]] 0 1 ?s (Suc 0)"
    unfolding converged_at_Suc [OF p1] converged_at_0 [OF p2] e by simp
  then have c1: "converged_at env_1x1 ?self1 [[1]] 0 1 ?s (nat 1)"
    by (simp only: nat_1 One_nat_def)
  have nc: "\<forall>j<nat 1. \<not> converged_at env_1x1 ?self1 [[1]] 0 1 ?s j"
    using c0 by (simp only: nat_1 One_nat_def less_Suc0) blast
  have mi: "(0::int) \<le> 1 \<and> (1::int) < max_iter gmm_default" by (simp add: gmm_default_def)
  have "\<exists>self' w'. fit env_1x1 gmm_default [[1]] empty_world = Inr (1, self', w')"
    using fit_returns_first_convergence
            [of env_1x1 gmm_default "[[1]]" empty_world 1 _ _ ?self1 0 1 2
                "ln (exp (- (1 / 2)) / sqrt (2 * pi))" world_0]
          init c1 nc mi
    by blast
  with init show ?thesis by blast
qed

section \<open>The Gaussian density\<close>

text \<open>
  Claim C5: for a mean of length \<open>D\<close> and a \<open>D\<close> by \<open>D\<close> covariance, the constructor
  of \<open>Gaussian_pdf\<close> adds \<open>0.001 I\<close> to the covariance exactly when its rank is below
  \<open>D\<close> and leaves it as it is otherwise, inverts the result (LinAlgError when numpy
  cannot), and sets \<open>c = (2 pi)^D det(covariance)\<close>; \<open>getLikelihood\<close> then returns
  \<open>exp(-0.5 (x - mean)\<^sup>T inv (x - mean)) / sqrt(c)\<close> for every \<open>x\<close> of length \<open>D\<close>, as
  long as \<open>c\<close> is positive (in real arithmetic).
\<close>

theorem Gaussian_pdf_density:
  assumes sq: "rectangular D D variance0"
  shows "Gaussian_pdf np mean0 variance0 =
           (case linalg_inv np (regularised np D variance0) of
              None \<Rightarrow> Inl LinAlgError
            | Some iv \<Rightarrow>
                Inr \<lparr>mean = mean0, variance = regularised np D variance0, inv_attr = iv,
                     c_attr = (2 * pi) ^ D * linalg_det np (regularised np D variance0)\<rparr>) \<and>
         (\<forall>g x. Gaussian_pdf np mean0 variance0 = Inr g \<and> 0 < c_attr g \<and>
                 length mean0 = D \<and> length x = D \<and> rectangular D D (inv_attr g) \<longrightarrow>
            getLikelihood g x =
              Inr (exp (- 0.5 * quadratic_form (map2 (-) x mean0) (inv_attr g))
                   / sqrt (c_attr g)))"
proof -
  have eq: "Gaussian_pdf np mean0 variance0 =
           (case linalg_inv np (regularised np D variance0) of
              None \<Rightarrow> Inl LinAlgError
            | Some iv \<Rightarrow>
                Inr \<lparr>mean = mean0, variance = regularised np D variance0, inv_attr = iv,
                     c_attr = (2 * pi) ^ D * linalg_det np (regularised np D variance0)\<rparr>)"
    using Gaussian_pdf_eq [OF sq, of np mean0] by (simp add: Let_def)
  have "getLikelihood g x =
          Inr (exp (- 0.5 * quadratic_form (map2 (-) x mean0) (inv_attr g)) / sqrt (c_attr g))"
    if g: "Gaussian_pdf np mean0 variance0 = Inr g" and c: "0 < c_attr g"
      and m: "length mean0 = D" and x: "length x = D" and A: "rectangular D D (inv_attr g)"
    for g x
  proof -
    have "mean g = mean0" using g unfolding eq by (auto split: option.splits)
    with getLikelihood_eq [OF c x _ A] m show ?thesis by simp
  qed
  with eq show ?thesis by blast
qed

theorem Gaussian_pdf_density_witness:
  "rectangular 1 1 [[0::real]] \<and>
   Gaussian_pdf env_1x1 [2] [[0]] =
     Inr \<lparr>mean = [2], variance = [[0.001]], inv_attr = [[1000]], c_attr = 2 * pi * 0.001\<rparr> \<and>
   getLikelihood \<lparr>mean = [2], variance = [[0.001]], inv_attr = [[1000]],
                  c_attr = 2 * pi * 0.001\<rparr> [3] =
     Inr (exp (- 0.5 * 1000) / sqrt (2 * pi * 0.001))"
proof -
  let ?g = "\<lparr>mean = [2], variance = [[0.001]], inv_attr = [[1000]], c_attr = 2 * pi * 0.001\<rparr>"
  have sq: "rectangular 1 1 [[0::real]]" by (simp add: rectangular_def)
  have reg: "regularised env_1x1 1 [[0]] = [[0.001]]"
    by (simp add: regularised_def env_1x1_def plus_identity_def)
  have iv: "linalg_inv env_1x1 [[0.001]] = Some [[1000]]"
    by (simp add: env_1x1_def)
  have dt: "(2 * pi) ^ 1 * linalg_det env_1x1 [[0.001]] = 2 * pi * 0.001"
    by (simp add: env_1x1_def)
  note dens = Gaussian_pdf_density [OF sq, of env_1x1 "[2]"]
  have g: "Gaussian_pdf env_1x1 [2] [[0]] = Inr ?g"
    using dens [THEN conjunct1] by (simp only: reg iv dt option.case)
  have c: "0 < c_attr ?g" using pi_gt_zero by simp
  have A: "rectangular 1 1 (inv_attr ?g)" by (simp add: rectangular_def)
  have "getLikelihood ?g [3] =
      Inr (exp (- 0.5 * quadratic_form (map2 (-) [3] [2]) (inv_attr ?g)) / sqrt (c_attr ?g))"
    using dens [THEN conjunct2, rule_format, of ?g "[3]"] g c A by simp
  moreover have "quadratic_form (map2 (-) [3] [2]) (inv_attr ?g) = 1000"
    by (simp add: quadratic_form_def)
  ultimately show ?thesis using sq g by simp
qed

section \<open>The E step and the M step\<close>

lemma weighted_densities_two_components:
  "weighted_densities env_1x1 2 [[0]] [[0], [1 / 2]] [[[1]], [[1]]] [1 / 2, 1 / 2] =
     Inr [[1 / (2 * sqrt (2 * pi)), exp (- (1 / 8)) / (2 * sqrt (2 * pi))]]"
  by (simp add: evals upt_rec numeral_2_eq_2)

text \<open>
  Claim C6: when every data point has positive total mass, that is when every row of
  \<open>pi_k * Normal\<close> has a positive sum, the E step returns the responsibility matrix
  whose row \<open>i\<close> is row \<open>i\<close> of \<open>pi_k * Normal\<close> divided by its sum; it has one row
  for each data point, and every row sums to 1.
\<close>

theorem e_step_rows_sum_to_one:
  assumes W: "weighted_densities np K x means1 variances1 pi_k1 = Inr W"
    and pos: "list_all (\<lambda>row. 0 < sum_list row) W"
  shows "e_step np K x means1 variances1 pi_k1 =
           Inr (map (\<lambda>row. map (\<lambda>u. u / sum_list row) row) W) \<and>
         length W = length x \<and>
         list_all (\<lambda>row. sum_list row = 1) (map (\<lambda>row. map (\<lambda>u. u / sum_list row) row) W)"
proof -
  from weighted_densities_shape [OF W]
  have r: "rectangular (length x) K W" and x: "x \<noteq> []" by simp_all
  have n: "0 < length x" using x by simp
  have K: "0 < K"
  proof (rule ccontr)
    assume "\<not> 0 < K"
    then have "W ! 0 = []" using rectangular_nth [OF r n] by simp
    moreover have "0 < sum_list (W ! 0)"
      using pos r n by (simp add: list_all_length rectangular_def)
    ultimately show False by simp
  qed
  have nz: "list_all (\<lambda>row. sum_list row \<noteq> 0) W"
    using pos by (auto simp: list_all_iff)
  have "e_step np K x means1 variances1 pi_k1 =
           Inr (map (\<lambda>row. map (\<lambda>u. u / sum_list row) row) W)"
    unfolding e_step_def W and_then_Inr by (rule normalise_rows [OF r n K nz])
  moreover have "list_all (\<lambda>row. sum_list row = 1)
                   (map (\<lambda>row. map (\<lambda>u. u / sum_list row) row) W)"
    using pos by (auto simp: list_all_iff sum_list_divide)
  ultimately show ?thesis using r by (simp add: rectangular_def)
qed

theorem e_step_rows_sum_to_one_witness:
  "weighted_densities env_1x1 2 [[0]] [[0], [1 / 2]] [[[1]], [[1]]] [1 / 2, 1 / 2] =
     Inr [[1 / (2 * sqrt (2 * pi)), exp (- (1 / 8)) / (2 * sqrt (2 * pi))]] \<and>
   (\<exists>g0 g1. e_step env_1x1 2 [[0]] [[0], [1 / 2]] [[[1]], [[1]]] [1 / 2, 1 / 2] = Inr [[g0, g1]] \<and>
        g0 + g1 = 1)"
proof -
  let ?W = "[[1 / (2 * sqrt (2 * pi)), exp (- (1 / 8)) / (2 * sqrt (2 * pi))]]"
  have pos: "list_all (\<lambda>row. 0 < sum_list row) ?W"
    by (simp add: add_pos_pos)
  from e_step_rows_sum_to_one [OF weighted_densities_two_components pos]
  show ?thesis using weighted_densities_two_components by simp
qed

lemma py_range_100: "\<exists>rest. py_range 100 = 0 # 1 # rest"
proof -
  have "[0..<100] = 0 # 1 # [2..<100]" by (simp add: upt_rec)
  then show ?thesis by (simp add: py_range_def)
qed

lemma fit_one_point:
  "fit env_1x1 gmm_default [[1]] empty_world =
     Inr (1, gmm_default\<lparr>means := Some 0, variances := Some 1, pi_k := Some 4\<rparr>, world_2)"
proof -
  obtain rest where r: "py_range 100 = 0 # 1 # rest" using py_range_100 by blast
  have self1: "gmm_default\<lparr>max_iter := 100\<rparr> = gmm_default" by (simp add: gmm_default_def)
  have e: "e_attr (gmm_default\<lparr>max_iter := 100, means := Some 0, variances := Some 1,
                                pi_k := Some 2\<rparr>) = 1 / 10000"
    by (simp add: gmm_default_def)
  have mi: "max_iter (gmm_default\<lparr>max_iter := 100, means := Some 0, variances := Some 1,
                                pi_k := Some 2\<rparr>) = 100"
    by simp
  have "fit env_1x1 (gmm_default\<lparr>max_iter := 100\<rparr>) [[1]] empty_world =
     Inr (1, gmm_default\<lparr>max_iter := 100, means := Some 0, variances := Some 1, pi_k := Some 4\<rparr>,
          world_2)"
    unfolding fit_def init_one and_then_Inr prod.case mi r em_loop.simps pass_one pass_two
      sum.case e
    using first_change by simp
  then show ?thesis by (simp add: self1)
qed

text \<open>
  Claim C7: the M step sets the weights to \<open>N_k / N\<close>, where \<open>N_k\<close> is the sum of
  column \<open>k\<close> of the responsibility matrix, whose rows sum to 1. So after every pass
  of the loop of \<open>fit\<close> that starts with non-negative weights, the new weights are
  non-negative and sum to 1; and the weights of every model that \<open>fit\<close> returns are
  non-negative and sum to 1.
\<close>

theorem mixture_weights_sum_to_one:
  "(em_iteration np self x am av ap w = Inr (l_new, ap', w') \<and>
    list_all (\<lambda>p. 0 \<le> p) (vecs w ap) \<longrightarrow>
      (\<exists>gamma. e_step np (n_cluster self) x (mats w am) (tens w av) (vecs w ap) = Inr gamma \<and>
         list_all (\<lambda>row. sum_list row = 1) gamma \<and>
         vecs w' ap' = map (\<lambda>k. mass gamma k / real (length x)) [0..<n_cluster self]) \<and>
      list_all (\<lambda>p. 0 \<le> p) (vecs w' ap') \<and> sum_list (vecs w' ap') = 1) \<and>
   (fit np self x w0 = Inr (n, self', w'') \<longrightarrow>
      (\<exists>a. pi_k self' = Some a \<and> list_all (\<lambda>p. 0 \<le> p) (vecs w'' a) \<and>
           sum_list (vecs w'' a) = 1))"
proof (intro conjI impI)
  assume a: "em_iteration np self x am av ap w = Inr (l_new, ap', w') \<and>
             list_all (\<lambda>p. 0 \<le> p) (vecs w ap)"
  then have it: "em_iteration np self x am av ap w = Inr (l_new, ap', w')"
    and nn: "list_all (\<lambda>p. 0 \<le> p) (vecs w ap)" by simp_all
  from em_iteration_parts [OF it] obtain gamma where
    e: "e_step np (n_cluster self) x (mats w am) (tens w av) (vecs w ap) = Inr gamma"
    and m: "m_step x gamma (n_cluster self) am av w = Inr (ap', w')"
    and g: "rectangular (length x) (n_cluster self) gamma" and x: "x \<noteq> []"
    and rows: "list_all (\<lambda>row. sum_list row = 1) gamma"
    by blast
  have "ncols gamma = n_cluster self" using ncols_rect [OF g] x by simp
  with m_step_weights [OF m]
  have "vecs w' ap' = map (\<lambda>k. mass gamma k / real (length x)) [0..<n_cluster self]" by simp
  with e rows
  show "\<exists>gamma. e_step np (n_cluster self) x (mats w am) (tens w av) (vecs w ap) = Inr gamma \<and>
         list_all (\<lambda>row. sum_list row = 1) gamma \<and>
         vecs w' ap' = map (\<lambda>k. mass gamma k / real (length x)) [0..<n_cluster self]"
    by blast
  from em_iteration_weights [OF it nn]
  show "list_all (\<lambda>p. 0 \<le> p) (vecs w' ap')" and "sum_list (vecs w' ap') = 1" by simp_all
next
  assume "fit np self x w0 = Inr (n, self', w'')"
  from fit_weights [OF this]
  show "\<exists>a. pi_k self' = Some a \<and> list_all (\<lambda>p. 0 \<le> p) (vecs w'' a) \<and>
           sum_list (vecs w'' a) = 1"
    by blast
qed

theorem mixture_weights_sum_to_one_witness:
  "em_iteration env_1x1
     (gmm_default\<lparr>max_iter := 100, means := Some 0, variances := Some 1, pi_k := Some 2\<rparr>)
     [[1]] 0 1 2 world_0 = Inr (ln (1 / sqrt (pi / 500)), 3, world_1) \<and>
   sum_list (vecs world_1 3) = 1 \<and>
   fit env_1x1 gmm_default [[1]] empty_world =
     Inr (1, gmm_default\<lparr>means := Some 0, variances := Some 1, pi_k := Some 4\<rparr>, world_2) \<and>
   sum_list (vecs world_2 4) = 1"
proof -
  have nn: "list_all (\<lambda>p. 0 \<le> p) (vecs world_0 2)" by (simp add: world_0_def)
  from mixture_weights_sum_to_one [THEN conjunct1, rule_format, OF conjI, OF pass_one nn]
  have 1: "sum_list (vecs world_1 3) = 1" by simp
  from mixture_weights_sum_to_one [THEN conjunct2, rule_format, OF fit_one_point]
  have 2: "sum_list (vecs world_2 4) = 1" by simp
  from 1 2 pass_one fit_one_point show ?thesis by blast
qed

lemma e_step_one_point:
  "e_step env_1x1 1 [[1]] [[0]] [[[1]]] [1] = Inr [[1]]"
  by (simp add: evals)

text \<open>
  Claim C8: in every M step the loop of lines 116 and 117 first sets every mean to the
  \<open>gamma\<close>-weighted mean of the data divided by \<open>N_k\<close>, while the covariances are
  still untouched; the covariances that the second loop then stores are the
  \<open>gamma\<close>-weighted sums of outer products of the residuals against the new mean,
  divided by \<open>N_k\<close>.
\<close>

theorem m_step_means_before_covariances:
  assumes it: "em_iteration np self x am av ap w = Inr (l_new, ap', w')"
    and x: "rectangular (length x) D x"
  shows "\<exists>gamma w1.
           e_step np (n_cluster self) x (mats w am) (tens w av) (vecs w ap) = Inr gamma \<and>
           update_means x gamma (sum_axis0 (ncols gamma) gamma) am [0..<n_cluster self] w =
             Inr w1 \<and>
           tens w1 = tens w \<and> mats w' = mats w1 \<and>
           (\<forall>k<n_cluster self.
              mats w1 am ! k = weighted_mean x gamma k \<and>
              tens w' av ! k = weighted_covariance x gamma k (mats w' am ! k))"
proof -
  from em_iteration_parts [OF it] obtain gamma where
    e: "e_step np (n_cluster self) x (mats w am) (tens w av) (vecs w ap) = Inr gamma"
    and m: "m_step x gamma (n_cluster self) am av w = Inr (ap', w')"
    and g: "rectangular (length x) (n_cluster self) gamma" and ne: "x \<noteq> []"
    by blast
  from m_step_result(1) [OF m x g ne] obtain w1 where
    um: "update_means x gamma (sum_axis0 (ncols gamma) gamma) am [0..<n_cluster self] w = Inr w1"
    and t: "tens w1 = tens w" and mm: "mats w' = mats w1"
    and means: "\<forall>k<n_cluster self. mats w1 am ! k = weighted_mean x gamma k"
    by blast
  from m_step_result(2) [OF m x g ne] e um t mm means show ?thesis by blast
qed

theorem m_step_means_before_covariances_witness:
  "rectangular (length [[1::real]]) 1 [[1::real]] \<and>
   em_iteration env_1x1
     (gmm_default\<lparr>max_iter := 100, means := Some 0, variances := Some 1, pi_k := Some 2\<rparr>)
     [[1]] 0 1 2 world_0 = Inr (ln (1 / sqrt (pi / 500)), 3, world_1) \<and>
   mats world_0 0 = [[0]] \<and> tens world_0 1 = [[[1]]] \<and>
   mats world_1 0 ! 0 = weighted_mean [[1]] [[1]] 0 \<and> weighted_mean [[1]] [[1]] 0 = [1] \<and>
   tens world_1 1 ! 0 = weighted_covariance [[1]] [[1]] 0 [1] \<and>
   weighted_covariance [[1]] [[1]] 0 [1] = [[0]]"
proof -
  let ?self = "gmm_default\<lparr>max_iter := 100, means := Some 0, variances := Some 1, pi_k := Some 2\<rparr>"
  have r: "rectangular (length [[1::real]]) 1 [[1::real]]" by (simp add: rectangular_def)
  have K: "n_cluster ?self = 1" by (simp add: gmm_default_def)
  have w0: "mats world_0 0 = [[0]]" "tens world_0 1 = [[[1]]]" "vecs world_0 2 = [1]"
    by (simp_all add: world_0_def)
  from m_step_means_before_covariances [OF pass_one r, of 100]
  obtain gamma and w1 :: world where
    e0: "e_step env_1x1 (n_cluster ?self) [[1]] (mats world_0 0) (tens world_0 1)
           (vecs world_0 2) = Inr gamma"
    and mm: "mats world_1 = mats w1"
    and k0: "\<forall>k<n_cluster ?self. mats w1 0 ! k = weighted_mean [[1]] gamma k \<and>
              tens world_1 1 ! k = weighted_covariance [[1]] gamma k (mats world_1 0 ! k)"
    by blast
  have e: "e_step env_1x1 1 [[1]] [[0]] [[[1]]] [1] = Inr gamma"
    using e0 by (simp only: K w0)
  have gamma: "gamma = [[1]]" using e by (simp only: e_step_one_point sum.inject)
  have k: "mats w1 0 ! 0 = weighted_mean [[1]] [[1]] 0 \<and>
           tens world_1 1 ! 0 = weighted_covariance [[1]] [[1]] 0 (mats world_1 0 ! 0)"
    using k0 [rule_format, of 0] by (simp add: gmm_default_def gamma)
  have m1: "mats world_1 0 ! 0 = [1]" by (simp add: world_1_def)
  have 1: "mats world_1 0 ! 0 = weighted_mean [[1]] [[1]] 0"
    using k by (simp only: mm)
  have 2: "tens world_1 1 ! 0 = weighted_covariance [[1]] [[1]] 0 [1]"
    using k by (simp only: m1)
  have 3: "weighted_mean [[1]] [[1]] 0 = [1]"
    by (simp add: weighted_mean_def mass_def ncols_def)
  have 4: "weighted_covariance [[1]] [[1]] 0 [1] = [[0]]"
    by (simp add: weighted_covariance_def mass_def ncols_def)
  show ?thesis
    using r pass_one [of 100] w0(1,2) 1 2 3 4 by (intro conjI)
qed

section \<open>The arrays that \<open>compute_log_likelihood\<close> reads\<close>

lemma em_iteration_frame:
  assumes it: "em_iteration np self x am av ap w = Inr (l_new, ap', w')"
  shows "ap' = fresh w \<and> fresh w' = Suc (fresh w) \<and> gen w' = gen w \<and>
         (\<forall>a. a \<noteq> ap' \<longrightarrow> vecs w' a = vecs w a)"
proof -
  from em_iteration_parts [OF it] obtain gamma where
    m: "m_step x gamma (n_cluster self) am av w = Inr (ap', w')"
    by blast
  from m_step_weights [OF m] show ?thesis by simp
qed

lemma em_state_frame:
  "em_state np self x am av i (l, ap, w) = Inr (l', ap', w') \<Longrightarrow>
     fresh w \<le> fresh w' \<and> gen w' = gen w \<and> (\<forall>a<fresh w. vecs w' a = vecs w a) \<and>
     (0 < i \<longrightarrow> fresh w \<le> ap' \<and> ap' < fresh w')"
proof (induction i arbitrary: l' ap' w')
  case 0
  then show ?case by simp
next
  case (Suc i)
  from Suc.prems obtain l1 ap1 w1 where
    st: "em_state np self x am av i (l, ap, w) = Inr (l1, ap1, w1)"
    and it: "em_iteration np self x am av ap1 w1 = Inr (l', ap', w')"
    by (auto split: sum.splits)
  from Suc.IH [OF st] em_iteration_frame [OF it] show ?case by auto
qed

lemma fit_init_refs:
  assumes "fit_init np self x w0 = Inr (self1, am, av, ap, l, w)"
  shows "ap < fresh w \<and> means self1 = Some am \<and> variances self1 = Some av \<and>
         pi_k self1 = Some ap"
  using assms unfolding fit_init_def Let_def
  by (auto simp: and_then_eq_Inr new_mat_def new_ten_def new_vec_def split: prod.splits)

lemma compute_log_likelihood_defaults:
  assumes "means self = Some am" and "variances self = Some av" and "pi_k self = Some ap"
  shows "compute_log_likelihood np self w x None None None =
         compute_log_likelihood np self w x (Some (mats w am)) (Some (tens w av))
           (Some (vecs w ap))"
  using assms by (simp add: compute_log_likelihood_def)

lemma upt_two: "[0..<2] = [0, Suc 0]" "[0..<Suc (Suc 0)] = [0, Suc 0]"
  by (simp_all add: upt_rec)

lemma init_two:
  "fit_init env_1x1 gmm_two [[0]] empty_world =
     Inr (gmm_two\<lparr>means := Some 0, variances := Some 1, pi_k := Some 2\<rparr>, 0, 1, 2,
          ln (1 / (2 * sqrt (2 * pi)) + exp (- (1 / 8)) / (2 * sqrt (2 * pi))), world_two_0)"
  by (simp add: evals fit_init_def gmm_two_def world_two_0_def upt_two numeral_2_eq_2
        numeral_3_eq_3 add_pos_pos)

lemma e_step_two:
  "e_step env_1x1 2 [[0]] [[0], [1 / 2]] [[[1]], [[1]]] [1 / 2, 1 / 2] = Inr [[gamma_0, gamma_1]]"
proof -
  let ?W = "[[1 / (2 * sqrt (2 * pi)), exp (- (1 / 8)) / (2 * sqrt (2 * pi))]]"
  have r: "rectangular 1 2 ?W" by (simp add: rectangular_def)
  have "0 < 1 / (2 * sqrt (2 * pi)) + exp (- (1 / 8)) / (2 * sqrt (2 * pi))"
    by (simp add: add_pos_pos)
  then have nz: "list_all (\<lambda>row. sum_list row \<noteq> 0) ?W" by simp
  show ?thesis
    unfolding e_step_def weighted_densities_two_components and_then_Inr
    by (simp only: normalise_rows [OF r _ _ nz] zero_less_one zero_less_numeral)
       (simp add: gamma_0_def gamma_1_def)
qed

lemma gamma_pos: "0 < gamma_0" "0 < gamma_1"
  by (simp_all add: gamma_0_def gamma_1_def add_pos_pos)

lemma m_step_two:
  assumes "g0 \<noteq> 0" and "g1 \<noteq> 0"
  shows "m_step [[0]] [[g0, g1]] 2 0 1 world_two_0 =
     Inr (3, \<lparr>mats = (\<lambda>a. [])(0 := [[0], [0]]), tens = (\<lambda>a. [])(1 := [[[0]], [[0]]]),
                  vecs = (\<lambda>a. [])(2 := [1 / 2, 1 / 2], 3 := [g0, g1]),
                  fresh = 4, gen = 43\<rparr>)"
  using assms
  by (simp add: evals world_two_0_def upt_two numeral_3_eq_3 eval_nat_numeral)


lemma log_likelihood_two:
  "compute_log_likelihood env_1x1 (gmm_two\<lparr>means := Some 0, variances := Some 1, pi_k := Some 2\<rparr>)
     world_two_1 [[0]] None None None =
   Inr (ln (1 / (2 * sqrt (pi / 500)) + 1 / (2 * sqrt (pi / 500))))"
  by (simp add: evals world_two_1_def gmm_two_def upt_two numeral_3_eq_3 eval_nat_numeral
        add_pos_pos)

lemma pass_two_components:
  "em_iteration env_1x1 (gmm_two\<lparr>means := Some 0, variances := Some 1, pi_k := Some 2\<rparr>)
     [[0]] 0 1 2 world_two_0 =
   Inr (ln (1 / (2 * sqrt (pi / 500)) + 1 / (2 * sqrt (pi / 500))), 3, world_two_1)"
proof -
  have K: "n_cluster (gmm_two\<lparr>means := Some 0, variances := Some 1, pi_k := Some 2\<rparr>) = 2"
    by (simp add: gmm_two_def)
  have w: "mats world_two_0 0 = [[0], [1 / 2]]" "tens world_two_0 1 = [[[1]], [[1]]]"
    "vecs world_two_0 2 = [1 / 2, 1 / 2]"
    by (simp_all add: world_two_0_def)
  have m: "m_step [[0]] [[gamma_0, gamma_1]] 2 0 1 world_two_0 = Inr (3, world_two_1)"
    using m_step_two [of gamma_0 gamma_1] gamma_pos by (simp add: world_two_1_def)
  show ?thesis
    unfolding em_iteration_def K w e_step_two and_then_Inr m prod.case log_likelihood_two
    by (rule refl)
qed

lemma new_weights_differ: "[gamma_0, gamma_1] \<noteq> [1 / 2, 1 / 2]"
proof -
  have "exp (- (1 / 8)) < (1::real)" by simp
  then have "gamma_1 < gamma_0"
    unfolding gamma_0_def gamma_1_def
    by (intro divide_strict_right_mono) (simp_all add: add_pos_pos)
  then show ?thesis by auto
qed

text \<open>
  Claim C2 says that the log-likelihood \<open>l_new\<close> of every pass is computed under the new
  means, the new covariances and the new weights. The code does not: line 122 binds the
  local variable \<open>pi_k\<close> to a new array, while line 123 calls \<open>compute_log_likelihood\<close>
  with \<open>self\<close> only, and \<open>self.pi_k\<close> still refers to the array of the
  initialisation (it is assigned again only at line 130, after the loop). The means and
  covariances are updated in place, so \<open>self\<close> sees them. After every pass, \<open>l_new\<close> is
  the log-likelihood under the new means, the new covariances and the weights of the
  initialisation; the new weights are in another array.
\<close>

theorem log_likelihood_uses_initial_weights:
  assumes init: "fit_init np self x w0 = Inr (self1, am, av, ap, l, w)"
    and st: "em_state np self1 x am av (Suc i) (l, ap, w) = Inr (l', ap', w')"
  shows "compute_log_likelihood np self1 w' x (Some (mats w' am)) (Some (tens w' av))
           (Some (vecs w ap)) = Inr l' \<and>
         vecs w' ap = vecs w ap \<and> ap' \<noteq> ap"
proof -
  from fit_init_refs [OF init]
  have ap: "ap < fresh w" and refs: "means self1 = Some am" "variances self1 = Some av"
    "pi_k self1 = Some ap" by simp_all
  from st obtain l1 ap1 w1 where
    st1: "em_state np self1 x am av i (l, ap, w) = Inr (l1, ap1, w1)"
    and it: "em_iteration np self1 x am av ap1 w1 = Inr (l', ap', w')"
    by (auto split: sum.splits)
  from em_state_frame [OF st] ap have keep: "vecs w' ap = vecs w ap" and ne: "ap' \<noteq> ap"
    by auto
  from em_iteration_parts [OF it]
  have "compute_log_likelihood np self1 w' x None None None = Inr l'" by blast
  then have "compute_log_likelihood np self1 w' x (Some (mats w' am)) (Some (tens w' av))
           (Some (vecs w' ap)) = Inr l'"
    by (simp only: compute_log_likelihood_defaults [OF refs])
  with keep ne show ?thesis by simp
qed

theorem log_likelihood_uses_initial_weights_witness:
  "fit_init env_1x1 gmm_two [[0]] empty_world =
     Inr (gmm_two\<lparr>means := Some 0, variances := Some 1, pi_k := Some 2\<rparr>, 0, 1, 2,
          ln (1 / (2 * sqrt (2 * pi)) + exp (- (1 / 8)) / (2 * sqrt (2 * pi))), world_two_0) \<and>
   em_iteration env_1x1 (gmm_two\<lparr>means := Some 0, variances := Some 1, pi_k := Some 2\<rparr>)
     [[0]] 0 1 2 world_two_0 =
     Inr (ln (1 / (2 * sqrt (pi / 500)) + 1 / (2 * sqrt (pi / 500))), 3, world_two_1) \<and>
   compute_log_likelihood env_1x1
     (gmm_two\<lparr>means := Some 0, variances := Some 1, pi_k := Some 2\<rparr>) world_two_1 [[0]]
     (Some [[0], [0]]) (Some [[[0]], [[0]]]) (Some [1 / 2, 1 / 2]) =
     Inr (ln (1 / (2 * sqrt (pi / 500)) + 1 / (2 * sqrt (pi / 500)))) \<and>
   vecs world_two_1 2 = [1 / 2, 1 / 2] \<and> vecs world_two_1 3 = [gamma_0, gamma_1] \<and>
   [gamma_0, gamma_1] \<noteq> [1 / 2, 1 / 2]"
proof -
  let ?self1 = "gmm_two\<lparr>means := Some 0, variances := Some 1, pi_k := Some 2\<rparr>"
  let ?l0 = "ln (1 / (2 * sqrt (2 * pi)) + exp (- (1 / 8)) / (2 * sqrt (2 * pi)))"
  let ?l1 = "ln (1 / (2 * sqrt (pi / 500)) + 1 / (2 * sqrt (pi / 500)))"
  have st: "em_state env_1x1 ?self1 [[0]] 0 1 (Suc 0) (?l0, 2, world_two_0) =
              Inr (?l1, 3, world_two_1)"
    by (simp only: em_state.simps sum.case prod.case pass_two_components)
  have w: "mats world_two_1 0 = [[0], [0]]" "tens world_two_1 1 = [[[0]], [[0]]]"
    "vecs world_two_0 2 = [1 / 2, 1 / 2]" "vecs world_two_1 3 = [gamma_0, gamma_1]"
    by (simp_all add: world_two_0_def world_two_1_def)
  from log_likelihood_uses_initial_weights [OF init_two st]
  have "compute_log_likelihood env_1x1 ?self1 world_two_1 [[0]]
          (Some [[0], [0]]) (Some [[[0]], [[0]]]) (Some [1 / 2, 1 / 2]) = Inr ?l1"
    and "vecs world_two_1 2 = [1 / 2, 1 / 2]"
    by (simp_all only: w)
  with init_two pass_two_components w(4) new_weights_differ show ?thesis by (intro conjI)
qed

section \<open>Sampling\<close>

lemma draw_shape:
  "draw np means1 variances1 k D ns g = Inr (samples, g') \<Longrightarrow>
     length samples = length ns \<and> list_all (\<lambda>s. length s = D) samples"
proof (induction ns arbitrary: samples g)
  case Nil
  then show ?case by simp
next
  case (Cons n ns)
  from Cons.prems obtain s g1 rest where
    s: "length s = D" and rec: "draw np means1 variances1 k D ns g1 = Inr (rest, g')"
    and samples: "samples = s # rest"
    by (auto split: sum.splits if_splits prod.splits)
  from Cons.IH [OF rec] s samples show ?case by simp
qed

lemma draw_returns:
  assumes mvn: "\<forall>g m v. \<exists>s g'. multivariate_normal np g m v = Inr (s, g') \<and> length s = length m"
    and ks: "\<forall>n\<in>set ns. n < length k \<and> k ! n < length means1 \<and> k ! n < length vs \<and>
                length (means1 ! (k ! n)) = D"
  shows "\<exists>samples g'. draw np means1 (Some vs) k D ns g = Inr (samples, g')"
  using ks
proof (induction ns arbitrary: g)
  case Nil
  then show ?case by simp
next
  case (Cons n ns)
  from Cons.prems have n: "n < length k" "k ! n < length means1" "k ! n < length vs"
    "length (means1 ! (k ! n)) = D" and rest: "\<forall>n\<in>set ns. n < length k \<and> k ! n < length means1 \<and>
       k ! n < length vs \<and> length (means1 ! (k ! n)) = D"
    by simp_all
  from mvn obtain s g1 where
    s: "multivariate_normal np g (means1 ! (k ! n)) (vs ! (k ! n)) = Inr (s, g1)"
    and ls: "length s = length (means1 ! (k ! n))"
    by blast
  from Cons.IH [OF rest, of g1] obtain samples g' where
    "draw np means1 (Some vs) k D ns g1 = Inr (samples, g')" by blast
  then show ?case using n s ls by (simp add: item_def subscript_def)
qed

lemma Gaussian_pdf_mean: "Gaussian_pdf np m v = Inr g \<Longrightarrow> mean g = m"
  unfolding Gaussian_pdf_def Let_def
  by (auto simp: and_then_eq_Inr split: option.splits)

lemma getLikelihood_length: "getLikelihood g xi = Inr d \<Longrightarrow> length (mean g) = length xi"
  unfolding getLikelihood_def
  by (auto simp: and_then_eq_Inr elementwise_def split: if_splits)

lemma compute_log_likelihood_shapes:
  assumes l: "compute_log_likelihood np self w x None None None = Inr l"
    and x: "x \<noteq> []" and am: "means self = Some am" and av: "variances self = Some av"
    and k: "k < n_cluster self"
  shows "k < length (mats w am) \<and> k < length (tens w av) \<and>
         length (mats w am ! k) = ncols x"
proof -
  let ?K = "n_cluster self"
  from l am av obtain inst normal where
    inst: "instances np ?K (Some (mats w am)) (Some (tens w av)) = Inr inst"
    and normal: "for_each (\<lambda>xi. for_each (\<lambda>k.
                     and_then (subscript (map_option (vecs w) (pi_k self)) k) (\<lambda>p.
                     and_then (getLikelihood (inst ! k) xi) (\<lambda>d. Inr (p * d)))) [0..<?K]) x =
                   Inr normal"
    unfolding compute_log_likelihood_def Let_def
    by (auto simp: and_then_eq_Inr split: if_splits)
  from for_each_nth [OF inst [unfolded instances_def], of k] k
  obtain m v where m: "subscript (Some (mats w am)) k = Inr m"
    and v: "subscript (Some (tens w av)) k = Inr v" and g: "Gaussian_pdf np m v = Inr (inst ! k)"
    by (auto simp: and_then_eq_Inr)
  from m have km: "k < length (mats w am)" and meq: "m = mats w am ! k"
    by (auto simp: subscript_def item_def split: if_splits)
  from v have kv: "k < length (tens w av)"
    by (auto simp: subscript_def item_def split: if_splits)
  have x0: "0 < length x" using x by simp
  from for_each_nth [OF normal x0]
  have "for_each (\<lambda>k. and_then (subscript (map_option (vecs w) (pi_k self)) k) (\<lambda>p.
          and_then (getLikelihood (inst ! k) (x ! 0)) (\<lambda>d. Inr (p * d)))) [0..<?K] =
        Inr (normal ! 0)" .
  from for_each_nth [OF this, of k] k obtain d where
    "getLikelihood (inst ! k) (x ! 0) = Inr d"
    by (auto simp: and_then_eq_Inr)
  from getLikelihood_length [OF this] Gaussian_pdf_mean [OF g] meq
  have "length (mats w am ! k) = length (x ! 0)" by simp
  moreover have "ncols x = length (x ! 0)" using x by (cases x) (simp_all add: ncols_def)
  ultimately show ?thesis using km kv by simp
qed

lemma fit_model_shape:
  assumes fit: "fit np self x w0 = Inr (n, self', w')"
  shows "\<exists>am av ap. means self' = Some am \<and> variances self' = Some av \<and> pi_k self' = Some ap \<and>
           0 < n_cluster self \<and> length (vecs w' ap) = n_cluster self \<and>
           list_all (\<lambda>p. 0 \<le> p) (vecs w' ap) \<and> sum_list (vecs w' ap) = 1 \<and>
           (\<forall>k<n_cluster self. k < length (mats w' am) \<and> k < length (tens w' av) \<and>
               length (mats w' am ! k) = ncols x)"
proof -
  from fit obtain self1 am av ap l w pk' where
    init: "fit_init np self x w0 = Inr (self1, am, av, ap, l, w)"
    and lp: "em_loop np self1 x am av (py_range (max_iter self1)) ap l w = Inr (Some n, pk', w')"
    and self': "self' = self1\<lparr>means := Some am, variances := Some av, pi_k := Some pk'\<rparr>"
    unfolding fit_def
    by (auto simp: and_then_eq_Inr Let_def split: prod.splits option.splits)
  from em_loop_result [OF lp] obtain i l' where
    st: "em_state np self1 x am av (Suc i) (l, ap, w) = Inr (l', pk', w')"
    by auto
  then obtain l1 ap1 w1 where
    it: "em_iteration np self1 x am av ap1 w1 = Inr (l', pk', w')"
    by (auto split: sum.splits)
  have K: "n_cluster self1 = n_cluster self" using fit_init_self [OF init] by simp
  from fit_init_refs [OF init]
  have refs: "means self1 = Some am" "variances self1 = Some av" by simp_all
  from em_iteration_parts [OF it]
  have cl: "compute_log_likelihood np self1 w' x None None None = Inr l'" and x: "x \<noteq> []"
    by blast+
  have K0: "0 < n_cluster self" using compute_log_likelihood_components [OF cl x] K by simp
  from em_state_weights [OF st fit_init_weights [OF init]]
  have wts: "list_all (\<lambda>p. 0 \<le> p) (vecs w' pk')" "sum_list (vecs w' pk') = 1"
    "length (vecs w' pk') = n_cluster self"
    using K by simp_all
  have "\<forall>k<n_cluster self. k < length (mats w' am) \<and> k < length (tens w' av) \<and>
               length (mats w' am ! k) = ncols x"
    using compute_log_likelihood_shapes [OF cl x refs] K by simp
  with wts K0 self' show ?thesis by simp
qed



lemma upt_three: "[0..<3] = [0, Suc 0, Suc (Suc 0)]"
  by (simp add: upt_rec eval_nat_numeral)

lemma draw_three:
  "draw env_1x1 [[1]] (Some [[[0]]]) [0, 0, 0] (Suc 0) [0, Suc 0, Suc (Suc 0)] 43 =
     Inr ([[1], [1], [1]], 46)"
  by (simp add: env_1x1_def item_def subscript_def)

lemma sample_three:
  "sample env_1x1 (gmm_default\<lparr>means := Some 0, variances := Some 1, pi_k := Some 4\<rparr>)
     (PyInt 3) world_2 = Inr ([[1], [1], [1]], world_2\<lparr>gen := 46\<rparr>)"
proof -
  have w: "vecs world_2 4 = [1]" "mats world_2 0 = [[1]]" "tens world_2 (Suc 0) = [[[0]]]"
    by (simp_all add: world_2_def)
  have c: "choice env_1x1 42 (Suc 0) 3 [1] = Inr ([0, 0, 0], 43)"
    by (simp add: env_1x1_def upt_three)
  have s: "seed env_1x1 42 = 42" by (simp add: env_1x1_def)
  show ?thesis
    unfolding sample_def Let_def
    by (simp add: gmm_default_def w s c ncols_def upt_three draw_three del: draw.simps)
qed

text \<open>
  Claim C9: \<open>sample\<close> on a model whose \<open>means\<close> is still \<open>None\<close> ends in an error
  whatever \<open>N\<close> is; an \<open>N\<close> that is not an int, or an int that is not positive, is
  rejected by the assertion of line 144; whenever \<open>sample\<close> returns, \<open>N\<close> is a positive
  int and the result has exactly \<open>N\<close> rows, each as long as a row of \<open>means\<close>; and on
  every model that \<open>fit\<close> has returned \<open>sample(n)\<close> does return, for every positive \<open>n\<close>,
  \<open>n\<close> vectors of the dimension of the data, given of numpy's generator that \<open>choice\<close>
  returns \<open>n\<close> indices below \<open>K\<close> for a probability vector over \<open>K > 0\<close> components and
  that \<open>multivariate_normal\<close> returns a vector as long as the mean.
\<close>

theorem sample_contract:
  "(\<exists>err. sample np (self\<lparr>means := None\<rparr>) N w = Inl err) \<and>
   sample np self PyOther w = Inl AssertionError \<and>
   sample np self (PyInt (- int m)) w = Inl AssertionError \<and>
   (sample np self N w = Inr (samples, w') \<longrightarrow>
      (\<exists>n a. N = PyInt n \<and> 0 < n \<and> means self = Some a \<and> length samples = nat n \<and>
             list_all (\<lambda>s. length s = ncols (mats w a)) samples)) \<and>
   (fit np self0 x w0 = Inr (iters, self, w) \<and> 0 < n \<and>
    (\<forall>g K n p. 0 < K \<and> length p = K \<and> list_all (\<lambda>u. 0 \<le> u) p \<and> sum_list p = 1 \<longrightarrow>
       (\<exists>k g'. choice np g K n p = Inr (k, g') \<and> length k = n \<and> list_all (\<lambda>kn. kn < K) k)) \<and>
    (\<forall>g m v. \<exists>s g'. multivariate_normal np g m v = Inr (s, g') \<and> length s = length m) \<longrightarrow>
      (\<exists>samples g2. sample np self (PyInt n) w = Inr (samples, w\<lparr>gen := g2\<rparr>) \<and>
          length samples = nat n \<and> list_all (\<lambda>s. length s = ncols x) samples))"
proof (intro conjI impI)
  show "\<exists>err. sample np (self\<lparr>means := None\<rparr>) N w = Inl err"
    by (cases N) (simp_all add: sample_def Let_def)
  show "sample np self PyOther w = Inl AssertionError"
    by (simp add: sample_def)
  show "sample np self (PyInt (- int m)) w = Inl AssertionError"
    by (simp add: sample_def)
next
  assume r: "sample np self N w = Inr (samples, w')"
  then obtain n where N: "N = PyInt n" and n: "0 < n"
    by (cases N) (auto simp: sample_def split: if_splits)
  from r N n obtain a ap k g1 g2 where a: "means self = Some a" and
    d: "draw np (mats w a) (map_option (tens w) (variances self)) k (ncols (mats w a))
          [0..<nat n] g1 = Inr (samples, g2)"
    by (auto simp: sample_def Let_def and_then_eq_Inr split: option.splits)
  from draw_shape [OF d] N n a
  show "\<exists>n a. N = PyInt n \<and> 0 < n \<and> means self = Some a \<and> length samples = nat n \<and>
             list_all (\<lambda>s. length s = ncols (mats w a)) samples"
    by simp
next
  assume h: "fit np self0 x w0 = Inr (iters, self, w) \<and> 0 < n \<and>
    (\<forall>g K n p. 0 < K \<and> length p = K \<and> list_all (\<lambda>u. 0 \<le> u) p \<and> sum_list p = 1 \<longrightarrow>
       (\<exists>k g'. choice np g K n p = Inr (k, g') \<and> length k = n \<and> list_all (\<lambda>kn. kn < K) k)) \<and>
    (\<forall>g m v. \<exists>s g'. multivariate_normal np g m v = Inr (s, g') \<and> length s = length m)"
  then have fit: "fit np self0 x w0 = Inr (iters, self, w)" and n: "0 < n"
    and ch: "\<And>g K n p. 0 < K \<Longrightarrow> length p = K \<Longrightarrow> list_all (\<lambda>u. 0 \<le> u) p \<Longrightarrow> sum_list p = 1
               \<Longrightarrow> \<exists>k g'. choice np g K n p = Inr (k, g') \<and> length k = n \<and>
                      list_all (\<lambda>kn. kn < K) k"
    and mvn: "\<forall>g m v. \<exists>s g'. multivariate_normal np g m v = Inr (s, g') \<and> length s = length m"
    by blast+
  from fit_model_shape [OF fit] obtain am av ap where
    refs: "means self = Some am" "variances self = Some av" "pi_k self = Some ap"
    and K0: "0 < n_cluster self0" and lp: "length (vecs w ap) = n_cluster self0"
    and nn: "list_all (\<lambda>p. 0 \<le> p) (vecs w ap)" and s1: "sum_list (vecs w ap) = 1"
    and rows: "\<forall>k<n_cluster self0. k < length (mats w am) \<and> k < length (tens w av) \<and>
                 length (mats w am ! k) = ncols x"
    by blast
  let ?K = "length (vecs w ap)"
  have D: "ncols (mats w am) = ncols x"
  proof -
    from rows K0 have "0 < length (mats w am)" "length (mats w am ! 0) = ncols x" by auto
    then show ?thesis by (cases "mats w am") (simp_all add: ncols_def)
  qed
  from ch [of ?K "vecs w ap" "seed np 42" "nat n"] K0 lp nn s1 obtain k g1 where
    c: "choice np (seed np 42) ?K (nat n) (vecs w ap) = Inr (k, g1)"
    and lk: "length k = nat n" and kk: "list_all (\<lambda>kn. kn < ?K) k"
    by auto
  have ks: "\<forall>i\<in>set [0..<nat n]. i < length k \<and> k ! i < length (mats w am) \<and>
              k ! i < length (tens w av) \<and> length (mats w am ! (k ! i)) = ncols x"
    using lk kk rows lp by (auto simp: list_all_length)
  from draw_returns [OF mvn ks, of g1] obtain samples g2 where
    d: "draw np (mats w am) (Some (tens w av)) k (ncols x) [0..<nat n] g1 = Inr (samples, g2)"
    by blast
  have "sample np self (PyInt n) w = Inr (samples, w\<lparr>gen := g2\<rparr>)"
    using n refs c d D by (simp add: sample_def Let_def)
  with draw_shape [OF d]
  show "\<exists>samples g2. sample np self (PyInt n) w = Inr (samples, w\<lparr>gen := g2\<rparr>) \<and>
          length samples = nat n \<and> list_all (\<lambda>s. length s = ncols x) samples"
    by auto
qed

theorem sample_contract_witness:
  "(\<exists>err. sample env_1x1 (gmm_default\<lparr>means := None\<rparr>) (PyInt 3) empty_world = Inl err) \<and>
   sample env_1x1 gmm_default PyOther empty_world = Inl AssertionError \<and>
   sample env_1x1 gmm_default (PyInt (- int 2)) empty_world = Inl AssertionError \<and>
   fit env_1x1 gmm_default [[1]] empty_world =
     Inr (1, gmm_default\<lparr>means := Some 0, variances := Some 1, pi_k := Some 4\<rparr>, world_2) \<and>
   sample env_1x1 (gmm_default\<lparr>means := Some 0, variances := Some 1, pi_k := Some 4\<rparr>)
     (PyInt 3) world_2 = Inr ([[1], [1], [1]], world_2\<lparr>gen := 46\<rparr>) \<and>
   (\<exists>samples g2.
      sample env_1x1 (gmm_default\<lparr>means := Some 0, variances := Some 1, pi_k := Some 4\<rparr>)
        (PyInt 3) world_2 = Inr (samples, world_2\<lparr>gen := g2\<rparr>) \<and>
      length samples = nat 3 \<and> list_all (\<lambda>s. length s = ncols [[1::real]]) samples) \<and>
   length [[1], [1], [1::real]] = nat 3 \<and>
   list_all (\<lambda>s. length s = ncols (mats world_2 0)) [[1], [1], [1::real]]"
proof -
  let ?fitted = "gmm_default\<lparr>means := Some 0, variances := Some 1, pi_k := Some 4\<rparr>"
  note c = sample_contract [where np = env_1x1 and self = gmm_default and N = "PyInt 3"
      and w = empty_world and m = 2]
  have 1: "\<exists>err. sample env_1x1 (gmm_default\<lparr>means := None\<rparr>) (PyInt 3) empty_world = Inl err"
    using c by blast
  have 2: "sample env_1x1 gmm_default PyOther empty_world = Inl AssertionError"
    using c by blast
  have 3: "sample env_1x1 gmm_default (PyInt (- int 2)) empty_world = Inl AssertionError"
    using c by blast
  have ch: "\<forall>g K n p. 0 < K \<and> length p = K \<and> list_all (\<lambda>u. 0 \<le> u) p \<and> sum_list p = 1 \<longrightarrow>
       (\<exists>k g'. choice env_1x1 g K n p = Inr (k, g') \<and> length k = n \<and>
          list_all (\<lambda>kn. kn < K) k)"
    by (simp add: env_1x1_def list_all_iff)
  have mvn: "\<forall>g m v. \<exists>s g'. multivariate_normal env_1x1 g m v = Inr (s, g') \<and>
               length s = length m"
    by (simp add: env_1x1_def)
  have n: "(0::int) < 3" by simp
  note d = sample_contract [where np = env_1x1 and self = ?fitted and N = "PyInt 3"
      and w = world_2 and samples = "[[1], [1], [1]]" and w' = "world_2\<lparr>gen := 46\<rparr>"
      and ?self0.0 = gmm_default and x = "[[1]]" and ?w0.0 = empty_world and iters = 1
      and n = 3]
  from d sample_three obtain n' a where
    "PyInt 3 = PyInt n'" and "means ?fitted = Some a"
    and "length [[1], [1], [1::real]] = nat n'"
    and "list_all (\<lambda>s. length s = ncols (mats world_2 a)) [[1], [1], [1::real]]"
    by blast
  then have 4: "length [[1], [1], [1::real]] = nat 3 \<and>
           list_all (\<lambda>s. length s = ncols (mats world_2 0)) [[1], [1], [1::real]]"
    by simp
  from d fit_one_point n ch mvn
  have 5: "\<exists>samples g2. sample env_1x1 ?fitted (PyInt 3) world_2 =
              Inr (samples, world_2\<lparr>gen := g2\<rparr>) \<and>
             length samples = nat 3 \<and> list_all (\<lambda>s. length s = ncols [[1::real]]) samples"
    by blast
  from 1 2 3 fit_one_point sample_three 5 4 show ?thesis by (intro conjI) simp_all
qed

section \<open>Two runs\<close>

text \<open>
  The store enters \<open>fit\<close> only as the place where the arrays are kept: the loop on the
  store computes what the loop on the arrays computes.
\<close>

lemma update_means_values:
  "update_means x g N am ks w =
     (case means_loop x g N ks (mats w am) of
        Inl err \<Rightarrow> Inl err
      | Inr M \<Rightarrow> Inr (w\<lparr>mats := (mats w)(am := M)\<rparr>))"
proof (induction ks arbitrary: w)
  case Nil
  then show ?case by simp
next
  case (Cons k ks)
  show ?case
  proof (cases "new_mean x g N k")
    case (Inl err)
    then show ?thesis by simp
  next
    case (Inr v)
    show ?thesis
    proof (cases "set_row (mats w am) k v")
      case (Inl err)
      with Inr show ?thesis by simp
    next
      case (Inr m)
      have "update_means x g N am ks (w\<lparr>mats := (mats w)(am := m)\<rparr>) =
              (case means_loop x g N ks m of
                 Inl err \<Rightarrow> Inl err
               | Inr M \<Rightarrow> Inr (w\<lparr>mats := (mats w)(am := M)\<rparr>))"
        using Cons.IH [of "w\<lparr>mats := (mats w)(am := m)\<rparr>"]
        by (cases "means_loop x g N ks m") simp_all
      with \<open>new_mean x g N k = Inr v\<close> Inr show ?thesis by simp
    qed
  qed
qed

lemma update_variances_values:
  "update_variances x g N am av ks w =
     (case variances_loop x g N (mats w am) ks (tens w av) of
        Inl err \<Rightarrow> Inl err
      | Inr C \<Rightarrow> Inr (w\<lparr>tens := (tens w)(av := C)\<rparr>))"
proof (induction ks arbitrary: w)
  case Nil
  then show ?case by simp
next
  case (Cons k ks)
  show ?case
  proof (cases "item (mats w am) k")
    case (Inl err)
    then show ?thesis by simp
  next
    case mu: (Inr mu)
    show ?thesis
    proof (cases "item N k")
      case (Inl err)
      with mu show ?thesis by simp
    next
      case n: (Inr n)
      show ?thesis
      proof (cases "covariance x g k mu n")
        case (Inl err)
        with mu n show ?thesis by simp
      next
        case v: (Inr v)
        show ?thesis
        proof (cases "set_block (tens w av) k v")
          case (Inl err)
          with mu n v show ?thesis by simp
        next
          case (Inr t)
          have "update_variances x g N am av ks (w\<lparr>tens := (tens w)(av := t)\<rparr>) =
                  (case variances_loop x g N (mats w am) ks t of
                     Inl err \<Rightarrow> Inl err
                   | Inr C \<Rightarrow> Inr (w\<lparr>tens := (tens w)(av := C)\<rparr>))"
            using Cons.IH [of "w\<lparr>tens := (tens w)(av := t)\<rparr>"]
            by (cases "variances_loop x g N (mats w am) ks t") simp_all
          with mu n v Inr show ?thesis by simp
        qed
      qed
    qed
  qed
qed


lemma compute_log_likelihood_config:
  "n_cluster self = n_cluster self' \<Longrightarrow>
     compute_log_likelihood np self w x (Some M) (Some C) (Some p) =
     compute_log_likelihood np self' v x (Some M) (Some C) (Some p)"
  by (simp add: compute_log_likelihood_def)

lemma m_step_values:
  "m_step x g K am av w =
     (case and_then (means_loop x g (sum_axis0 (ncols g) g) [0..<K] (mats w am)) (\<lambda>M'.
           and_then (variances_loop x g (sum_axis0 (ncols g) g) M' [0..<K] (tens w av)) (\<lambda>C'.
           and_then (divide_all (sum_axis0 (ncols g) g) (real (length x))) (\<lambda>p'.
             Inr (M', C', p')))) of
        Inl err \<Rightarrow> Inl err
      | Inr (M', C', p') \<Rightarrow>
          Inr (fresh w, w\<lparr>mats := (mats w)(am := M'), tens := (tens w)(av := C'),
                          vecs := (vecs w)(fresh w := p'), fresh := Suc (fresh w)\<rparr>))"
proof -
  let ?N = "sum_axis0 (ncols g) g"
  show ?thesis
  proof (cases "means_loop x g ?N [0..<K] (mats w am)")
    case (Inl err)
    then show ?thesis by (simp add: m_step_def Let_def update_means_values)
  next
    case M: (Inr M')
    show ?thesis
    proof (cases "variances_loop x g ?N M' [0..<K] (tens w av)")
      case (Inl err)
      with M show ?thesis
        by (simp add: m_step_def Let_def update_means_values update_variances_values)
    next
      case C: (Inr C')
      show ?thesis
      proof (cases "divide_all ?N (real (length x))")
        case (Inl err)
        with M C show ?thesis
          by (simp add: m_step_def Let_def update_means_values update_variances_values)
      next
        case (Inr p')
        with M C show ?thesis
          by (simp add: m_step_def Let_def update_means_values update_variances_values
                new_vec_def)
      qed
    qed
  qed
qed

lemma em_iteration_values:
  assumes refs: "means self1 = Some am" "variances self1 = Some av" "pi_k self1 = Some a0"
    and a0: "a0 < fresh w" and cfg: "n_cluster self1 = n_cluster self"
  shows "em_iteration np self1 x am av ap w =
     (case pass_values np self x (vecs w a0) (mats w am, tens w av, vecs w ap) of
        Inl err \<Rightarrow> Inl err
      | Inr (l_new, M', C', p') \<Rightarrow>
          Inr (l_new, fresh w,
               w\<lparr>mats := (mats w)(am := M'), tens := (tens w)(av := C'),
                 vecs := (vecs w)(fresh w := p'), fresh := Suc (fresh w)\<rparr>))"
proof (cases "e_step np (n_cluster self) x (mats w am) (tens w av) (vecs w ap)")
  case (Inl err)
  then show ?thesis by (simp add: em_iteration_def pass_values_def cfg)
next
  case g: (Inr g)
  let ?N = "sum_axis0 (ncols g) g"
  let ?K = "n_cluster self"
  let ?m = "and_then (means_loop x g ?N [0..<?K] (mats w am)) (\<lambda>M'.
           and_then (variances_loop x g ?N M' [0..<?K] (tens w av)) (\<lambda>C'.
           and_then (divide_all ?N (real (length x))) (\<lambda>p'. Inr (M', C', p'))))"
  have pv: "pass_values np self x (vecs w a0) (mats w am, tens w av, vecs w ap) =
              and_then ?m (\<lambda>(M', C', p').
                and_then (compute_log_likelihood np self empty_world x (Some M') (Some C')
                            (Some (vecs w a0))) (\<lambda>l_new. Inr (l_new, M', C', p')))"
    by (simp add: pass_values_def g Let_def and_then_def split: sum.splits)
  show ?thesis
  proof (cases ?m)
    case (Inl err)
    then show ?thesis
      unfolding pv by (simp add: em_iteration_def cfg g m_step_values)
  next
    case (Inr r)
    obtain M' C' p' where r: "r = (M', C', p')" by (cases r) auto
    let ?w' = "w\<lparr>mats := (mats w)(am := M'), tens := (tens w)(av := C'),
                 vecs := (vecs w)(fresh w := p'), fresh := Suc (fresh w)\<rparr>"
    have "compute_log_likelihood np self1 ?w' x None None None =
            compute_log_likelihood np self1 ?w' x (Some (mats ?w' am)) (Some (tens ?w' av))
              (Some (vecs ?w' a0))"
      by (rule compute_log_likelihood_defaults [OF refs])
    also have "\<dots> = compute_log_likelihood np self empty_world x (Some M') (Some C')
                        (Some (vecs w a0))"
      using a0 by (simp add: compute_log_likelihood_config [OF cfg])
    finally have l: "compute_log_likelihood np self1 ?w' x None None None =
        compute_log_likelihood np self empty_world x (Some M') (Some C') (Some (vecs w a0))" .
    show ?thesis
      unfolding pv using Inr r l
      by (simp add: em_iteration_def cfg g m_step_values and_then_def split: sum.splits)
  qed
qed


lemma em_loop_values:
  assumes refs: "means self1 = Some am" "variances self1 = Some av" "pi_k self1 = Some a0"
    and cfg: "n_cluster self1 = n_cluster self" "e_attr self1 = e_attr self"
  shows "a0 < fresh w \<Longrightarrow>
     (case loop_values np self x (vecs w a0) its l (mats w am, tens w av, vecs w ap) of
        Inl err \<Rightarrow> em_loop np self1 x am av its ap l w = Inl err
      | Inr (r, M, C, p) \<Rightarrow>
          (\<exists>ap' w'. em_loop np self1 x am av its ap l w = Inr (r, ap', w') \<and>
             mats w' am = M \<and> tens w' av = C \<and> vecs w' ap' = p))"
proof (induction its arbitrary: ap l w)
  case Nil
  then show ?case by simp
next
  case (Cons iter rest)
  note it = em_iteration_values [OF refs Cons.prems cfg(1), where np = np and x = x and ap = ap]
  show ?case
  proof (cases "pass_values np self x (vecs w a0) (mats w am, tens w av, vecs w ap)")
    case (Inl err)
    with it show ?thesis by simp
  next
    case (Inr r)
    obtain l_new M' C' p' where r: "r = (l_new, M', C', p')" by (cases r) auto
    let ?w1 = "w\<lparr>mats := (mats w)(am := M'), tens := (tens w)(av := C'),
                 vecs := (vecs w)(fresh w := p'), fresh := Suc (fresh w)\<rparr>"
    from it Inr r
    have step: "em_iteration np self1 x am av ap w = Inr (l_new, fresh w, ?w1)" by simp
    show ?thesis
    proof (cases "\<bar>l - l_new\<bar> < e_attr self")
      case True
      then show ?thesis using Inr r step cfg(2) by simp
    next
      case False
      have a1: "a0 < fresh ?w1" using Cons.prems by simp
      have same: "vecs ?w1 a0 = vecs w a0" "mats ?w1 am = M'" "tens ?w1 av = C'"
        "vecs ?w1 (fresh w) = p'"
        using Cons.prems by simp_all
      from Cons.IH [OF a1, where l = l_new and ap = "fresh w"]
      have "case loop_values np self x (vecs w a0) rest l_new (M', C', p') of
              Inl err \<Rightarrow> em_loop np self1 x am av rest (fresh w) l_new ?w1 = Inl err
            | Inr (r, M, C, p) \<Rightarrow>
                (\<exists>ap' w'. em_loop np self1 x am av rest (fresh w) l_new ?w1 = Inr (r, ap', w') \<and>
                   mats w' am = M \<and> tens w' av = C \<and> vecs w' ap' = p)"
        by (simp only: same)
      moreover have "em_loop np self1 x am av (iter # rest) ap l w =
                       em_loop np self1 x am av rest (fresh w) l_new ?w1"
        using step False cfg(2) by simp
      moreover have "loop_values np self x (vecs w a0) (iter # rest) l
                         (mats w am, tens w av, vecs w ap) =
                       loop_values np self x (vecs w a0) rest l_new (M', C', p')"
        using Inr r False by simp
      ultimately show ?thesis by (simp only:)
    qed
  qed
qed

lemma fit_values_refines:
  "case fit_values np self x of
     Inl err \<Rightarrow> fit np self x w = Inl err
   | Inr (n, M, C, p) \<Rightarrow>
       (\<exists>self' w'. fit np self x w = Inr (n, self', w') \<and>
          parameters self' w' = (Some M, Some C, Some p))"
proof -
  let ?ini = "if init self = ''k_means'' then init_k_means np self x (seed np 42)
        else if init self = ''random'' then init_random np self x (seed np 42)
        else Inl (Exception ''Invalid initialization provided'')"
  show ?thesis
  proof (cases ?ini)
    case (Inl err)
    then show ?thesis by (simp add: fit_values_def fit_def fit_init_def)
  next
    case (Inr r)
    obtain mu sigma pi0 g1 where r: "r = (mu, sigma, pi0, g1)" by (cases r) auto
    let ?am = "fresh w" and ?av = "Suc (fresh w)" and ?ap = "Suc (Suc (fresh w))"
    let ?w3 = "w\<lparr>gen := g1, mats := (mats w)(?am := mu), tens := (tens w)(?av := sigma),
                 vecs := (vecs w)(?ap := pi0), fresh := Suc (Suc (Suc (fresh w)))\<rparr>"
    let ?self1 = "self\<lparr>means := Some ?am, variances := Some ?av, pi_k := Some ?ap\<rparr>"
    have refs: "means ?self1 = Some ?am" "variances ?self1 = Some ?av" "pi_k ?self1 = Some ?ap"
      by simp_all
    have cfg: "n_cluster ?self1 = n_cluster self" "e_attr ?self1 = e_attr self" by simp_all
    have l: "compute_log_likelihood np ?self1 ?w3 x None None None =
               compute_log_likelihood np self empty_world x (Some mu) (Some sigma) (Some pi0)"
      using compute_log_likelihood_config [OF cfg(1), where np = np and w = ?w3 and x = x
          and M = mu and C = sigma and p = pi0 and v = empty_world]
      by (simp add: compute_log_likelihood_defaults [OF refs])
    have ini: "fit_init np self x w =
                 and_then (compute_log_likelihood np self empty_world x (Some mu) (Some sigma)
                             (Some pi0)) (\<lambda>l. Inr (?self1, ?am, ?av, ?ap, l, ?w3))"
      using Inr r l
      by (simp add: fit_init_def Let_def new_mat_def new_ten_def new_vec_def)
    show ?thesis
    proof (cases "compute_log_likelihood np self empty_world x (Some mu) (Some sigma) (Some pi0)")
      case (Inl err)
      with Inr r ini show ?thesis by (simp add: fit_values_def fit_def)
    next
      case l0: (Inr l0)
      have a0: "?ap < fresh ?w3" by simp
      have vals: "vecs ?w3 ?ap = pi0" "mats ?w3 ?am = mu" "tens ?w3 ?av = sigma" by simp_all
      from em_loop_values [OF refs cfg a0, where np = np and x = x
          and its = "py_range (max_iter self)" and l = l0 and ap = ?ap]
      have lp: "case loop_values np self x pi0 (py_range (max_iter self)) l0 (mu, sigma, pi0) of
          Inl err \<Rightarrow> em_loop np ?self1 x ?am ?av (py_range (max_iter self)) ?ap l0 ?w3 = Inl err
        | Inr (r, M, C, p) \<Rightarrow>
            (\<exists>ap' w'. em_loop np ?self1 x ?am ?av (py_range (max_iter self)) ?ap l0 ?w3 =
                        Inr (r, ap', w') \<and>
               mats w' ?am = M \<and> tens w' ?av = C \<and> vecs w' ap' = p)"
        by (simp only: vals)
      have fv: "fit_values np self x =
                  and_then (loop_values np self x pi0 (py_range (max_iter self)) l0
                              (mu, sigma, pi0))
                    (\<lambda>(number_of_updates, s).
                       case number_of_updates of
                         None \<Rightarrow> Inl UnboundLocalError
                       | Some n \<Rightarrow> Inr (n, s))"
        using Inr r l0 by (simp add: fit_values_def)
      have ft: "fit np self x w = Inl err"
        if "em_loop np ?self1 x ?am ?av (py_range (max_iter self)) ?ap l0 ?w3 = Inl err" for err
        using that ini l0 by (simp add: fit_def)
      have ft_none: "fit np self x w = Inl UnboundLocalError"
        if "em_loop np ?self1 x ?am ?av (py_range (max_iter self)) ?ap l0 ?w3 =
              Inr (None, ap', w')" for ap' w'
        using that ini l0 by (simp add: fit_def)
      have ft_some: "fit np self x w = Inr (n, ?self1\<lparr>pi_k := Some ap'\<rparr>, w')"
        if "em_loop np ?self1 x ?am ?av (py_range (max_iter self)) ?ap l0 ?w3 =
              Inr (Some n, ap', w')" for n ap' w'
        using that ini l0 by (simp add: fit_def)
      show ?thesis
      proof (cases "loop_values np self x pi0 (py_range (max_iter self)) l0 (mu, sigma, pi0)")
        case (Inl err)
        with lp have "em_loop np ?self1 x ?am ?av (py_range (max_iter self)) ?ap l0 ?w3 = Inl err"
          by simp
        from ft [OF this] Inl fv show ?thesis by simp
      next
        case (Inr q)
        obtain n' M C p where q: "q = (n', M, C, p)" by (cases q) auto
        from lp Inr q obtain ap' w' where
          e: "em_loop np ?self1 x ?am ?av (py_range (max_iter self)) ?ap l0 ?w3 =
                Inr (n', ap', w')"
          and v: "mats w' ?am = M" "tens w' ?av = C" "vecs w' ap' = p"
          by auto
        show ?thesis
        proof (cases n')
          case None
          with e ft_none have "fit np self x w = Inl UnboundLocalError" by simp
          with None Inr q fv show ?thesis by simp
        next
          case (Some n)
          with e ft_some have "fit np self x w = Inr (n, ?self1\<lparr>pi_k := Some ap'\<rparr>, w')"
            by simp
          with Some Inr q fv v show ?thesis by (simp add: parameters_def)
        qed
      qed
    qed
  qed
qed

lemma pass_values_config:
  "n_cluster self' = n_cluster self \<Longrightarrow>
     pass_values np self' x p0 s = pass_values np self x p0 s"
proof -
  assume c: "n_cluster self' = n_cluster self"
  obtain M C p where s: "s = (M, C, p)" by (cases s) auto
  have "compute_log_likelihood np self' empty_world x (Some M') (Some C') (Some p0) =
        compute_log_likelihood np self empty_world x (Some M') (Some C') (Some p0)" for M' C'
    by (rule compute_log_likelihood_config [OF c])
  then show ?thesis by (simp add: pass_values_def s c)
qed

lemma loop_values_config:
  assumes "n_cluster self' = n_cluster self" and "e_attr self' = e_attr self"
  shows "loop_values np self' x p0 its l s = loop_values np self x p0 its l s"
proof (induction its arbitrary: l s)
  case Nil
  show ?case by simp
next
  case (Cons iter rest)
  show ?case
    by (cases "pass_values np self x p0 s")
       (auto simp: pass_values_config [OF assms(1)] assms(2) Cons.IH)
qed

lemma init_random_config:
  "n_cluster self' = n_cluster self \<Longrightarrow> init_random np self' x g = init_random np self x g"
  by (simp add: init_random_def)

lemma init_k_means_config:
  "n_cluster self' = n_cluster self \<Longrightarrow> KMeans_fit np self' x g = KMeans_fit np self x g \<Longrightarrow>
     init_k_means np self' x g = init_k_means np self x g"
  by (simp add: init_k_means_def)

lemma fit_values_config:
  assumes n: "n_cluster self' = n_cluster self" and e: "e_attr self' = e_attr self"
    and m: "max_iter self' = max_iter self" and i: "init self' = init self"
    and k: "KMeans_fit np self' x (seed np 42) = KMeans_fit np self x (seed np 42)"
  shows "fit_values np self' x = fit_values np self x"
proof -
  have c: "compute_log_likelihood np self' empty_world x (Some M) (Some C) (Some p) =
           compute_log_likelihood np self empty_world x (Some M) (Some C) (Some p)" for M C p
    by (rule compute_log_likelihood_config [OF n])
  show ?thesis
    unfolding fit_values_def
    by (simp only: c loop_values_config [OF n e] init_random_config [OF n]
          init_k_means_config [OF n k] m i)
qed

lemma fit_outcome_values:
  "fit_outcome np self x w =
     (case fit_values np self x of
        Inl err \<Rightarrow> Inl err
      | Inr (n, M, C, p) \<Rightarrow> Inr (n, Some M, Some C, Some p))"
  using fit_values_refines [of np self x w]
  by (auto simp: fit_outcome_def split: sum.splits)

lemma sample_outcome_parameters:
  assumes "parameters s1 w1 = parameters s2 w2"
  shows "sample_outcome np s1 N w1 = sample_outcome np s2 N w2"
proof -
  from assms have m: "map_option (mats w1) (means s1) = map_option (mats w2) (means s2)"
    and v: "map_option (tens w1) (variances s1) = map_option (tens w2) (variances s2)"
    and p: "map_option (vecs w1) (pi_k s1) = map_option (vecs w2) (pi_k s2)"
    by (simp_all add: parameters_def)
  show ?thesis
  proof (cases N)
    case PyOther
    then show ?thesis by (simp add: sample_outcome_def sample_def)
  next
    case (PyInt n)
    show ?thesis
    proof (cases "n \<le> 0")
      case True
      with PyInt show ?thesis by (simp add: sample_outcome_def sample_def)
    next
      case False
      show ?thesis
      proof (cases "means s1")
        case None
        with m have "means s2 = None" by simp
        with None PyInt False show ?thesis by (simp add: sample_outcome_def sample_def)
      next
        case (Some a1)
        with m obtain a2 where a2: "means s2 = Some a2" "mats w2 a2 = mats w1 a1"
          by (cases "means s2") auto
        show ?thesis
        proof (cases "pi_k s1")
          case None
          with p have "pi_k s2 = None" by simp
          with None Some a2 PyInt False show ?thesis
            by (simp add: sample_outcome_def sample_def)
        next
          case b1: (Some b1)
          with p obtain b2 where b2: "pi_k s2 = Some b2" "vecs w2 b2 = vecs w1 b1"
            by (cases "pi_k s2") auto
          from Some a2 b1 b2 PyInt False v show ?thesis
            by (simp add: sample_outcome_def sample_def Let_def and_then_def
                     split: sum.splits prod.splits)
        qed
      qed
    qed
  qed
qed

text \<open>
  Claim C10: \<open>fit\<close> and \<open>sample\<close> both set the generator to \<open>seed(42)\<close> before they
  draw anything; the seed is the constant 42 of the code, and no argument of \<open>fit\<close> or
  \<open>sample\<close> reaches it. So two runs agree. Two calls of \<open>fit\<close> on the same data, on
  models of the same configuration (\<open>n_cluster\<close>, \<open>e\<close>, \<open>max_iter\<close>, \<open>init\<close>, and the same
  answer of \<open>KMeans.fit\<close>, which is given the object), from any two stores and generator
  states, raise the same exception or return the same count and leave the same
  parameters; this covers a second \<open>fit\<close> of a model that has been fitted. Two calls of
  \<open>sample\<close> with the same \<open>N\<close> on models of the same parameters return the same array
  or raise the same exception. The state of the generator changes nothing in either,
  and \<open>sample\<close> called again in the state that its first call has left returns the same
  array and leaves the same state.
\<close>

theorem fit_sample_deterministic:
  "(n_cluster self' = n_cluster self \<and> e_attr self' = e_attr self \<and>
    max_iter self' = max_iter self \<and> init self' = init self \<and>
    KMeans_fit np self' x (seed np 42) = KMeans_fit np self x (seed np 42) \<longrightarrow>
      fit_outcome np self' x v = fit_outcome np self x w) \<and>
   (parameters s1 w1 = parameters s2 w2 \<longrightarrow>
      sample_outcome np s1 N w1 = sample_outcome np s2 N w2) \<and>
   fit np self x (w\<lparr>gen := g\<rparr>) = fit np self x w \<and>
   sample np self N (w\<lparr>gen := g\<rparr>) = sample np self N w \<and>
   (sample np self N w = Inr (samples, w') \<longrightarrow> sample np self N w' = Inr (samples, w'))"
proof (intro conjI impI)
  assume c: "n_cluster self' = n_cluster self \<and> e_attr self' = e_attr self \<and>
    max_iter self' = max_iter self \<and> init self' = init self \<and>
    KMeans_fit np self' x (seed np 42) = KMeans_fit np self x (seed np 42)"
  then have "fit_values np self' x = fit_values np self x"
    by (intro fit_values_config) simp_all
  then show "fit_outcome np self' x v = fit_outcome np self x w"
    by (simp only: fit_outcome_values)
next
  assume "parameters s1 w1 = parameters s2 w2"
  then show "sample_outcome np s1 N w1 = sample_outcome np s2 N w2"
    by (rule sample_outcome_parameters)
next
  have "fit_init np self x (w\<lparr>gen := g\<rparr>) = fit_init np self x w"
    by (simp add: fit_init_def)
  then show "fit np self x (w\<lparr>gen := g\<rparr>) = fit np self x w"
    by (simp add: fit_def)
  show indep: "sample np self N (w\<lparr>gen := g\<rparr>) = sample np self N w" for g
    by (simp add: sample_def Let_def split: pyobject.splits option.splits)
  assume r: "sample np self N w = Inr (samples, w')"
  then obtain g2 where "w' = w\<lparr>gen := g2\<rparr>"
    by (auto simp: sample_def Let_def and_then_eq_Inr
             split: pyobject.splits option.splits if_splits)
  with r indep [of g2] show "sample np self N w' = Inr (samples, w')" by simp
qed

theorem fit_sample_deterministic_witness:
  "fit_outcome env_1x1 (gmm_default\<lparr>means := Some 0, variances := Some 1, pi_k := Some 4\<rparr>)
     [[1]] world_2 = Inr (1, Some [[1]], Some [[[0]]], Some [1]) \<and>
   sample_outcome env_1x1 (gmm_default\<lparr>means := Some 7, variances := Some 8, pi_k := Some 9\<rparr>)
     (PyInt 3)
     \<lparr>mats = (\<lambda>a. [[1]]), tens = (\<lambda>a. [[[0]]]), vecs = (\<lambda>a. [1]), fresh = 10, gen = 5\<rparr> =
     Inr [[1], [1], [1]] \<and>
   fit env_1x1 gmm_default [[1]] (empty_world\<lparr>gen := 7\<rparr>) =
     Inr (1, gmm_default\<lparr>means := Some 0, variances := Some 1, pi_k := Some 4\<rparr>, world_2) \<and>
   sample env_1x1 (gmm_default\<lparr>means := Some 0, variances := Some 1, pi_k := Some 4\<rparr>)
     (PyInt 3) (world_2\<lparr>gen := 46\<rparr>) = Inr ([[1], [1], [1]], world_2\<lparr>gen := 46\<rparr>)"
proof -
  let ?fitted = "gmm_default\<lparr>means := Some 0, variances := Some 1, pi_k := Some 4\<rparr>"
  let ?other = "gmm_default\<lparr>means := Some 7, variances := Some 8, pi_k := Some 9\<rparr>"
  let ?store = "\<lparr>mats = (\<lambda>a. [[1]]), tens = (\<lambda>a. [[[0]]]), vecs = (\<lambda>a. [1::real]),
                  fresh = 10, gen = 5\<rparr>"
  note d = fit_sample_deterministic
    [where np = env_1x1 and self = gmm_default and self' = ?fitted and x = "[[1]]"
      and w = empty_world and v = world_2 and g = 7
      and ?s1.0 = ?fitted and ?w1.0 = world_2 and ?s2.0 = ?other and ?w2.0 = ?store
      and N = "PyInt 3"]
  note e = fit_sample_deterministic
    [where np = env_1x1 and self = ?fitted and N = "PyInt 3" and w = world_2
      and samples = "[[1], [1], [1]]" and w' = "world_2\<lparr>gen := 46\<rparr>"]
  have cfg: "n_cluster ?fitted = n_cluster gmm_default \<and> e_attr ?fitted = e_attr gmm_default \<and>
    max_iter ?fitted = max_iter gmm_default \<and> init ?fitted = init gmm_default \<and>
    KMeans_fit env_1x1 ?fitted [[1]] (seed env_1x1 42) =
      KMeans_fit env_1x1 gmm_default [[1]] (seed env_1x1 42)"
    by (simp add: env_1x1_def)
  have par: "parameters ?fitted world_2 = (Some [[1]], Some [[[0]]], Some [1])"
    by (simp add: parameters_def world_2_def)
  have par': "parameters ?other ?store = (Some [[1]], Some [[[0]]], Some [1])"
    by (simp add: parameters_def)
  have first: "fit_outcome env_1x1 gmm_default [[1]] empty_world =
                 Inr (1, Some [[1]], Some [[[0]]], Some [1])"
    unfolding fit_outcome_def fit_one_point by (simp add: parameters_def world_2_def)
  have smp: "sample_outcome env_1x1 ?fitted (PyInt 3) world_2 = Inr [[1], [1], [1]]"
    unfolding sample_outcome_def sample_three by simp
  from d cfg first
  have 1: "fit_outcome env_1x1 ?fitted [[1]] world_2 = Inr (1, Some [[1]], Some [[[0]]], Some [1])"
    by simp
  from d par par' smp
  have 2: "sample_outcome env_1x1 ?other (PyInt 3) ?store = Inr [[1], [1], [1]]"
    by simp
  from d have 3: "fit env_1x1 gmm_default [[1]] (empty_world\<lparr>gen := 7\<rparr>) =
      Inr (1, ?fitted, world_2)"
    by (simp only: fit_one_point)
  from e sample_three have 4: "sample env_1x1 ?fitted (PyInt 3) (world_2\<lparr>gen := 46\<rparr>) =
      Inr ([[1], [1], [1]], world_2\<lparr>gen := 46\<rparr>)"
    by blast
  from 1 2 3 4 show ?thesis by (intro conjI)
qed

end
